(* ===== verification/Bedrock_Prelude.thy ===== *)
theory Bedrock_Prelude
  imports Main "HOL-Library.Word" "HOL-Library.Sublist"
begin

text \<open>
  Shared vocabulary of the development: the machine integer types of the Rust
  sources, the fallible state-passing computations used for code that returns
  \<open>Result\<close> while it mutates its receiver, little-endian byte encodings, slice
  writes, the saturating and checked operations of the standard library, and the
  lemmas on them that the component theories share.
\<close>

unbundle bit_operations_syntax

named_theorems bedrock_bits \<open>bit-level facts on page and table addresses\<close>
named_theorems bedrock_defs \<open>definitions unfolded by component proofs\<close>

type_synonym u8 = "8 word"
type_synonym u16 = "16 word"
type_synonym u32 = "32 word"
type_synonym u64 = "64 word"
type_synonym bytes = "8 word list"

subsection \<open>Results and fallible state passing\<close>

type_synonym ('s, 'e, 'a) fallible = "'s \<Rightarrow> ('e + 'a) \<times> 's"

definition ok :: "'a \<Rightarrow> ('s, 'e, 'a) fallible" where
  "ok x s = (Inr x, s)"

definition fail :: "'e \<Rightarrow> ('s, 'e, 'a) fallible" where
  "fail e s = (Inl e, s)"

definition and_then :: "('s, 'e, 'a) fallible \<Rightarrow> ('a \<Rightarrow> ('s, 'e, 'b) fallible) \<Rightarrow> ('s, 'e, 'b) fallible" where
  "and_then m f s = (case m s of (Inl e, s') \<Rightarrow> (Inl e, s') | (Inr x, s') \<Rightarrow> f x s')"

text \<open>A \<open>for\<close> loop whose body may return early with an error.\<close>

primrec for_each :: "'i list \<Rightarrow> ('i \<Rightarrow> ('s, 'e, unit) fallible) \<Rightarrow> ('s, 'e, unit) fallible" where
  "for_each [] body s = (Inr (), s)"
| "for_each (i # is) body s =
     (case body i s of (Inl e, s') \<Rightarrow> (Inl e, s') | (Inr u, s') \<Rightarrow> for_each is body s')"

subsection \<open>Byte encodings\<close>

primrec to_le :: "nat \<Rightarrow> 'a::len word \<Rightarrow> bytes" where
  "to_le 0 w = []"
| "to_le (Suc n) w = ucast w # to_le n (drop_bit 8 w)"

fun of_le :: "bytes \<Rightarrow> 'a::len word" where
  "of_le [] = 0"
| "of_le (b # bs) = ucast b OR push_bit 8 (of_le bs)"

definition subslice :: "nat \<Rightarrow> nat \<Rightarrow> 'a list \<Rightarrow> 'a list" where
  "subslice off len xs = take len (drop off xs)"

text \<open>\<open>buf[off..off + len].copy_from_slice(bs)\<close>; out of range it panics in Rust,
  which is the value \<open>None\<close>.\<close>

definition write_at :: "nat \<Rightarrow> 'a list \<Rightarrow> 'a list \<Rightarrow> 'a list option" where
  "write_at off bs xs =
     (if off + length bs \<le> length xs
      then Some (take off xs @ bs @ drop (off + length bs) xs) else None)"

text \<open>The in-range part of the same write, for callers that have checked the bounds.\<close>

definition patch :: "nat \<Rightarrow> 'a list \<Rightarrow> 'a list \<Rightarrow> 'a list" where
  "patch off bs xs = take off xs @ bs @ drop (off + length bs) xs"

subsection \<open>Saturating and checked arithmetic\<close>

definition sat_add :: "'a::len word \<Rightarrow> 'a word \<Rightarrow> 'a word" where
  "sat_add a b = (if a \<le> a + b then a + b else - 1)"

definition sat_sub :: "'a::len word \<Rightarrow> 'a word \<Rightarrow> 'a word" where
  "sat_sub a b = (if b \<le> a then a - b else 0)"

definition sat_mul :: "'a::len word \<Rightarrow> 'a word \<Rightarrow> 'a word" where
  "sat_mul a b = (if unat a * unat b < 2 ^ LENGTH('a) then a * b else - 1)"

definition checked_add :: "'a::len word \<Rightarrow> 'a word \<Rightarrow> 'a word option" where
  "checked_add a b = (if a \<le> a + b then Some (a + b) else None)"

definition checked_sub :: "'a::len word \<Rightarrow> 'a word \<Rightarrow> 'a word option" where
  "checked_sub a b = (if b \<le> a then Some (a - b) else None)"

definition align_up :: "nat \<Rightarrow> nat \<Rightarrow> nat" where
  "align_up n a = (n + (a - 1)) div a * a"

subsection \<open>Lemmas: results\<close>

lemma and_then_ok [simp]: "and_then (ok x) f s = f x s"
  by (simp add: and_then_def ok_def)

lemma for_each_append:
  "for_each (is @ js) body s =
     (case for_each is body s of (Inl e, s') \<Rightarrow> (Inl e, s') | (Inr u, s') \<Rightarrow> for_each js body s')"
  by (induction "is" arbitrary: s) (auto split: sum.splits prod.splits)

lemma for_each_invariant:
  assumes "for_each is body s = (r, s')" and "P s"
    and "\<And>i s r s'. i \<in> set is \<Longrightarrow> P s \<Longrightarrow> body i s = (r, s') \<Longrightarrow> P s'"
  shows "P s'"
  using assms
proof (induction "is" arbitrary: s)
  case (Cons i "is")
  show ?case
  proof (cases "body i s")
    case (Pair r1 s1)
    then have "P s1" using Cons.prems by force
    show ?thesis
    proof (cases r1)
      case (Inl e)
      then show ?thesis using Cons.prems(1) Pair \<open>P s1\<close> by simp
    next
      case (Inr u)
      then have "for_each is body s1 = (r, s')" using Cons.prems(1) Pair by simp
      then show ?thesis using Cons.IH [OF _ \<open>P s1\<close>] Cons.prems(3) by (meson list.set_intros(2))
    qed
  qed
qed simp

subsection \<open>Lemmas: byte encodings\<close>

lemma length_to_le [simp]: "length (to_le n w) = n"
  by (induction n arbitrary: w) simp_all

lemma of_le_to_le:
  "of_le (to_le n w) = take_bit (8 * n) (w :: 'a::len word)"
proof (induction n arbitrary: w)
  case (Suc n)
  have "ucast (ucast w :: u8) OR push_bit 8 (take_bit (8 * n) (drop_bit 8 w)) = take_bit (8 * Suc n) w"
    by (rule bit_word_eqI)
      (auto simp: bit_simps not_less le_Suc_ex split: if_splits)
  with Suc show ?case by simp
qed simp

lemma of_le_to_le_full [simp]:
  "LENGTH('a) \<le> 8 * n \<Longrightarrow> of_le (to_le n w) = (w :: 'a::len word)"
  by (simp add: of_le_to_le take_bit_word_eq_self)

lemma to_le_of_le:
  "length bs = n \<Longrightarrow> 8 * n \<le> LENGTH('a) \<Longrightarrow> to_le n (of_le bs :: 'a::len word) = bs"
proof (induction bs arbitrary: n)
  case (Cons b bs)
  then obtain m where n: "n = Suc m" and len: "length bs = m" by auto
  have *: "8 * m + 8 \<le> LENGTH('a)" using Cons.prems n by simp
  have low: "ucast (ucast b OR push_bit 8 (of_le bs) :: 'a word) = b"
    using * by (intro bit_word_eqI) (auto simp: bit_simps)
  have "bit (of_le bs :: 'a word) k \<Longrightarrow> k < 8 * length bs" for k
  proof (induction bs arbitrary: k)
    case (Cons c cs)
    then show ?case
      using bit_imp_le_length [of c k]
      by (cases "k < 8") (auto simp: bit_simps not_less dest!: Cons.IH)
  qed simp
  then have high: "drop_bit 8 (ucast b OR push_bit 8 (of_le bs) :: 'a word) = of_le bs"
    using * len by (intro bit_word_eqI) (fastforce simp: bit_simps dest: bit_imp_le_length)
  show ?case using Cons.IH [OF len] * n low high by simp
qed simp

subsection \<open>Lemmas: slices\<close>

lemma write_at_eq: "off + length bs \<le> length xs \<Longrightarrow> write_at off bs xs = Some (patch off bs xs)"
  by (simp add: write_at_def patch_def)

lemma length_patch [simp]: "off + length bs \<le> length xs \<Longrightarrow> length (patch off bs xs) = length xs"
  by (simp add: patch_def)

lemma subslice_patch [simp]:
  "off + length bs \<le> length xs \<Longrightarrow> subslice off (length bs) (patch off bs xs) = bs"
  by (simp add: subslice_def patch_def)

lemma subslice_patch' [simp]:
  "off + length bs \<le> length xs \<Longrightarrow> n = length bs \<Longrightarrow> subslice off n (patch off bs xs) = bs"
  by simp

lemma nth_patch:
  "off + length bs \<le> length xs \<Longrightarrow> i < length xs \<Longrightarrow>
   patch off bs xs ! i = (if off \<le> i \<and> i < off + length bs then bs ! (i - off) else xs ! i)"
  by (auto simp: patch_def nth_append min_def)

lemma subslice_patch_other:
  assumes "off + length bs \<le> length xs" "o2 + n \<le> length xs" "o2 + n \<le> off \<or> off + length bs \<le> o2"
  shows "subslice o2 n (patch off bs xs) = subslice o2 n xs"
  using assms by (auto simp: subslice_def intro!: nth_equalityI simp: nth_patch)

lemma length_subslice [simp]: "off + n \<le> length xs \<Longrightarrow> length (subslice off n xs) = n"
  by (simp add: subslice_def)

subsection \<open>Lemmas: arithmetic\<close>

lemma align_up_bounds: "0 < a \<Longrightarrow> n \<le> align_up n a \<and> align_up n a < n + a"
proof -
  assume "0 < a"
  let ?q = "(n + (a - 1)) div a * a" and ?r = "(n + (a - 1)) mod a"
  have "?q + ?r = n + (a - 1)" and "?r < a" using \<open>0 < a\<close> by simp_all
  then show ?thesis unfolding align_up_def using \<open>0 < a\<close> by linarith
qed

lemmas align_up_ge = align_up_bounds [THEN conjunct1]
lemmas align_up_less = align_up_bounds [THEN conjunct2]

lemma align_up_dvd [simp]: "a dvd align_up n a"
  by (simp add: align_up_def)

lemma align_up_id: "0 < a \<Longrightarrow> a dvd n \<Longrightarrow> align_up n a = n"
proof -
  assume "0 < a" "a dvd n"
  then obtain k where "n = a * k" by (elim dvdE)
  moreover have "(a * k + (a - 1)) div a = k"
    using \<open>0 < a\<close> by (subst div_mult_self4) simp_all
  ultimately show ?thesis by (simp add: align_up_def)
qed

lemma unat_sat_add: "unat (sat_add a b :: 'a::len word) = min (unat a + unat b) (2 ^ LENGTH('a) - 1)"
proof (cases "a \<le> a + b")
  case True
  then have "unat (a + b) = unat a + unat b" using no_olen_add_nat [of a b] by (simp add: unat_word_ariths)
  moreover have "unat (a + b) < 2 ^ LENGTH('a)" by (rule unsigned_less)
  ultimately show ?thesis using True by (simp add: sat_add_def)
next
  case False
  then have "2 ^ LENGTH('a) \<le> unat a + unat b" using no_olen_add_nat [of a b] by simp
  then show ?thesis using False by (simp add: sat_add_def unsigned_minus_1_eq_mask mask_eq_exp_minus_1)
qed

lemma unat_sat_sub: "unat (sat_sub a b) = unat a - unat b"
  by (auto simp: sat_sub_def unat_sub word_le_nat_alt)

lemma checked_add_Some_iff:
  "checked_add a b = Some c \<longleftrightarrow> unat a + unat b < 2 ^ LENGTH('a) \<and> c = (a + b :: 'a::len word)"
  by (auto simp: checked_add_def no_olen_add_nat)

lemma checked_sub_Some_iff:
  "checked_sub a b = Some c \<longleftrightarrow> b \<le> a \<and> c = a - b"
  by (auto simp: checked_sub_def)

lemma bit_flag_iff:
  "(w AND push_bit n 1 \<noteq> 0) \<longleftrightarrow> bit w n" for w :: "'a::len word"
proof
  assume "w AND push_bit n 1 \<noteq> 0"
  then obtain m where "bit (w AND push_bit n 1) m" by (auto simp: bit_eq_iff)
  then show "bit w n" by (auto simp: bit_simps bit_1_iff)
next
  assume *: "bit w n"
  then have "n < LENGTH('a)" by (rule bit_imp_le_length)
  with * have "bit (w AND push_bit n 1) n" by (simp add: bit_simps bit_1_iff)
  then show "w AND push_bit n 1 \<noteq> 0" by (metis bit_0_eq bot_apply bot_bool_def)
qed

lemma drop_bit_flag_iff:
  "(drop_bit n w AND 1 \<noteq> 0) \<longleftrightarrow> bit w n" for w :: "'a::len word"
  by (simp add: and_one_eq bit_iff_odd_drop_bit odd_iff_mod_2_eq_one)

lemma unat_ucast_mod: "unat (ucast w :: 'b::len word) = unat w mod 2 ^ LENGTH('b)"
  by (simp add: unsigned_ucast_eq take_bit_nat_def)

lemma unat_of_nat_id: "n < 2 ^ LENGTH('a) \<Longrightarrow> unat (of_nat n :: 'a::len word) = n"
  by (simp add: unsigned_of_nat take_bit_nat_eq_self)

end
