(* ===== verification/Page_Alloc.thy ===== *)
theory Page_Alloc
  imports Bedrock_Prelude
begin

text \<open>
  The kernel-side page providers of \<open>crates/bedrock/page.rs\<close> and
  \<open>crates/bedrock/factory.rs\<close>: the pre-filled \<open>PagePool\<close> used while preemption is
  disabled and the \<open>KernelFrameAllocator\<close> that draws from the pool or from the Linux
  page allocator.  The Linux allocator is not part of the sources; its behaviour is
  the list of results of the successive \<open>Page::alloc_page\<close> calls, carried in the
  allocator's state.  The locale \<open>frame_allocator\<close> is the contract of the
  \<open>FrameAllocator\<close>/\<open>CowAllocator\<close> traits that the page-table and fork theories use.
\<close>

subsection \<open>Data\<close>

text \<open>A page is identified with its host physical address.\<close>

record page_pool =
  pages :: "u64 list"
  target :: nat

record kernel_frame_allocator =
  linux_pages :: "u64 option list"
  pool :: "page_pool option"

datatype kernel_alloc_error = KernelAllocError

text \<open>Addresses of 4 KiB frames: page aligned and within the 52 physical address bits.\<close>

definition frame_addr :: "u64 \<Rightarrow> bool" where
  "frame_addr f \<longleftrightarrow> f AND 0xFFF = 0 \<and> f < 0x10000000000000"

subsection \<open>Operations\<close>

fun alloc_zeroed_page :: "u64 option list \<Rightarrow> u64 option \<times> u64 option list" where
  "alloc_zeroed_page [] = (None, [])"
| "alloc_zeroed_page (r # rs) = (r, rs)"

definition page_pool_new :: "nat \<Rightarrow> page_pool" where
  "page_pool_new t = \<lparr>pages = [], target = t\<rparr>"

text \<open>\<open>push_ok n\<close> says whether growing the vector beyond \<open>n\<close> elements succeeds.\<close>

function refill_loop :: "(nat \<Rightarrow> bool) \<Rightarrow> page_pool \<Rightarrow> u64 option list \<Rightarrow> bool \<times> page_pool \<times> u64 option list" where
  "refill_loop push_ok p ls =
     (if length (pages p) < target p then
        (case alloc_zeroed_page ls of
           (None, ls') \<Rightarrow> (False, p, ls')
         | (Some f, ls') \<Rightarrow>
             if push_ok (length (pages p)) then refill_loop push_ok (p\<lparr>pages := pages p @ [f]\<rparr>) ls'
             else (False, p, ls'))
      else (True, p, ls))"
  by pat_completeness auto
termination
  by (relation "measure (\<lambda>(_, p, _). target p - length (pages p))") auto

definition page_pool_refill :: "(nat \<Rightarrow> bool) \<Rightarrow> page_pool \<Rightarrow> u64 option list \<Rightarrow> bool \<times> page_pool \<times> u64 option list" where
  "page_pool_refill push_ok p ls =
     (let threshold = target p div 20 in
      if threshold \<le> length (pages p) then (True, p, ls) else refill_loop push_ok p ls)"

definition page_pool_take :: "page_pool \<Rightarrow> u64 option \<times> page_pool" where
  "page_pool_take p =
     (if pages p = [] then (None, p) else (Some (last (pages p)), p\<lparr>pages := butlast (pages p)\<rparr>))"

definition kernel_frame_allocator_new :: "u64 option list \<Rightarrow> kernel_frame_allocator" where
  "kernel_frame_allocator_new ls = \<lparr>linux_pages = ls, pool = None\<rparr>"

definition kernel_frame_allocator_new_with_pool :: "u64 option list \<Rightarrow> page_pool \<Rightarrow> kernel_frame_allocator" where
  "kernel_frame_allocator_new_with_pool ls p = \<lparr>linux_pages = ls, pool = Some p\<rparr>"

definition allocate_frame :: "(kernel_frame_allocator, kernel_alloc_error, u64) fallible" where
  "allocate_frame a =
     (case pool a of
        Some p \<Rightarrow>
          (case page_pool_take p of
             (None, p') \<Rightarrow> (Inl KernelAllocError, a\<lparr>pool := Some p'\<rparr>)
           | (Some f, p') \<Rightarrow> (Inr f, a\<lparr>pool := Some p'\<rparr>))
      | None \<Rightarrow>
          (case alloc_zeroed_page (linux_pages a) of
             (None, ls) \<Rightarrow> (Inl KernelAllocError, a\<lparr>linux_pages := ls\<rparr>)
           | (Some f, ls) \<Rightarrow> (Inr f, a\<lparr>linux_pages := ls\<rparr>)))"

text \<open>\<open>CowAllocator::allocate_cow_page\<close> has the same body in the source.\<close>

definition allocate_cow_page :: "(kernel_frame_allocator, kernel_alloc_error, u64) fallible" where
  "allocate_cow_page a =
     (case pool a of
        Some p \<Rightarrow>
          (case page_pool_take p of
             (None, p') \<Rightarrow> (Inl KernelAllocError, a\<lparr>pool := Some p'\<rparr>)
           | (Some f, p') \<Rightarrow> (Inr f, a\<lparr>pool := Some p'\<rparr>))
      | None \<Rightarrow>
          (case alloc_zeroed_page (linux_pages a) of
             (None, ls) \<Rightarrow> (Inl KernelAllocError, a\<lparr>linux_pages := ls\<rparr>)
           | (Some f, ls) \<Rightarrow> (Inr f, a\<lparr>linux_pages := ls\<rparr>)))"

text \<open>The frames an allocator state may still hand out, and the state invariant: no
  frame is on offer twice and every frame is a frame address.\<close>

definition on_offer :: "kernel_frame_allocator \<Rightarrow> u64 list" where
  "on_offer a = (case pool a of Some p \<Rightarrow> pages p | None \<Rightarrow> []) @
     List.map_filter (\<lambda>r. r) (linux_pages a)"

definition avail :: "kernel_frame_allocator \<Rightarrow> u64 set" where
  "avail a = set (on_offer a)"

definition allocator_inv :: "kernel_frame_allocator \<Rightarrow> bool" where
  "allocator_inv a \<longleftrightarrow> distinct (on_offer a) \<and> list_all frame_addr (on_offer a)"

subsection \<open>The allocator contract\<close>

locale frame_allocator =
  fixes alloc :: "('a, 'e, u64) fallible"
    and ainv :: "'a \<Rightarrow> bool"
    and offered :: "'a \<Rightarrow> u64 set"
  assumes alloc_step: "ainv a \<Longrightarrow> alloc a = (r, a') \<Longrightarrow> ainv a' \<and> offered a' \<subseteq> offered a"
    and alloc_fresh: "ainv a \<Longrightarrow> alloc a = (Inr f, a') \<Longrightarrow> f \<in> offered a \<and> f \<notin> offered a'"
    and offered_frame: "ainv a \<Longrightarrow> f \<in> offered a \<Longrightarrow> frame_addr f"
begin

lemma alloc_okD:
  assumes "ainv a" "alloc a = (Inr f, a')"
  shows "ainv a'" "offered a' \<subseteq> offered a" "f \<in> offered a" "f \<notin> offered a'" "frame_addr f"
  using alloc_step [OF assms] alloc_fresh [OF assms] offered_frame [OF assms(1)] by auto

end

subsection \<open>The kernel allocator meets the contract\<close>

lemma page_pool_take_cases:
  obtains (empty) "pages p = []" "page_pool_take p = (None, p)"
  | (page) qs f where "pages p = qs @ [f]" "page_pool_take p = (Some f, p\<lparr>pages := qs\<rparr>)"
  by (cases "pages p" rule: rev_cases) (auto simp: page_pool_take_def)

lemma alloc_zeroed_page_on_offer:
  assumes "alloc_zeroed_page ls = (r, ls')"
  shows "List.map_filter (\<lambda>r. r) ls = (case r of None \<Rightarrow> [] | Some f \<Rightarrow> [f]) @ List.map_filter (\<lambda>r. r) ls'"
  using assms by (cases ls) (auto simp: map_filter_simps split: option.splits)

lemma allocate_frame_on_offer:
  assumes "allocate_frame a = (r, a')"
  shows "(\<exists>e. r = Inl e \<and> on_offer a' = on_offer a)
    \<or> (\<exists>f xs ys. r = Inr f \<and> on_offer a = xs @ f # ys \<and> on_offer a' = xs @ ys)"
proof (cases "pool a")
  case None
  obtain r' ls where *: "alloc_zeroed_page (linux_pages a) = (r', ls)" by force
  with None assms alloc_zeroed_page_on_offer [OF *] show ?thesis
    by (cases r') (fastforce simp: allocate_frame_def on_offer_def)+
next
  case (Some p)
  then show ?thesis
    by (cases p rule: page_pool_take_cases)
      (use assms in \<open>fastforce simp: allocate_frame_def on_offer_def\<close>)+
qed

interpretation kfa: frame_allocator allocate_frame allocator_inv avail
proof
  fix a r a' assume *: "allocator_inv a" "allocate_frame a = (r, a')"
  then show "allocator_inv a' \<and> avail a' \<subseteq> avail a"
    using allocate_frame_on_offer [OF *(2)] by (auto simp: allocator_inv_def avail_def)
next
  fix a f a' assume *: "allocator_inv a" "allocate_frame a = (Inr f, a')"
  then show "f \<in> avail a \<and> f \<notin> avail a'"
    using allocate_frame_on_offer [OF *(2)] by (auto simp: allocator_inv_def avail_def)
qed (auto simp: allocator_inv_def avail_def list_all_iff)

lemma allocate_cow_page_eq: "allocate_cow_page = allocate_frame"
  by (rule ext) (simp only: allocate_cow_page_def allocate_frame_def)

interpretation kca: frame_allocator allocate_cow_page allocator_inv avail
  unfolding allocate_cow_page_eq by (rule kfa.frame_allocator_axioms)

subsection \<open>Refilling the pool\<close>

lemma refill_loop_on_offer:
  "refill_loop push_ok p ls = (b, p', ls') \<Longrightarrow>
   \<exists>fs. pages p' = pages p @ fs \<and> target p' = target p \<and>
     (b \<longrightarrow> target p \<le> length (pages p')) \<and> length (pages p') \<le> max (length (pages p)) (target p) \<and>
     (\<exists>ds. List.map_filter (\<lambda>r. r) ls = fs @ ds @ List.map_filter (\<lambda>r. r) ls' \<and> length ds \<le> 1 \<and> (b \<longrightarrow> ds = []))"
proof (induction push_ok p ls rule: refill_loop.induct)
  case (1 push_ok p ls)
  show ?case
  proof (cases "length (pages p) < target p")
    case False
    then show ?thesis using "1.prems" by (auto simp: refill_loop.simps [of _ p])
  next
    case True
    obtain r ls1 where *: "alloc_zeroed_page ls = (r, ls1)" by force
    note split = alloc_zeroed_page_on_offer [OF *]
    show ?thesis
    proof (cases r)
      case None
      then show ?thesis using "1.prems" True * split by (auto simp: refill_loop.simps [of _ p])
    next
      case (Some f)
      show ?thesis
      proof (cases "push_ok (length (pages p))")
        case False
        then show ?thesis using "1.prems" True * split Some
          by (auto simp: refill_loop.simps [of _ p] intro!: exI [of _ "[f]"])
      next
        case push: True
        then have "refill_loop push_ok (p\<lparr>pages := pages p @ [f]\<rparr>) ls1 = (b, p', ls')"
          using "1.prems" True * Some by (simp add: refill_loop.simps [of _ p])
        from "1.IH" [OF True * [symmetric] Some push this] True split Some
        show ?thesis by fastforce
      qed
    qed
  qed
qed

end
