(* ===== verification/Ept_Laws.thy ===== *)
theory Ept_Laws
  imports Ept
begin

text \<open>
  The extended page tables as a map from guest page numbers.  A well-formed hierarchy
  is a tree: no table is reached by two paths and every table is one of the frames the
  page table owns.  Under that invariant \<open>map_4k\<close> and \<open>remap_4k\<close> are updates of the
  lookup function at one page, and \<open>clone_for_fork\<close> yields a disjoint hierarchy with the
  same translations and no write permission.
\<close>

subsection \<open>Paths\<close>

fun walk :: "table_mem \<Rightarrow> u64 \<Rightarrow> nat list \<Rightarrow> u64 option" where
  "walk m t [] = Some t"
| "walk m t (i # is) = (if is_present (m t i) then walk m (entry_addr (m t i)) is else None)"

definition leaf :: "table_mem \<Rightarrow> u64 \<Rightarrow> nat list \<Rightarrow> nat \<Rightarrow> (u64 \<times> ept_permissions) option" where
  "leaf m t is i =
     (case walk m t is of None \<Rightarrow> None
      | Some u \<Rightarrow> if is_present (m u i) then Some (entry_addr (m u i), entry_permissions (m u i)) else None)"

definition table_path :: "u64 \<Rightarrow> nat list" where
  "table_path gpa = [pml4_index gpa, pdpt_index gpa, pd_index gpa]"

lemma entry_addr_mask [simp]: "entry_addr e AND ADDR_MASK = entry_addr e"
  by (simp add: entry_addr_def and.assoc)

lemma length_table_path [simp]: "length (table_path gpa) = 3"
  by (simp add: table_path_def)

lemma ept_lookup_leaf:
  "ept_lookup m pt gpa = leaf m (pml4_phys pt) (table_path gpa) (pt_index gpa)"
  by (simp add: ept_lookup_def leaf_def table_path_def Let_def)

lemma set_entry_app: "set_entry t i e m u j = (if u = t \<and> j = i then e else m u j)"
  by (simp add: set_entry_def)

lemma zero_frame_app: "zero_frame f m u j = (if u = f then 0 else m u j)"
  by (simp add: zero_frame_def)

lemma walk_append:
  "walk m t (is @ js) = (case walk m t is of None \<Rightarrow> None | Some u \<Rightarrow> walk m u js)"
  by (induction "is" arbitrary: t) auto

lemma walk_snoc:
  "walk m t (is @ [i]) =
     (case walk m t is of None \<Rightarrow> None
      | Some u \<Rightarrow> if is_present (m u i) then Some (entry_addr (m u i)) else None)"
  by (simp add: walk_append split: option.splits)

lemma path_eq_iff:
  "table_path a = table_path b \<and> pt_index a = pt_index b \<longleftrightarrow> page_number a = page_number b"
  by (auto simp: table_path_def page_number_eq_iff)

text \<open>The paths of a four-level hierarchy that lead to tables.\<close>

definition table_paths :: "nat list set" where
  "table_paths = {is. length is \<le> 3 \<and> set is \<subseteq> {..<512}}"

lemma table_path_in [simp]: "table_path gpa \<in> table_paths"
  "[pml4_index gpa, pdpt_index gpa] \<in> table_paths" "[pml4_index gpa] \<in> table_paths" "[] \<in> table_paths"
  by (auto simp: table_paths_def table_path_def index_less)

lemma table_paths_prefix: "is @ js \<in> table_paths \<Longrightarrow> is \<in> table_paths"
  by (auto simp: table_paths_def)

definition tree_at :: "table_mem \<Rightarrow> u64 \<Rightarrow> u64 set \<Rightarrow> bool" where
  "tree_at m r F \<longleftrightarrow>
     (\<forall>is \<in> table_paths. \<forall>u. walk m r is = Some u \<longrightarrow> u \<in> F \<and> frame_addr u) \<and>
     (\<forall>is \<in> table_paths. \<forall>js \<in> table_paths. \<forall>u. walk m r is = Some u \<longrightarrow> walk m r js = Some u \<longrightarrow> is = js)"

definition ept_wf :: "table_mem \<Rightarrow> ept_page_table \<Rightarrow> bool" where
  "ept_wf m pt \<longleftrightarrow> tree_at m (pml4_phys pt) (set (frames pt))"

lemma tree_atD:
  assumes "tree_at m r F"
  shows "is \<in> table_paths \<Longrightarrow> walk m r is = Some u \<Longrightarrow> u \<in> F"
    "is \<in> table_paths \<Longrightarrow> walk m r is = Some u \<Longrightarrow> frame_addr u"
    "is \<in> table_paths \<Longrightarrow> js \<in> table_paths \<Longrightarrow> walk m r is = Some u \<Longrightarrow> walk m r js = Some u \<Longrightarrow> is = js"
  using assms unfolding tree_at_def by blast+

text \<open>Memory outside the tree does not matter.\<close>

lemma walk_cong:
  assumes "tree_at m r F" "is \<in> table_paths" "\<And>u. u \<in> F \<Longrightarrow> m' u = m u"
  shows "walk m' r is = walk m r is"
  using assms(2)
proof (induction "is" rule: rev_induct)
  case (snoc i "is")
  then have "walk m' r is = walk m r is" using table_paths_prefix by blast
  moreover have "is \<in> table_paths" using snoc.prems table_paths_prefix by blast
  ultimately show ?case
    using tree_atD(1) [OF assms(1), of "is"] assms(3) by (auto simp: walk_snoc split: option.splits)
qed simp

lemma leaf_cong:
  assumes "tree_at m r F" "is \<in> table_paths" "\<And>u. u \<in> F \<Longrightarrow> m' u = m u"
  shows "leaf m' r is i = leaf m r is i"
  using walk_cong [OF assms] tree_atD(1) [OF assms(1,2)] assms(3)
  by (auto simp: leaf_def split: option.splits)

lemma tree_at_cong:
  assumes "tree_at m r F" "\<And>u. u \<in> F \<Longrightarrow> m' u = m u"
  shows "tree_at m' r F"
  using assms walk_cong [OF assms(1) _ assms(2)] unfolding tree_at_def by simp

lemma tree_at_mono: "tree_at m r F \<Longrightarrow> F \<subseteq> G \<Longrightarrow> tree_at m r G"
  unfolding tree_at_def by blast

subsection \<open>Adding a table\<close>

lemma walk_new_table:
  assumes tree: "tree_at m r F" and f: "f \<notin> F" "frame_addr f" and p: "valid_perms p"
    and path: "ps @ [i] \<in> table_paths" "walk m r ps = Some t" "\<not> is_present (m t i)"
    and qs: "qs \<in> table_paths"
  shows "walk (set_entry t i (table_entry f p) (zero_frame f m)) r qs =
    (if qs = ps @ [i] then Some f else walk m r qs)"
  using qs
proof (induction qs rule: rev_induct)
  case Nil
  show ?case by simp
next
  case (snoc j qs)
  let ?m' = "set_entry t i (table_entry f p) (zero_frame f m)"
  have ps: "ps \<in> table_paths" using path(1) table_paths_prefix by blast
  have qs: "qs \<in> table_paths" using snoc.prems table_paths_prefix by blast
  have t: "t \<noteq> f" using tree_atD(1) [OF tree ps path(2)] f(1) by blast
  have none: "walk m r (ps @ [i]) = None" using path by (simp add: walk_snoc)
  show ?case
  proof (cases "qs = ps @ [i]")
    case True
    have "walk m r (qs @ [j]) = None" using True none by (simp add: walk_append [of _ _ "ps @ [i]" "[j]", simplified])
    moreover have "?m' f j = 0" using t by (simp add: set_entry_app zero_frame_app)
    moreover have "walk ?m' r qs = Some f" using snoc.IH [OF qs] True by simp
    ultimately have "walk ?m' r (qs @ [j]) = None" by (simp only: walk_snoc) simp
    then show ?thesis using \<open>walk m r (qs @ [j]) = None\<close> True by simp
  next
    case False
    then have IH: "walk ?m' r qs = walk m r qs" using snoc.IH [OF qs] by simp
    show ?thesis
    proof (cases "walk m r qs")
      case None
      then have "qs \<noteq> ps" using path by auto
      then show ?thesis using None IH by (simp add: walk_snoc)
    next
      case (Some u)
      then have u: "u \<noteq> f" "u = t \<Longrightarrow> qs = ps"
        using tree_atD(1) [OF tree qs Some] f(1) tree_atD(3) [OF tree qs ps Some] path(2) by auto
      have "?m' u j = (if u = t \<and> j = i then table_entry f p else m u j)"
        using u(1) by (simp add: set_entry_app zero_frame_app)
      then show ?thesis using Some IH u path p f t by (auto simp: walk_snoc)
    qed
  qed
qed

lemma leaf_new_table:
  assumes tree: "tree_at m r F" and f: "f \<notin> F" "frame_addr f" and p: "valid_perms p"
    and path: "ps @ [i] \<in> table_paths" "walk m r ps = Some t" "\<not> is_present (m t i)"
    and qs: "qs \<in> table_paths" "length qs = 3"
  shows "leaf (set_entry t i (table_entry f p) (zero_frame f m)) r qs j = leaf m r qs j"
proof -
  let ?m' = "set_entry t i (table_entry f p) (zero_frame f m)"
  have ps: "ps \<in> table_paths" "length ps < 3" using path(1) by (auto simp: table_paths_def)
  have t: "t \<noteq> f" using tree_atD(1) [OF tree ps(1) path(2)] f(1) by blast
  have none: "walk m r (ps @ [i]) = None" using path by (simp add: walk_snoc)
  note w = walk_new_table [OF tree f p path qs(1)]
  show ?thesis
  proof (cases "walk m r qs")
    case None
    then show ?thesis using w t by (auto simp: leaf_def set_entry_app zero_frame_app)
  next
    case (Some u)
    then have "u \<noteq> f" "u \<noteq> t" "qs \<noteq> ps @ [i]"
      using tree_atD(1) [OF tree qs(1) Some] f(1) tree_atD(3) [OF tree qs(1) ps(1) Some] path(2) ps(2) qs(2) none
      by auto
    then show ?thesis using w Some by (simp add: leaf_def set_entry_app zero_frame_app)
  qed
qed

lemma tree_new_table:
  assumes tree: "tree_at m r F" and f: "f \<notin> F" "frame_addr f" and p: "valid_perms p"
    and path: "ps @ [i] \<in> table_paths" "walk m r ps = Some t" "\<not> is_present (m t i)"
  shows "tree_at (set_entry t i (table_entry f p) (zero_frame f m)) r (insert f F)"
  unfolding tree_at_def using walk_new_table [OF assms] tree_atD [OF tree] f
  by (auto split: if_splits)

subsection \<open>Writing a leaf\<close>

lemma walk_set_leaf:
  assumes tree: "tree_at m r F" and path: "ps \<in> table_paths" "length ps = 3" "walk m r ps = Some t"
    and qs: "qs \<in> table_paths"
  shows "walk (set_entry t i e m) r qs = walk m r qs"
  using qs
proof (induction qs rule: rev_induct)
  case (snoc j qs)
  then have qs: "qs \<in> table_paths" "length qs < 3" using table_paths_prefix by (auto simp: table_paths_def)
  have "u \<noteq> t" if "walk m r qs = Some u" for u
    using tree_atD(3) [OF tree qs(1) path(1) that] path qs by auto
  then show ?case using snoc.IH [OF qs(1)] by (auto simp: walk_snoc set_entry_app split: option.splits)
qed simp

lemma tree_set_leaf:
  assumes tree: "tree_at m r F" and path: "ps \<in> table_paths" "length ps = 3" "walk m r ps = Some t"
  shows "tree_at (set_entry t i e m) r F"
  using tree walk_set_leaf [OF assms] unfolding tree_at_def by simp

lemma leaf_set_leaf:
  assumes tree: "tree_at m r F" and path: "ps \<in> table_paths" "length ps = 3" "walk m r ps = Some t"
    and qs: "qs \<in> table_paths" and p: "valid_perms p"
  shows "leaf (set_entry t i (page_entry_4k h p mt) m) r qs j =
    (if qs = ps \<and> j = i then Some (h AND ADDR_MASK, p) else leaf m r qs j)"
proof (cases "walk m r qs")
  case None
  then show ?thesis using walk_set_leaf [OF tree path qs] path(3) by (auto simp: leaf_def)
next
  case (Some u)
  then have "u = t \<longleftrightarrow> qs = ps" using tree_atD(3) [OF tree qs path(1) Some] path(3) by auto
  then show ?thesis using walk_set_leaf [OF tree path qs] Some p by (auto simp: leaf_def set_entry_app)
qed

subsection \<open>The operations as updates of the address map\<close>

text \<open>The invariant of an \<open>ept_state\<close>: the hierarchy is a tree over the owned frames, none
  of which the allocator can hand out again.\<close>

definition ept_inv :: "('a \<Rightarrow> bool) \<Rightarrow> ('a \<Rightarrow> u64 set) \<Rightarrow> 'a ept_state \<Rightarrow> bool" where
  "ept_inv ainv offered s \<longleftrightarrow> ainv (allocator s) \<and> ept_wf (tmem s) (ept s) \<and>
     set (frames (ept s)) \<inter> offered (allocator s) = {}"

context frame_allocator
begin

lemma ensure_table_spec:
  assumes inv: "ept_inv ainv offered s" and p: "valid_perms p"
    and path: "ps @ [i] \<in> table_paths" "walk (tmem s) (pml4_phys (ept s)) ps = Some t"
    and run: "ensure_table alloc t i p s = (r, s')"
  shows "ept_inv ainv offered s'" "pml4_phys (ept s') = pml4_phys (ept s)"
    "set (frames (ept s)) \<subseteq> set (frames (ept s'))"
    "offered (allocator s') \<subseteq> offered (allocator s)"
    "\<And>u. u \<notin> set (frames (ept s)) \<Longrightarrow> u \<notin> offered (allocator s) \<Longrightarrow> tmem s' u = tmem s u"
    "\<And>qs j. qs \<in> table_paths \<Longrightarrow> length qs = 3 \<Longrightarrow>
       leaf (tmem s') (pml4_phys (ept s)) qs j = leaf (tmem s) (pml4_phys (ept s)) qs j"
    "\<And>u. r = Inr u \<Longrightarrow> walk (tmem s') (pml4_phys (ept s)) (ps @ [i]) = Some u"
    "\<And>qs u. qs \<in> table_paths \<Longrightarrow> walk (tmem s) (pml4_phys (ept s)) qs = Some u \<Longrightarrow>
       walk (tmem s') (pml4_phys (ept s)) qs = Some u"
proof -
  let ?r = "pml4_phys (ept s)" and ?F = "set (frames (ept s))"
  have tree: "tree_at (tmem s) ?r ?F" and a: "ainv (allocator s)" "?F \<inter> offered (allocator s) = {}"
    using inv by (simp_all add: ept_inv_def ept_wf_def)
  have t: "t \<in> ?F" using tree_atD(1) [OF tree _ path(2)] path(1) table_paths_prefix by blast
  have "ept_inv ainv offered s' \<and> pml4_phys (ept s') = ?r \<and> ?F \<subseteq> set (frames (ept s')) \<and>
    offered (allocator s') \<subseteq> offered (allocator s) \<and>
    (\<forall>u. u \<notin> ?F \<longrightarrow> u \<notin> offered (allocator s) \<longrightarrow> tmem s' u = tmem s u) \<and>
    (\<forall>qs \<in> table_paths. length qs = 3 \<longrightarrow> (\<forall>j. leaf (tmem s') ?r qs j = leaf (tmem s) ?r qs j)) \<and>
    (\<forall>u. r = Inr u \<longrightarrow> walk (tmem s') ?r (ps @ [i]) = Some u) \<and>
    (\<forall>qs \<in> table_paths. \<forall>u. walk (tmem s) ?r qs = Some u \<longrightarrow> walk (tmem s') ?r qs = Some u)"
  proof (cases "is_present (tmem s t i)")
    case True
    then have "s' = s \<and> r = Inr (entry_addr (tmem s t i))" using run by (auto simp: ensure_table_def)
    then show ?thesis using inv path True by (simp add: walk_snoc)
  next
    case absent: False
    obtain r1 a1 where al: "alloc (allocator s) = (r1, a1)" by force
    show ?thesis
    proof (cases r1)
      case (Inl e)
      then have "s' = s\<lparr>allocator := a1\<rparr>" "r = Inl e"
        using run absent al by (simp_all add: ensure_table_def alloc_in_def)
      then show ?thesis using inv alloc_step [OF a(1) al] by (auto simp: ept_inv_def)
    next
      case (Inr f)
      note f = alloc_okD [OF a(1) al [unfolded Inr]]
      have fresh: "f \<notin> ?F" using f(3) a(2) by blast
      note new = tree fresh f(5) p path absent
      have s': "s' = s\<lparr>allocator := a1, tmem := set_entry t i (table_entry f p) (zero_frame f (tmem s)),
                   ept := (ept s)\<lparr>frames := frames (ept s) @ [f]\<rparr>\<rparr>" and r: "r = Inr f"
        using run absent al Inr by (simp_all add: ensure_table_def alloc_in_def)
      have "walk (tmem s) ?r (ps @ [i]) = None" using path(2) absent by (simp add: walk_snoc)
      then show ?thesis
        using s' r tree_new_table [OF new] walk_new_table [OF new] leaf_new_table [OF new] path(1) f a(2) t
        by (auto simp: ept_inv_def ept_wf_def set_entry_app zero_frame_app)
    qed
  qed
  then show "ept_inv ainv offered s'" "pml4_phys (ept s') = pml4_phys (ept s)"
    "set (frames (ept s)) \<subseteq> set (frames (ept s'))"
    "offered (allocator s') \<subseteq> offered (allocator s)"
    "\<And>u. u \<notin> set (frames (ept s)) \<Longrightarrow> u \<notin> offered (allocator s) \<Longrightarrow> tmem s' u = tmem s u"
    "\<And>qs j. qs \<in> table_paths \<Longrightarrow> length qs = 3 \<Longrightarrow>
       leaf (tmem s') (pml4_phys (ept s)) qs j = leaf (tmem s) (pml4_phys (ept s)) qs j"
    "\<And>u. r = Inr u \<Longrightarrow> walk (tmem s') (pml4_phys (ept s)) (ps @ [i]) = Some u"
    "\<And>qs u. qs \<in> table_paths \<Longrightarrow> walk (tmem s) (pml4_phys (ept s)) qs = Some u \<Longrightarrow>
       walk (tmem s') (pml4_phys (ept s)) qs = Some u"
    by blast+
qed

text \<open>\<open>s'\<close> denotes the same address map as \<open>s\<close>, with more tables allocated.\<close>

definition same_map :: "'a ept_state \<Rightarrow> 'a ept_state \<Rightarrow> bool" where
  "same_map s s' \<longleftrightarrow> ept_inv ainv offered s' \<and> pml4_phys (ept s') = pml4_phys (ept s) \<and>
     offered (allocator s') \<subseteq> offered (allocator s) \<and>
     (\<forall>qs \<in> table_paths. length qs = 3 \<longrightarrow>
        (\<forall>j. leaf (tmem s') (pml4_phys (ept s)) qs j = leaf (tmem s) (pml4_phys (ept s)) qs j))"

lemma same_map_lookup: "same_map s s' \<Longrightarrow> ept_lookup (tmem s') (ept s') g = ept_lookup (tmem s) (ept s) g"
  by (simp add: same_map_def ept_lookup_leaf)

lemma ensure_table_same:
  assumes "same_map s0 s" "valid_perms p" "ps @ [i] \<in> table_paths"
    and "walk (tmem s) (pml4_phys (ept s0)) ps = Some t"
    and run: "ensure_table alloc t i p s = (r, s')"
  shows "same_map s0 s'" "r = Inr u \<Longrightarrow> walk (tmem s') (pml4_phys (ept s0)) (ps @ [i]) = Some u"
proof -
  have *: "ept_inv ainv offered s" "walk (tmem s) (pml4_phys (ept s)) ps = Some t"
    using assms by (simp_all add: same_map_def)
  note t = ensure_table_spec [OF *(1) assms(2,3) *(2) run]
  show "same_map s0 s'" using assms(1) t(1,2,4,6) unfolding same_map_def by auto
  show "r = Inr u \<Longrightarrow> walk (tmem s') (pml4_phys (ept s0)) (ps @ [i]) = Some u"
    using t(7) assms(1) by (simp add: same_map_def)
qed

lemma map_4k_cases:
  assumes inv: "ept_inv ainv offered s" and p: "valid_perms p"
    and run: "map_4k alloc gpa hpa p mt s = (r, s')"
  obtains (err) e where "r = Inl e" "same_map s s'"
  | (ok) s3 pt where "r = Inr ()" "same_map s s3" "walk (tmem s3) (pml4_phys (ept s)) (table_path gpa) = Some pt"
      "s' = s3\<lparr>tmem := set_entry pt (pt_index gpa) (page_entry_4k hpa p mt) (tmem s3)\<rparr>"
proof -
  let ?r = "pml4_phys (ept s)"
  have s0: "same_map s s" using inv by (simp add: same_map_def)
  obtain r1 s1 where e1: "ensure_table alloc ?r (pml4_index gpa) p s = (r1, s1)" by force
  note t1 = ensure_table_same [OF s0 p, of "[]" "pml4_index gpa", unfolded append_Nil, OF table_path_in(3) walk.simps(1) e1]
  show thesis
  proof (cases r1)
    case (Inl e)
    with run e1 have "r = Inl e" "s' = s1" by (auto simp: map_4k_def and_then_def)
    with err t1(1) show thesis by blast
  next
    case (Inr pdpt)
    obtain r2 s2 where e2: "ensure_table alloc pdpt (pdpt_index gpa) p s1 = (r2, s2)" by force
    note t2 = ensure_table_same [OF t1(1) p, of "[pml4_index gpa]" "pdpt_index gpa", unfolded append.simps,
        OF table_path_in(2) t1(2) [OF Inr] e2]
    show thesis
    proof (cases r2)
      case (Inl e)
      with run e1 e2 Inr have "r = Inl e" "s' = s2" by (auto simp: map_4k_def and_then_def)
      with err t2(1) show thesis by blast
    next
      case pd: (Inr pd)
      obtain r3 s3 where e3: "ensure_table alloc pd (pd_index gpa) p s2 = (r3, s3)" by force
      note t3 = ensure_table_same [OF t2(1) p, of "[pml4_index gpa, pdpt_index gpa]" "pd_index gpa", unfolded append.simps,
          OF table_path_in(1) [of gpa, unfolded table_path_def] t2(2) [OF pd] e3, folded table_path_def]
      show thesis
      proof (cases r3)
        case (Inl e)
        with run e1 e2 e3 Inr pd have "r = Inl e" "s' = s3" by (auto simp: map_4k_def and_then_def)
        with err t3(1) show thesis by blast
      next
        case pt: (Inr pt)
        with run e1 e2 e3 Inr pd
        have "r = Inr ()" "s' = s3\<lparr>tmem := set_entry pt (pt_index gpa) (page_entry_4k hpa p mt) (tmem s3)\<rparr>"
          by (auto simp: map_4k_def and_then_def)
        with ok t3(1) t3(2) [OF pt] show thesis by blast
      qed
    qed
  qed
qed

lemma map_4k_spec:
  assumes inv: "ept_inv ainv offered s" and p: "valid_perms p"
    and run: "map_4k alloc gpa hpa p mt s = (r, s')"
  shows "ept_inv ainv offered s'" "offered (allocator s') \<subseteq> offered (allocator s)"
    and "ept_lookup (tmem s') (ept s') g =
      (if r = Inr () \<and> page_number g = page_number gpa then Some (hpa AND ADDR_MASK, p)
       else ept_lookup (tmem s) (ept s) g)"
proof -
  have "ept_inv ainv offered s' \<and> offered (allocator s') \<subseteq> offered (allocator s) \<and>
    ept_lookup (tmem s') (ept s') g =
      (if r = Inr () \<and> page_number g = page_number gpa then Some (hpa AND ADDR_MASK, p)
       else ept_lookup (tmem s) (ept s) g)"
    using assms
  proof (cases rule: map_4k_cases)
    case (err e)
    then show ?thesis using same_map_lookup by (simp add: same_map_def)
  next
    case (ok s3 pt)
    let ?r = "pml4_phys (ept s)"
    have tree: "tree_at (tmem s3) ?r (set (frames (ept s3)))"
      using ok(2) by (auto simp: same_map_def ept_inv_def ept_wf_def)
    note leaf_set_leaf [OF tree table_path_in(1) length_table_path ok(3) table_path_in(1) [of g] p]
      and tree_set_leaf [OF tree table_path_in(1) length_table_path ok(3)]
    then show ?thesis
      using ok same_map_lookup [OF ok(2), of g] path_eq_iff [of g gpa]
      by (auto simp: ept_lookup_leaf same_map_def ept_inv_def ept_wf_def)
  qed
  then show "ept_inv ainv offered s'" "offered (allocator s') \<subseteq> offered (allocator s)"
    "ept_lookup (tmem s') (ept s') g =
      (if r = Inr () \<and> page_number g = page_number gpa then Some (hpa AND ADDR_MASK, p)
       else ept_lookup (tmem s) (ept s) g)" by blast+
qed

end

lemma remap_4k_walk:
  "remap_4k pt gpa hpa p mt m =
     (case walk m (pml4_phys pt) (table_path gpa) of
        None \<Rightarrow> (Inl NotMapped, m)
      | Some t \<Rightarrow>
          if is_present (m t (pt_index gpa))
          then (Inr (), set_entry t (pt_index gpa) (page_entry_4k hpa p mt) m) else (Inl NotMapped, m))"
  by (simp add: remap_4k_def table_path_def Let_def)

lemma remap_4k_spec:
  assumes wf: "ept_wf m pt" and p: "valid_perms p" and run: "remap_4k pt gpa hpa p mt m = (r, m')"
  shows "ept_wf m' pt"
    and "r = (if ept_lookup m pt gpa = None then Inl NotMapped else Inr ())"
    and "ept_lookup m' pt g =
      (if r = Inr () \<and> page_number g = page_number gpa then Some (hpa AND ADDR_MASK, p) else ept_lookup m pt g)"
    and "u \<notin> set (frames pt) \<Longrightarrow> m' u = m u"
proof -
  let ?r = "pml4_phys pt"
  have tree: "tree_at m ?r (set (frames pt))" using wf by (simp add: ept_wf_def)
  have "(ept_lookup m pt gpa = None \<and> r = Inl NotMapped \<and> m' = m) \<or>
    (\<exists>t. ept_lookup m pt gpa \<noteq> None \<and> walk m ?r (table_path gpa) = Some t \<and>
      m' = set_entry t (pt_index gpa) (page_entry_4k hpa p mt) m \<and> r = Inr ())"
    using run unfolding remap_4k_walk ept_lookup_leaf leaf_def
    by (cases "walk m ?r (table_path gpa)") (auto split: if_splits)
  then consider (none) "ept_lookup m pt gpa = None" "r = Inl NotMapped" "m' = m"
    | (some) t where "ept_lookup m pt gpa \<noteq> None" "walk m ?r (table_path gpa) = Some t"
        "m' = set_entry t (pt_index gpa) (page_entry_4k hpa p mt) m" "r = Inr ()"
    by (elim disjE exE conjE) metis+
  then have "ept_wf m' pt \<and> r = (if ept_lookup m pt gpa = None then Inl NotMapped else Inr ()) \<and>
    ept_lookup m' pt g =
      (if r = Inr () \<and> page_number g = page_number gpa then Some (hpa AND ADDR_MASK, p) else ept_lookup m pt g) \<and>
    (u \<notin> set (frames pt) \<longrightarrow> m' u = m u)"
  proof cases
    case none
    then show ?thesis using wf by simp
  next
    case (some t)
    have "t \<in> set (frames pt)" using tree_atD(1) [OF tree table_path_in(1) some(2)] .
    then have "u \<notin> set (frames pt) \<longrightarrow> m' u = m u" by (auto simp: some(3) set_entry_def)
    moreover have "ept_wf m' pt"
      using tree_set_leaf [OF tree table_path_in(1) length_table_path some(2)] by (simp add: some(3) ept_wf_def)
    moreover have "ept_lookup m' pt g =
        (if page_number g = page_number gpa then Some (hpa AND ADDR_MASK, p) else ept_lookup m pt g)"
      unfolding ept_lookup_leaf some(3) path_eq_iff [symmetric]
      by (rule leaf_set_leaf [OF tree table_path_in(1) length_table_path some(2) table_path_in(1) p])
    ultimately show ?thesis using some(1,4) by simp
  qed
  then show "ept_wf m' pt" "r = (if ept_lookup m pt gpa = None then Inl NotMapped else Inr ())"
    "ept_lookup m' pt g =
      (if r = Inr () \<and> page_number g = page_number gpa then Some (hpa AND ADDR_MASK, p) else ept_lookup m pt g)"
    "u \<notin> set (frames pt) \<Longrightarrow> m' u = m u"
    by blast+
qed

subsection \<open>Cloning a hierarchy\<close>

text \<open>\<open>cloned n m m0 src dst R\<close>: below \<open>dst\<close> memory \<open>m\<close> holds an \<open>n\<close>-level tree over the
  tables in \<open>R\<close> whose leaves are those below \<open>src\<close> in \<open>m0\<close>, made read/execute.\<close>

definition level_paths :: "nat \<Rightarrow> nat list set" where
  "level_paths n = {is. length is \<le> n \<and> set is \<subseteq> {..<512}}"

lemma level_paths_3: "level_paths 3 = table_paths"
  by (simp add: level_paths_def table_paths_def)

lemma Cons_level_paths [simp]: "k # is \<in> level_paths (Suc n) \<longleftrightarrow> k < 512 \<and> is \<in> level_paths n"
  by (auto simp: level_paths_def)

definition cow_view :: "(u64 \<times> ept_permissions) option \<Rightarrow> (u64 \<times> ept_permissions) option" where
  "cow_view = map_option (\<lambda>(h, _). (h, READ_EXECUTE))"

lemma cow_view_simps [simp]: "cow_view None = None" "cow_view (Some (h, p)) = Some (h, READ_EXECUTE)"
  by (simp_all add: cow_view_def)

definition cloned :: "nat \<Rightarrow> table_mem \<Rightarrow> table_mem \<Rightarrow> u64 \<Rightarrow> u64 \<Rightarrow> u64 set \<Rightarrow> bool" where
  "cloned n m m0 src dst R \<longleftrightarrow>
     (\<forall>is \<in> level_paths n. \<forall>u. walk m dst is = Some u \<longrightarrow> u \<in> R \<and> frame_addr u) \<and>
     (\<forall>is \<in> level_paths n. \<forall>js \<in> level_paths n. \<forall>u.
        walk m dst is = Some u \<longrightarrow> walk m dst js = Some u \<longrightarrow> is = js) \<and>
     (\<forall>is \<in> level_paths n. length is = n \<longrightarrow> (\<forall>i < 512. leaf m dst is i = cow_view (leaf m0 src is i)))"

lemma clonedD:
  assumes "cloned n m m0 src dst R"
  shows "is \<in> level_paths n \<Longrightarrow> walk m dst is = Some u \<Longrightarrow> u \<in> R \<and> frame_addr u"
    "is \<in> level_paths n \<Longrightarrow> js \<in> level_paths n \<Longrightarrow> walk m dst is = Some u \<Longrightarrow> walk m dst js = Some u \<Longrightarrow> is = js"
    "is \<in> level_paths n \<Longrightarrow> length is = n \<Longrightarrow> i < 512 \<Longrightarrow> leaf m dst is i = cow_view (leaf m0 src is i)"
  using assms unfolding cloned_def by blast+

lemma level_walk_cong:
  assumes "\<And>is u. is \<in> level_paths n \<Longrightarrow> walk m r is = Some u \<Longrightarrow> m' u = m u" "is \<in> level_paths n"
  shows "walk m' r is = walk m r is"
  using assms(2)
proof (induction "is" rule: rev_induct)
  case (snoc i "is")
  then have *: "is \<in> level_paths n" by (auto simp: level_paths_def)
  show ?case using snoc.IH [OF *] assms(1) [OF *] by (auto simp: walk_snoc split: option.splits)
qed simp

lemma level_leaf_cong:
  assumes "\<And>is u. is \<in> level_paths n \<Longrightarrow> walk m r is = Some u \<Longrightarrow> m' u = m u" "is \<in> level_paths n"
  shows "leaf m' r is i = leaf m r is i"
  using level_walk_cong [OF assms] assms(1) [OF assms(2)] by (auto simp: leaf_def split: option.splits)

lemma cloned_cong:
  assumes c: "cloned n m m0 src dst R" and eq: "\<And>u. u \<in> R \<Longrightarrow> m' u = m u"
  shows "cloned n m' m0 src dst R"
proof -
  have same: "\<And>is u. is \<in> level_paths n \<Longrightarrow> walk m dst is = Some u \<Longrightarrow> m' u = m u"
    using clonedD(1) [OF c] eq by blast
  have w: "walk m' dst is = walk m dst is" and l: "leaf m' dst is i = leaf m dst is i"
    if "is \<in> level_paths n" for "is" i
    using level_walk_cong [OF same that] level_leaf_cong [OF same that] by simp_all
  show ?thesis unfolding cloned_def
  proof (intro conjI ballI allI impI)
    fix "is" u assume "is \<in> level_paths n" "walk m' dst is = Some u"
    then show "u \<in> R" "frame_addr u" using clonedD(1) [OF c, of "is" u] w [of "is"] by auto
  next
    fix "is" js u assume "is \<in> level_paths n" "js \<in> level_paths n" "walk m' dst is = Some u" "walk m' dst js = Some u"
    then show "is = js" using clonedD(2) [OF c, of "is" js u] w [of "is"] w [of js] by auto
  next
    fix "is" i assume "is \<in> level_paths n" "length is = n" "i < (512 :: nat)"
    then show "leaf m' dst is i = cow_view (leaf m0 src is i)"
      using clonedD(3) [OF c, of "is" i] l [of "is" i] by simp
  qed
qed

lemma leaf_Cons:
  "leaf m t (k # is) i = (if is_present (m t k) then leaf m (entry_addr (m t k)) is i else None)"
  by (simp add: leaf_def)

text \<open>A table whose present entries lead to disjoint clones is itself a clone.\<close>

lemma cloned_Suc:
  assumes dst: "dst \<in> R" "frame_addr dst"
    and absent: "\<And>k. k < 512 \<Longrightarrow> \<not> is_present (m0 src k) \<Longrightarrow> \<not> is_present (m dst k)"
    and child: "\<And>k. k < 512 \<Longrightarrow> is_present (m0 src k) \<Longrightarrow>
      is_present (m dst k) \<and> cloned n m m0 (entry_addr (m0 src k)) (entry_addr (m dst k)) (Q k) \<and> Q k \<subseteq> R \<and> dst \<notin> Q k"
    and disj: "\<And>k l. k < 512 \<Longrightarrow> l < 512 \<Longrightarrow> is_present (m0 src k) \<Longrightarrow> is_present (m0 src l) \<Longrightarrow> k \<noteq> l \<Longrightarrow> Q k \<inter> Q l = {}"
  shows "cloned (Suc n) m m0 src dst R"
proof -
  have step: "is_present (m0 src k) \<and> is \<in> level_paths n \<and> walk m (entry_addr (m dst k)) is = Some u \<and> u \<in> Q k \<and> frame_addr u \<and> u \<noteq> dst \<and> u \<in> R \<and> k < 512"
    if "k # is \<in> level_paths (Suc n)" "walk m dst (k # is) = Some u" for k "is" u
  proof -
    have k: "k < 512" "is \<in> level_paths n" and p: "is_present (m dst k)"
      and w: "walk m (entry_addr (m dst k)) is = Some u"
      using that by (simp_all split: if_splits)
    have p0: "is_present (m0 src k)" using absent [OF k(1)] p by blast
    note c = child [OF k(1) p0]
    show ?thesis using k p0 w c clonedD(1) [OF c [THEN conjunct2, THEN conjunct1] k(2) w] by blast
  qed
  have "u \<in> R \<and> frame_addr u" if "is \<in> level_paths (Suc n)" "walk m dst is = Some u" for "is" u
  proof (cases "is")
    case Nil
    then show ?thesis using that dst by simp
  next
    case (Cons k ks)
    then show ?thesis using step [of k ks u] that by blast
  qed
  moreover have "is = js" if "is \<in> level_paths (Suc n)" "js \<in> level_paths (Suc n)" "walk m dst is = Some u" "walk m dst js = Some u" for "is" js u
  proof (cases "is"; cases js)
    fix k is' l js' assume eq: "is = k # is'" "js = l # js'"
    note a = step [OF that(1) [unfolded eq(1)] that(3) [unfolded eq(1)]]
      and b = step [OF that(2) [unfolded eq(2)] that(4) [unfolded eq(2)]]
    have "k = l" using a b disj [of k l] by blast
    moreover have "cloned n m m0 (entry_addr (m0 src k)) (entry_addr (m dst k)) (Q k)" using a child [of k] by blast
    ultimately show "is = js" using a b eq clonedD(2) [of n m m0 _ "entry_addr (m dst k)" "Q k" is' js' u] by blast
  next
    fix k is' assume eq: "is = k # is'" "js = []"
    then show "is = js" using step [of k is' u] that(1,3,4) by simp
  next
    fix k is' assume eq: "is = []" "js = k # is'"
    have "u = dst" using that(3) eq by simp
    then show "is = js" using step [of k is' u] that(2,4) eq by blast
  qed simp
  moreover have "leaf m dst is i = cow_view (leaf m0 src is i)"
    if h: "is \<in> level_paths (Suc n)" "length is = Suc n" "i < 512" for "is" i
  proof -
    obtain k ks where "is": "is = k # ks" using h(2) by (cases "is") auto
    then have k: "k < 512" "ks \<in> level_paths n" "length ks = n" using h by auto
    show ?thesis
    proof (cases "is_present (m0 src k)")
      case True
      note c = child [OF k(1) True]
      then show ?thesis using clonedD(3) [OF c [THEN conjunct2, THEN conjunct1] k(2,3) h(3)] True
        by (simp add: "is" leaf_Cons)
    qed (use absent [OF k(1)] in \<open>simp add: "is" leaf_Cons\<close>)
  qed
  ultimately show ?thesis unfolding cloned_def by blast
qed

context frame_allocator
begin

text \<open>What any run of \<open>clone_table\<close> leaves alone, and where its new frames come from.\<close>

definition clone_frame :: "u64 \<Rightarrow> 'a ept_state \<Rightarrow> 'a ept_state \<Rightarrow> bool" where
  "clone_frame dst s s' \<longleftrightarrow> ainv (allocator s') \<and> offered (allocator s') \<subseteq> offered (allocator s) \<and>
     (\<forall>u. u \<noteq> dst \<longrightarrow> u \<notin> offered (allocator s) \<longrightarrow> tmem s' u = tmem s u) \<and>
     pml4_phys (ept s') = pml4_phys (ept s) \<and>
     (\<exists>new. frames (ept s') = frames (ept s) @ new \<and> set new \<subseteq> offered (allocator s) - offered (allocator s'))"

lemma clone_frame_refl: "ainv (allocator s) \<Longrightarrow> clone_frame dst s s"
  by (simp add: clone_frame_def)

lemma clone_frame_trans:
  assumes "clone_frame dst s s1" "clone_frame f s1 s2" "f = dst \<or> f \<in> offered (allocator s)"
  shows "clone_frame dst s s2"
proof -
  obtain new1 new2 where
    new: "frames (ept s1) = frames (ept s) @ new1" "set new1 \<subseteq> offered (allocator s) - offered (allocator s1)"
      "frames (ept s2) = frames (ept s1) @ new2" "set new2 \<subseteq> offered (allocator s1) - offered (allocator s2)"
    using assms unfolding clone_frame_def by blast
  have sub: "offered (allocator s1) \<subseteq> offered (allocator s)" "offered (allocator s2) \<subseteq> offered (allocator s1)"
    using assms by (auto simp: clone_frame_def)
  have "frames (ept s2) = frames (ept s) @ (new1 @ new2)" "set (new1 @ new2) \<subseteq> offered (allocator s) - offered (allocator s2)"
    using new sub by auto
  moreover have "tmem s2 u = tmem s u" if "u \<noteq> dst" "u \<notin> offered (allocator s)" for u
  proof -
    have "tmem s1 u = tmem s u" using assms(1) that by (simp add: clone_frame_def)
    moreover have "u \<noteq> f" "u \<notin> offered (allocator s1)" using assms(3) that sub(1) by auto
    then have "tmem s2 u = tmem s1 u" using assms(2) by (simp add: clone_frame_def)
    ultimately show ?thesis by simp
  qed
  ultimately show ?thesis using assms(1,2) sub unfolding clone_frame_def by auto
qed

text \<open>Allocating, zeroing and linking one table, the common prefix of the loop bodies.\<close>

definition link_new :: "u64 \<Rightarrow> u64 \<Rightarrow> nat \<Rightarrow> ept_permissions \<Rightarrow> 'a ept_state \<Rightarrow> 'a ept_state" where
  "link_new f dst i p s = s\<lparr>tmem := set_entry dst i (table_entry f p) (zero_frame f (tmem s)),
     ept := (ept s)\<lparr>frames := frames (ept s) @ [f]\<rparr>\<rparr>"

lemma link_new_frame:
  assumes "ainv (allocator s)" "alloc (allocator s) = (Inr f, a1)"
  shows "clone_frame dst s (link_new f dst i p (s\<lparr>allocator := a1\<rparr>))"
  using alloc_okD [OF assms] by (auto simp: clone_frame_def link_new_def set_entry_def zero_frame_def)

definition clone_body :: "nat \<Rightarrow> u64 \<Rightarrow> u64 \<Rightarrow> nat \<Rightarrow> ('a ept_state, 'e, unit) fallible" where
  "clone_body n src dst i s =
     (let e = tmem s src i in
       if \<not> is_present e then (Inr (), s)
       else case alloc_in alloc s of
           (Inl err, s1) \<Rightarrow> (Inl err, s1)
         | (Inr f, s1) \<Rightarrow> clone_table alloc n (entry_addr e) f (link_new f dst i (entry_permissions e) s1))"

lemma clone_table_Suc: "clone_table alloc (Suc n) src dst s = for_each [0..<512] (clone_body n src dst) s"
  unfolding clone_body_def [abs_def] link_new_def [abs_def] clone_table.simps ..

lemma clone_body_cases:
  assumes run: "clone_body n src dst i s = (r, s')"
  obtains (skip) "\<not> is_present (tmem s src i)" "r = Inr ()" "s' = s"
  | (oom) e a1 where "is_present (tmem s src i)" "alloc (allocator s) = (Inl e, a1)" "r = Inl e" "s' = s\<lparr>allocator := a1\<rparr>"
  | (sub) f a1 where "is_present (tmem s src i)" "alloc (allocator s) = (Inr f, a1)"
      "clone_table alloc n (entry_addr (tmem s src i)) f
         (link_new f dst i (entry_permissions (tmem s src i)) (s\<lparr>allocator := a1\<rparr>)) = (r, s')"
proof (cases "is_present (tmem s src i)")
  case False
  with run have "r = Inr ()" "s' = s" by (simp_all add: clone_body_def)
  with False skip show thesis by blast
next
  case True
  obtain r1 a1 where al: "alloc (allocator s) = (r1, a1)" by force
  show thesis
  proof (cases r1)
    case (Inl e)
    with run True al have "r = Inl e" "s' = s\<lparr>allocator := a1\<rparr>"
      by (simp_all add: clone_body_def alloc_in_def)
    with oom True al Inl show thesis by blast
  next
    case (Inr f)
    with run True al have "clone_table alloc n (entry_addr (tmem s src i)) f
         (link_new f dst i (entry_permissions (tmem s src i)) (s\<lparr>allocator := a1\<rparr>)) = (r, s')"
      by (simp add: clone_body_def alloc_in_def Let_def)
    with sub True al Inr show thesis by blast
  qed
qed

lemma clone_loop_frame:
  assumes inner: "\<And>src dst s r s'. ainv (allocator s) \<Longrightarrow> clone_table alloc n src dst s = (r, s') \<Longrightarrow> clone_frame dst s s'"
    and inv: "ainv (allocator s)" and run: "for_each is (clone_body n src dst) s = (r, s')"
  shows "clone_frame dst s s'"
  using run
proof (rule for_each_invariant)
  show "clone_frame dst s s" using inv by (simp add: clone_frame_refl)
next
  fix i s1 r s2 assume s1: "clone_frame dst s s1" and run: "clone_body n src dst i s1 = (r, s2)"
  have a: "ainv (allocator s1)" and sub1: "offered (allocator s1) \<subseteq> offered (allocator s)"
    using s1 by (simp_all add: clone_frame_def)
  show "clone_frame dst s s2" using run
  proof (cases rule: clone_body_cases)
    case skip
    then show ?thesis using s1 by simp
  next
    case (oom e a1)
    have "clone_frame dst s1 s2" using alloc_step [OF a oom(2)] by (simp add: oom(4) clone_frame_def)
    then show ?thesis using s1 by (blast intro: clone_frame_trans)
  next
    case (sub f a1)
    let ?s2 = "link_new f dst i (entry_permissions (tmem s1 src i)) (s1\<lparr>allocator := a1\<rparr>)"
    have l: "clone_frame dst s1 ?s2" by (rule link_new_frame [OF a sub(2)])
    moreover have "clone_frame f ?s2 s2" using inner [OF _ sub(3)] l by (simp add: clone_frame_def)
    ultimately have "clone_frame dst s1 s2"
      using alloc_okD(3) [OF a sub(2)] by (blast intro: clone_frame_trans)
    then show ?thesis using s1 by (blast intro: clone_frame_trans)
  qed
qed

lemma clone_table_frame:
  assumes "ainv (allocator s)" "clone_table alloc n src dst s = (r, s')"
  shows "clone_frame dst s s'"
  using assms
proof (induction n arbitrary: src dst s r s')
  case 0
  from 0(2) [unfolded clone_table.simps] show ?case
  proof (rule for_each_invariant)
    show "clone_frame dst s s" using 0(1) by (rule clone_frame_refl)
  next
    fix i s1 r s2
    assume "clone_frame dst s s1" and "(let e = tmem s1 src i in (Inr (), if is_present e
        then s1\<lparr>tmem := set_entry dst i (page_entry_4k (entry_addr e) READ_EXECUTE WriteBack) (tmem s1)\<rparr> else s1)) = (r, s2)"
    then show "clone_frame dst s s2" by (auto simp: Let_def clone_frame_def set_entry_def split: if_splits)
  qed
next
  case (Suc n)
  show ?case by (rule clone_loop_frame [OF Suc.IH Suc.prems(1) Suc.prems(2) [unfolded clone_table_Suc]])
qed

text \<open>The leaf loop.\<close>

lemma clone_leaves:
  assumes "src \<noteq> dst"
  shows "for_each [0..<j] (\<lambda>i s. let e = tmem s src i in
       (Inr (), if is_present e
          then s\<lparr>tmem := set_entry dst i (F e) (tmem s)\<rparr> else s)) s =
    (Inr (), s\<lparr>tmem := (tmem s)(dst := (\<lambda>k. if k < j \<and> is_present (tmem s src k) then F (tmem s src k) else tmem s dst k))\<rparr>)"
proof -
  define g where "g = (\<lambda>j. (tmem s)(dst := (\<lambda>k. if k < j \<and> is_present (tmem s src k) then F (tmem s src k) else tmem s dst k)))"
  have g: "is_present (tmem s src j) \<Longrightarrow> set_entry dst j (F (tmem s src j)) (g j) = g (Suc j)"
    "\<not> is_present (tmem s src j) \<Longrightarrow> g j = g (Suc j)" "g j src = tmem s src" "g 0 = tmem s" for j
    using assms by (auto simp: g_def set_entry_def fun_eq_iff less_Suc_eq)
  have "for_each [0..<j] (\<lambda>i s. let e = tmem s src i in
       (Inr (), if is_present e
          then s\<lparr>tmem := set_entry dst i (F e) (tmem s)\<rparr> else s)) s = (Inr (), s\<lparr>tmem := g j\<rparr>)"
    by (induction j) (auto simp: for_each_append Let_def g(1,3,4) g(2) [symmetric])
  then show ?thesis by (simp add: g_def)
qed

lemma cloned_0:
  assumes "frame_addr dst"
    and "\<And>k. k < 512 \<Longrightarrow> m dst k = (if is_present (m0 src k)
      then page_entry_4k (entry_addr (m0 src k)) READ_EXECUTE WriteBack else 0)"
  shows "cloned 0 m m0 src dst (insert dst R)"
  using assms by (auto simp: cloned_def level_paths_def leaf_def)

lemma cloned_src_cong:
  assumes "\<And>is u. is \<in> level_paths n \<Longrightarrow> walk m0 src is = Some u \<Longrightarrow> m0' u = m0 u" "cloned n m m0' src dst R"
  shows "cloned n m m0 src dst R"
proof -
  have l: "leaf m0' src is i = leaf m0 src is i" if "is \<in> level_paths n" for "is" i
    by (rule level_leaf_cong [OF assms(1) that])
  show ?thesis unfolding cloned_def
  proof (intro conjI ballI allI impI)
    fix "is" i assume "is \<in> level_paths n" "length is = n" "i < (512 :: nat)"
    then show "leaf m dst is i = cow_view (leaf m0 src is i)"
      using clonedD(3) [OF assms(2), of "is" i] l [of "is" i] by simp
  qed (use clonedD(1,2) [OF assms(2)] in blast)+
qed

text \<open>The state of the table loop after the entries below \<open>j\<close>.\<close>

definition loop_state :: "nat \<Rightarrow> nat \<Rightarrow> u64 \<Rightarrow> u64 \<Rightarrow> 'a ept_state \<Rightarrow> 'a ept_state \<Rightarrow> (nat \<Rightarrow> u64 set) \<Rightarrow> u64 list \<Rightarrow> bool" where
  "loop_state n j src dst s s1 Q new \<longleftrightarrow>
     clone_frame dst s s1 \<and> frames (ept s1) = frames (ept s) @ new \<and>
     set new \<subseteq> offered (allocator s) - offered (allocator s1) \<and>
     (\<forall>k < j. is_present (tmem s src k) \<longrightarrow>
        is_present (tmem s1 dst k) \<and>
        cloned n (tmem s1) (tmem s) (entry_addr (tmem s src k)) (entry_addr (tmem s1 dst k)) (Q k) \<and> Q k \<subseteq> set new) \<and>
     (\<forall>k l. k < j \<longrightarrow> l < j \<longrightarrow> is_present (tmem s src k) \<longrightarrow> is_present (tmem s src l) \<longrightarrow> k \<noteq> l \<longrightarrow> Q k \<inter> Q l = {}) \<and>
     (\<forall>k. j \<le> k \<or> \<not> is_present (tmem s src k) \<longrightarrow> tmem s1 dst k = 0)"

text \<open>The source tables are neither the destination nor on offer.\<close>

definition src_stable :: "nat \<Rightarrow> u64 \<Rightarrow> u64 \<Rightarrow> 'a ept_state \<Rightarrow> bool" where
  "src_stable n src dst s \<longleftrightarrow>
     (\<forall>is \<in> level_paths n. \<forall>u. walk (tmem s) src is = Some u \<longrightarrow> u \<noteq> dst \<and> u \<notin> offered (allocator s))"

lemma src_stable_self: "src_stable n src dst s \<Longrightarrow> src \<noteq> dst \<and> src \<notin> offered (allocator s)"
  unfolding src_stable_def by (drule bspec [of _ _ "[]"]) (auto simp: level_paths_def)

lemma src_stable_child:
  assumes "src_stable (Suc n) src dst s" "is_present (tmem s src k)" "k < 512"
  shows "src_stable n (entry_addr (tmem s src k)) dst s"
  unfolding src_stable_def
proof (intro ballI allI impI)
  fix "is" u assume "is \<in> level_paths n" "walk (tmem s) (entry_addr (tmem s src k)) is = Some u"
  then show "u \<noteq> dst \<and> u \<notin> offered (allocator s)"
    using assms(1) [unfolded src_stable_def, THEN bspec, of "k # is"] assms(2,3) by simp
qed

lemma src_stable_frame:
  assumes st: "src_stable n src dst s" and fr: "clone_frame dst s s1" and f: "f \<in> offered (allocator s)"
    and mem: "\<And>u. u \<noteq> dst \<Longrightarrow> u \<noteq> f \<Longrightarrow> tmem s2 u = tmem s1 u" and off: "offered (allocator s2) \<subseteq> offered (allocator s)"
  shows "src_stable n src f s2" "\<And>is u. is \<in> level_paths n \<Longrightarrow> walk (tmem s) src is = Some u \<Longrightarrow> tmem s2 u = tmem s u"
proof -
  show eq: "tmem s2 u = tmem s u" if "is \<in> level_paths n" "walk (tmem s) src is = Some u" for "is" u
  proof -
    have "u \<noteq> dst" "u \<notin> offered (allocator s)" using st that unfolding src_stable_def by blast+
    then show ?thesis using mem [of u] f fr by (auto simp: clone_frame_def)
  qed
  show "src_stable n src f s2" unfolding src_stable_def
  proof (intro ballI allI impI)
    fix "is" u assume "is \<in> level_paths n" "walk (tmem s2) src is = Some u"
    moreover have "walk (tmem s2) src is = walk (tmem s) src is"
      by (rule level_walk_cong [OF _ \<open>is \<in> level_paths n\<close>]) (rule eq)
    ultimately have "walk (tmem s) src is = Some u" by simp
    then have "u \<notin> offered (allocator s)" using st \<open>is \<in> level_paths n\<close> unfolding src_stable_def by blast
    then show "u \<noteq> f \<and> u \<notin> offered (allocator s2)" using f off by auto
  qed
qed

text \<open>What a successful run at level \<open>n\<close> achieves.\<close>

definition clone_ok_at :: "nat \<Rightarrow> bool" where
  "clone_ok_at n \<longleftrightarrow> (\<forall>src dst s s'. ainv (allocator s) \<longrightarrow> clone_table alloc n src dst s = (Inr (), s') \<longrightarrow>
      src_stable n src dst s \<longrightarrow> frame_addr dst \<longrightarrow> dst \<notin> offered (allocator s) \<longrightarrow> tmem s dst = (\<lambda>_. 0) \<longrightarrow>
      (\<exists>new. frames (ept s') = frames (ept s) @ new \<and> set new \<subseteq> offered (allocator s) - offered (allocator s') \<and>
        cloned n (tmem s') (tmem s) src dst (insert dst (set new))))"

lemmas clone_ok_atD = clone_ok_at_def [THEN iffD1, rule_format]

lemma loop_state_step:
  assumes inner: "clone_ok_at n"
    and st: "src_stable (Suc n) src dst s" and dst: "dst \<notin> offered (allocator s)"
    and loop: "loop_state n j src dst s s1 Q new" and j: "j < 512"
    and run: "clone_body n src dst j s1 = (Inr (), s2)"
  shows "\<exists>Q new. loop_state n (Suc j) src dst s s2 Q new"
proof -
  note fr = loop [unfolded loop_state_def, THEN conjunct1]
  have a: "ainv (allocator s1)" and off1: "offered (allocator s1) \<subseteq> offered (allocator s)"
    using fr by (simp_all add: clone_frame_def)
  have new: "frames (ept s1) = frames (ept s) @ new" "set new \<subseteq> offered (allocator s) - offered (allocator s1)"
    using loop by (simp_all add: loop_state_def)
  have src: "tmem s1 src = tmem s src"
    using fr src_stable_self [OF st] by (simp add: clone_frame_def)
  show ?thesis using run
  proof (cases rule: clone_body_cases)
    case skip
    then have "loop_state n (Suc j) src dst s s2 Q new"
      using loop src by (auto simp: loop_state_def less_Suc_eq)
    then show ?thesis by blast
  next
    case (sub f a1)
    define p where "p = entry_permissions (tmem s1 src j)"
    define s1' where "s1' = link_new f dst j p (s1\<lparr>allocator := a1\<rparr>)"
    let ?src = "entry_addr (tmem s src j)"
    have present: "is_present (tmem s src j)" and p: "valid_perms p" using sub(1) src by (auto simp: p_def)
    note al = alloc_okD [OF a sub(2)]
    have f: "f \<in> offered (allocator s)" "f \<noteq> dst" using al(3) off1 dst by auto
    have s1': "allocator s1' = a1" "frames (ept s1') = frames (ept s1) @ [f]" "tmem s1' f = (\<lambda>_. 0)"
      "tmem s1' dst = (tmem s1 dst)(j := table_entry f p)" "\<And>u. u \<noteq> dst \<Longrightarrow> u \<noteq> f \<Longrightarrow> tmem s1' u = tmem s1 u"
      using f(2) by (auto simp: s1'_def link_new_def set_entry_def zero_frame_def)
    have run': "clone_table alloc n ?src f s1' = (Inr (), s2)" using sub(3) src by (simp add: s1'_def p_def)
    have off': "offered (allocator s1') \<subseteq> offered (allocator s)" using al(2) off1 s1'(1) by auto
    note stable = src_stable_frame [OF src_stable_child [OF st present j] fr f(1) s1'(5) off']
    obtain new2 where new2: "frames (ept s2) = frames (ept s1') @ new2"
      "set new2 \<subseteq> offered a1 - offered (allocator s2)" "cloned n (tmem s2) (tmem s1') ?src f (insert f (set new2))"
      using clone_ok_atD [OF inner _ run' stable(1) al(5)] al s1' by auto
    have cl: "cloned n (tmem s2) (tmem s) ?src f (insert f (set new2))"
      by (rule cloned_src_cong [OF stable(2) new2(3)])
    have fr2: "clone_frame f s1' s2" using clone_table_frame [OF _ run'] al(1) s1'(1) by simp
    have fr12: "clone_frame dst s1 s2"
      using clone_frame_trans [OF link_new_frame [OF a sub(2)] fr2 [unfolded s1'_def]] al(3) by blast
    have dst2: "tmem s2 dst = (tmem s1 dst)(j := table_entry f p)"
      using fr2 f(2) off' dst s1'(1,4) by (auto simp: clone_frame_def)
    have off2: "offered (allocator s2) \<subseteq> offered a1" using fr2 s1'(1) by (simp add: clone_frame_def)
    let ?Q = "Q(j := insert f (set new2))"
    have old: "cloned n (tmem s2) (tmem s) (entry_addr (tmem s src k)) (entry_addr (tmem s1 dst k)) (Q k)"
      and Qk: "Q k \<subseteq> set new" if "k < j" "is_present (tmem s src k)" for k
    proof -
      have c: "cloned n (tmem s1) (tmem s) (entry_addr (tmem s src k)) (entry_addr (tmem s1 dst k)) (Q k)"
        and Q: "Q k \<subseteq> set new" using loop that by (auto simp: loop_state_def)
      have "tmem s2 u = tmem s1 u" if "u \<in> Q k" for u
        using that Q new(2) dst fr12 by (auto simp: clone_frame_def)
      then show "cloned n (tmem s2) (tmem s) (entry_addr (tmem s src k)) (entry_addr (tmem s1 dst k)) (Q k)"
        by (rule cloned_cong [OF c])
      show "Q k \<subseteq> set new" by (rule Q)
    qed
    have "loop_state n (Suc j) src dst s s2 ?Q (new @ f # new2)"
      unfolding loop_state_def
    proof (intro conjI allI impI)
      show "clone_frame dst s s2" using clone_frame_trans [OF fr fr12] by blast
      show "frames (ept s2) = frames (ept s) @ (new @ f # new2)" using new2(1) s1'(2) new(1) by simp
      show "set (new @ f # new2) \<subseteq> offered (allocator s) - offered (allocator s2)"
        using new(2) new2(2) al off1 off2 by auto
    next
      fix k assume k: "k < Suc j" "is_present (tmem s src k)"
      show "is_present (tmem s2 dst k)" using k loop p by (auto simp: dst2 loop_state_def less_Suc_eq)
      show "cloned n (tmem s2) (tmem s) (entry_addr (tmem s src k)) (entry_addr (tmem s2 dst k)) (?Q k)"
        using k old [of k] cl p al(5) by (auto simp: dst2 less_Suc_eq)
      show "?Q k \<subseteq> set (new @ f # new2)" using k Qk [of k] by (auto simp: less_Suc_eq)
    next
      fix k l assume kl: "k < Suc j" "l < Suc j" "is_present (tmem s src k)" "is_present (tmem s src l)" "k \<noteq> l"
      have fresh: "set new \<inter> insert f (set new2) = {}" using new(2) new2(2) al(2,3) by auto
      show "?Q k \<inter> ?Q l = {}"
      proof (cases "k = j \<or> l = j")
        case True
        then show ?thesis using kl fresh Qk [of k] Qk [of l] by (auto simp: less_Suc_eq)
      next
        case False
        then show ?thesis using kl loop by (simp add: loop_state_def less_Suc_eq)
      qed
    next
      fix k assume "Suc j \<le> k \<or> \<not> is_present (tmem s src k)"
      then show "tmem s2 dst k = 0" using loop present by (auto simp: dst2 loop_state_def)
    qed
    then show ?thesis by blast
  qed simp
qed

lemma loop_state_all:
  assumes inner: "clone_ok_at n"
    and inv: "ainv (allocator s)" and st: "src_stable (Suc n) src dst s"
    and dst: "dst \<notin> offered (allocator s)" "tmem s dst = (\<lambda>_. 0)"
  shows "j \<le> 512 \<Longrightarrow> for_each [0..<j] (clone_body n src dst) s = (Inr (), s1) \<Longrightarrow> \<exists>Q new. loop_state n j src dst s s1 Q new"
proof (induction j arbitrary: s1)
  case 0
  then have "loop_state n 0 src dst s s1 (\<lambda>_. {}) []"
    using inv dst by (simp add: loop_state_def clone_frame_refl)
  then show ?case by blast
next
  case (Suc j)
  obtain r s0 where first: "for_each [0..<j] (clone_body n src dst) s = (r, s0)" by force
  obtain r2 s2 where body: "clone_body n src dst j s0 = (r2, s2)" by force
  have eq: "for_each [0..<Suc j] (clone_body n src dst) s =
      (case r of Inl e \<Rightarrow> (Inl e, s0) | Inr u \<Rightarrow> (r2, s2))"
    by (cases r; cases r2) (simp_all add: for_each_append first body)
  have r: "r = Inr ()" "r2 = Inr ()" "s2 = s1"
    using Suc.prems(2) unfolding eq by (cases r; simp)+
  obtain Q new where "loop_state n j src dst s s0 Q new"
    using Suc.IH [of s0] Suc.prems(1) first r(1) by auto
  moreover have "j < 512" using Suc.prems(1) by simp
  moreover have "clone_body n src dst j s0 = (Inr (), s1)" using body r by simp
  ultimately show ?case by (rule loop_state_step [OF inner st dst(1)])
qed

lemma clone_table_ok: "clone_ok_at n"
proof (induction n)
  case 0
  show ?case unfolding clone_ok_at_def
  proof (intro allI impI)
    fix src dst s s'
    assume run: "clone_table alloc 0 src dst s = (Inr (), s')" and st: "src_stable 0 src dst s"
      and dst: "frame_addr dst" "tmem s dst = (\<lambda>_. 0)"
    have ne: "src \<noteq> dst" using src_stable_self [OF st] by simp
    have s': "s' = s\<lparr>tmem := (tmem s)(dst := (\<lambda>k. if k < 512 \<and> is_present (tmem s src k)
        then page_entry_4k (entry_addr (tmem s src k)) READ_EXECUTE WriteBack else tmem s dst k))\<rparr>"
      using run [unfolded clone_table.simps clone_leaves [OF ne]] by simp
    have "cloned 0 (tmem s') (tmem s) src dst (insert dst (set []))"
      using dst by (intro cloned_0) (simp_all add: s')
    moreover have "frames (ept s') = frames (ept s) @ []" by (simp add: s')
    ultimately show "\<exists>new. frames (ept s') = frames (ept s) @ new \<and>
        set new \<subseteq> offered (allocator s) - offered (allocator s') \<and>
        cloned 0 (tmem s') (tmem s) src dst (insert dst (set new))"
      by (metis empty_set empty_subsetI)
  qed
next
  case (Suc n)
  show ?case unfolding clone_ok_at_def
  proof (intro allI impI)
    fix src dst s s'
    assume inv: "ainv (allocator s)" and run: "clone_table alloc (Suc n) src dst s = (Inr (), s')"
      and st: "src_stable (Suc n) src dst s" and dst: "frame_addr dst" "dst \<notin> offered (allocator s)" "tmem s dst = (\<lambda>_. 0)"
    obtain Q new where l: "loop_state n 512 src dst s s' Q new"
      using loop_state_all [OF Suc.IH inv st dst(2,3) order.refl run [unfolded clone_table_Suc]] by blast
    have "cloned (Suc n) (tmem s') (tmem s) src dst (insert dst (set new))"
    proof (rule cloned_Suc)
      show "is_present (tmem s' dst k) \<and> cloned n (tmem s') (tmem s) (entry_addr (tmem s src k)) (entry_addr (tmem s' dst k)) (Q k) \<and>
          Q k \<subseteq> insert dst (set new) \<and> dst \<notin> Q k" if "k < 512" "is_present (tmem s src k)" for k
        using l that dst(2) by (auto simp: loop_state_def)
    qed (use l dst(1) in \<open>auto simp: loop_state_def\<close>)
    then show "\<exists>new. frames (ept s') = frames (ept s) @ new \<and>
        set new \<subseteq> offered (allocator s) - offered (allocator s') \<and>
        cloned (Suc n) (tmem s') (tmem s) src dst (insert dst (set new))"
      using l by (auto simp: loop_state_def)
  qed
qed

lemma clone_for_fork_spec:
  assumes inv: "ainv a" and wf: "ept_wf m pt" and disj: "set (frames pt) \<inter> offered a = {}"
    and run: "clone_for_fork alloc pt m a = (r, m', a')"
  shows "ainv a'" "offered a' \<subseteq> offered a" "\<And>u. u \<notin> offered a \<Longrightarrow> m' u = m u"
    and "r = Inr pt' \<Longrightarrow> ept_wf m' pt'"
    and "r = Inr pt' \<Longrightarrow> set (frames pt') \<subseteq> offered a - offered a'"
    and "r = Inr pt' \<Longrightarrow> ept_lookup m' pt' g = cow_view (ept_lookup m pt g)"
proof -
  have tree: "tree_at m (pml4_phys pt) (set (frames pt))" using wf by (simp add: ept_wf_def)
  obtain r1 a1 where al: "alloc a = (r1, a1)" by force
  have "ainv a' \<and> offered a' \<subseteq> offered a \<and> (\<forall>u. u \<notin> offered a \<longrightarrow> m' u = m u) \<and>
    (r = Inr pt' \<longrightarrow> ept_wf m' pt' \<and> set (frames pt') \<subseteq> offered a - offered a' \<and>
      ept_lookup m' pt' g = cow_view (ept_lookup m pt g))"
  proof (cases r1)
    case (Inl e)
    then show ?thesis using run al alloc_step [OF inv al] by (auto simp: clone_for_fork_def)
  next
    case (Inr f)
    note f = alloc_okD [OF inv al [unfolded Inr]]
    let ?s = "\<lparr>ept = \<lparr>pml4_phys = f, frames = [f]\<rparr>, tmem = zero_frame f m, allocator = a1\<rparr>"
    obtain r2 s where cl: "clone_table alloc 3 (pml4_phys pt) f ?s = (r2, s)" by force
    have r: "m' = tmem s" "a' = allocator s" "r = (case r2 of Inl e \<Rightarrow> Inl e | Inr _ \<Rightarrow> Inr (ept s))"
      using run al Inr cl by (cases r2; simp add: clone_for_fork_def)+
    have fr: "clone_frame f ?s s" using clone_table_frame [OF _ cl] f(1) by simp
    have base: "ainv a'" "offered a' \<subseteq> offered a" using fr f r(1,2) by (auto simp: clone_frame_def)
    have keep: "m' u = m u" if "u \<notin> offered a" for u
    proof -
      have "u \<noteq> f" "u \<notin> offered a1" using that f(2,3) by auto
      then show ?thesis using fr r(1) by (simp add: clone_frame_def zero_frame_def)
    qed
    have same: "zero_frame f m u = m u" if "u \<in> set (frames pt)" for u
      using that f(3) disj by (auto simp: zero_frame_def)
    have w: "walk (zero_frame f m) (pml4_phys pt) is = walk m (pml4_phys pt) is" if "is \<in> table_paths" for "is"
      by (rule walk_cong [OF tree that same])
    have stable: "src_stable 3 (pml4_phys pt) f ?s"
      using tree_atD(1) [OF tree] disj f(2,3) by (auto simp: src_stable_def level_paths_3 w)
    have "ept_wf m' pt' \<and> set (frames pt') \<subseteq> offered a - offered a' \<and>
      ept_lookup m' pt' g = cow_view (ept_lookup m pt g)" if "r = Inr pt'"
    proof -
      have r2: "r2 = Inr ()" "pt' = ept s" using that r(3) by (cases r2; simp)+
      obtain new where new: "frames (ept s) = f # new" "set new \<subseteq> offered a1 - offered (allocator s)"
        and c: "cloned 3 (tmem s) (zero_frame f m) (pml4_phys pt) f (insert f (set new))"
        using clone_ok_atD [OF clone_table_ok _ cl [unfolded r2(1)] stable] f by (auto simp: zero_frame_def)
      have pml4: "pml4_phys pt' = f" using fr r2 by (simp add: clone_frame_def)
      have "ept_wf m' pt'" using c r r2 new pml4 unfolding cloned_def level_paths_3 ept_wf_def tree_at_def by simp
      moreover have "ept_lookup m' pt' g = cow_view (ept_lookup m pt g)"
        using clonedD(3) [OF c, of "table_path g" "pt_index g"] leaf_cong [OF tree table_path_in(1) same]
        by (simp add: level_paths_3 index_less ept_lookup_leaf pml4 r)
      moreover have "offered (allocator s) \<subseteq> offered a1" using fr by (simp add: clone_frame_def)
      ultimately show ?thesis using new f r r2 by auto
    qed
    then show ?thesis using base keep by blast
  qed
  then show "ainv a'" "offered a' \<subseteq> offered a" "\<And>u. u \<notin> offered a \<Longrightarrow> m' u = m u"
    "r = Inr pt' \<Longrightarrow> ept_wf m' pt'" "r = Inr pt' \<Longrightarrow> set (frames pt') \<subseteq> offered a - offered a'"
    "r = Inr pt' \<Longrightarrow> ept_lookup m' pt' g = cow_view (ept_lookup m pt g)"
    by blast+
qed

lemma ept_new_spec:
  assumes "ainv a" "ept_new alloc m a = Inr s"
  shows "ept_inv ainv offered s" "ept_lookup (tmem s) (ept s) g = None"
    "set (frames (ept s)) \<subseteq> offered a" "offered (allocator s) \<subseteq> offered a"
proof -
  obtain f a1 where al: "alloc a = (Inr f, a1)"
    and s: "s = \<lparr>ept = \<lparr>pml4_phys = f, frames = [f]\<rparr>, tmem = zero_frame f m, allocator = a1\<rparr>"
    using assms(2) by (auto simp: ept_new_def split: sum.splits prod.splits)
  note f = alloc_okD [OF assms(1) al]
  have "walk (zero_frame f m) f is = (if is = [] then Some f else None)" for "is"
    by (cases "is") (simp_all add: zero_frame_app)
  then show "ept_inv ainv offered s" using f by (auto simp: s ept_inv_def ept_wf_def tree_at_def)
  show "ept_lookup (tmem s) (ept s) g = None" by (simp add: s ept_lookup_def zero_frame_app)
  show "set (frames (ept s)) \<subseteq> offered a" "offered (allocator s) \<subseteq> offered a" using f by (simp_all add: s)
qed

end

subsection \<open>Properties with the kernel's allocator\<close>

text \<open>C8. Mapping a page.  With the kernel frame allocator, \<open>map_4k\<close> keeps the page-table
  invariant, and the translation function afterwards is the old one, except that on success
  the addresses of the mapped page translate to the given frame with the given permissions;
  on allocation failure no translation changes.\<close>

theorem map_4k_updates_lookup:
  assumes "ept_inv allocator_inv avail s" and "valid_perms p"
    and "map_4k allocate_frame gpa hpa p mt s = (r, s')"
  shows "ept_inv allocator_inv avail s' \<and>
    (\<forall>g. ept_lookup (tmem s') (ept s') g =
      (if r = Inr () \<and> page_number g = page_number gpa then Some (hpa AND ADDR_MASK, p)
       else ept_lookup (tmem s) (ept s) g))"
  using kfa.map_4k_spec [OF assms] by blast

definition w_pages :: "u64 option list" where
  "w_pages = [Some 0x1000, Some 0x2000, Some 0x3000, Some 0x4000]"

definition w_ept :: "kernel_frame_allocator ept_state" where
  "w_ept = \<lparr>ept = \<lparr>pml4_phys = 0x1000, frames = [0x1000]\<rparr>, tmem = zero_frame 0x1000 (\<lambda>_ _. 0),
     allocator = kernel_frame_allocator_new (tl w_pages)\<rparr>"

lemma w_ept_inv: "ept_inv allocator_inv avail w_ept"
proof (rule kfa.ept_new_spec(1))
  show "allocator_inv (kernel_frame_allocator_new w_pages)" by code_simp
  show "ept_new allocate_frame (\<lambda>_ _. 0) (kernel_frame_allocator_new w_pages) = Inr w_ept"
    by (simp add: ept_new_def allocate_frame_def kernel_frame_allocator_new_def w_pages_def w_ept_def)
qed

theorem map_4k_updates_lookup_witness:
  "let (r, s') = map_4k allocate_frame 0x5000 0x9000 READ_WRITE_EXECUTE WriteBack w_ept in
     r = Inr () \<and> ept_lookup (tmem s') (ept s') 0x5123 = Some (0x9000, READ_WRITE_EXECUTE) \<and>
     ept_lookup (tmem s') (ept s') 0x6123 = None"
proof -
  obtain r s' where run: "map_4k allocate_frame 0x5000 0x9000 READ_WRITE_EXECUTE WriteBack w_ept = (r, s')"
    by force
  have "fst (map_4k allocate_frame 0x5000 0x9000 READ_WRITE_EXECUTE WriteBack w_ept) = Inr ()" by code_simp
  then have r: "r = Inr ()" using run by simp
  have "page_number 0x5123 = page_number 0x5000" "page_number 0x6123 \<noteq> page_number 0x5000"
    "(0x9000 :: u64) AND ADDR_MASK = 0x9000" "ept_lookup (tmem w_ept) (ept w_ept) 0x6123 = None"
    by code_simp+
  then show ?thesis
    using map_4k_updates_lookup [OF w_ept_inv valid_perms_consts(1) run] run r by simp
qed

end
