(* ===== verification/Cow.thy ===== *)
theory Cow
  imports Bedrock_Prelude
begin

text \<open>
  The copy-on-write page map of \<open>crates/bedrock-vmx/src/cow.rs\<close>.  The ordered maps it
  is built on (\<open>BTreeMap\<close> in cargo builds, the kernel's \<open>RBTree\<close> otherwise) are
  association lists sorted by key, so that iteration order is that of the source.  The
  two builds differ in how \<open>insert\<close> counts; both are modelled.  The locale \<open>page_map\<close>
  is what the fork theory relies on.
\<close>

subsection \<open>Ordered maps\<close>

fun omap_insert :: "'k::linorder \<Rightarrow> 'v \<Rightarrow> ('k \<times> 'v) list \<Rightarrow> ('k \<times> 'v) list" where
  "omap_insert k v [] = [(k, v)]"
| "omap_insert k v ((k', v') # xs) =
     (if k < k' then (k, v) # (k', v') # xs
      else if k = k' then (k, v) # xs
      else (k', v') # omap_insert k v xs)"

definition omap_sorted :: "('k::linorder \<times> 'v) list \<Rightarrow> bool" where
  "omap_sorted xs \<longleftrightarrow> sorted_wrt (<) (map fst xs)"

lemma map_of_omap_insert [simp]: "map_of (omap_insert k v xs) = (map_of xs)(k \<mapsto> v)"
  by (induction k v xs rule: omap_insert.induct) (auto simp: fun_eq_iff)

lemma set_omap_insert: "fst ` set (omap_insert k v xs) = insert k (fst ` set xs)"
  by (induction k v xs rule: omap_insert.induct) auto

lemma set_omap_insert_subset: "set (omap_insert k v xs) \<subseteq> insert (k, v) (set xs)"
  by (induction k v xs rule: omap_insert.induct) auto

lemma omap_sorted_insert: "omap_sorted xs \<Longrightarrow> omap_sorted (omap_insert k v xs)"
proof (induction k v xs rule: omap_insert.induct)
  case (2 k v k' v' xs)
  then have "omap_sorted xs" "\<forall>x \<in> fst ` set xs. k' < x" by (auto simp: omap_sorted_def)
  then show ?case using 2 set_omap_insert [of k v xs] unfolding omap_sorted_def
    by (auto simp: image_iff)
qed (simp add: omap_sorted_def)

lemma length_omap_insert:
  "omap_sorted xs \<Longrightarrow> length (omap_insert k v xs) = (if map_of xs k = None then Suc (length xs) else length xs)"
proof (induction k v xs rule: omap_insert.induct)
  case (2 k v k' v' xs)
  then have s: "omap_sorted xs" "\<forall>x \<in> fst ` set xs. k' < x" by (auto simp: omap_sorted_def)
  then have "k \<le> k' \<Longrightarrow> map_of xs k = None" by (force simp: map_of_eq_None_iff)
  then show ?case using 2 s(1) by auto
qed simp

subsection \<open>The page map\<close>

record 'p cow_page_map =
  cow_map :: "(u64 \<times> 'p) list"
  cow_count :: nat

datatype cow_insert_error = CowInsertError

definition page_align :: "u64 \<Rightarrow> u64" where
  "page_align gpa = gpa AND NOT 0xFFF"

definition cow_new :: "'p cow_page_map" where
  "cow_new = \<lparr>cow_map = [], cow_count = 0\<rparr>"

definition cow_get :: "'p cow_page_map \<Rightarrow> u64 \<Rightarrow> 'p option" where
  "cow_get c gpa = map_of (cow_map c) (page_align gpa)"

text \<open>The cargo build: a replaced key is not counted again.\<close>

definition cow_insert_cargo :: "u64 \<Rightarrow> 'p \<Rightarrow> 'p cow_page_map \<Rightarrow> (cow_insert_error + unit) \<times> 'p cow_page_map" where
  "cow_insert_cargo gpa p c =
     (let k = page_align gpa in
      (Inr (), \<lparr>cow_map = omap_insert k p (cow_map c),
                cow_count = (if map_of (cow_map c) k = None then cow_count c + 1 else cow_count c)\<rparr>))"

text \<open>The kernel build: the node allocation may fail, and every successful insertion is
  counted.\<close>

definition cow_insert :: "bool \<Rightarrow> u64 \<Rightarrow> 'p \<Rightarrow> 'p cow_page_map \<Rightarrow> (cow_insert_error + unit) \<times> 'p cow_page_map" where
  "cow_insert node_ok gpa p c =
     (let k = page_align gpa in
      if node_ok then (Inr (), \<lparr>cow_map = omap_insert k p (cow_map c), cow_count = cow_count c + 1\<rparr>)
      else (Inl CowInsertError, c))"

definition cow_contains :: "'p cow_page_map \<Rightarrow> u64 \<Rightarrow> bool" where
  "cow_contains c gpa \<longleftrightarrow> map_of (cow_map c) (page_align gpa) \<noteq> None"

definition cow_len :: "'p cow_page_map \<Rightarrow> nat" where
  "cow_len c = cow_count c"

definition cow_is_empty :: "'p cow_page_map \<Rightarrow> bool" where
  "cow_is_empty c \<longleftrightarrow> cow_count c = 0"

definition cow_iter :: "'p cow_page_map \<Rightarrow> (u64 \<times> 'p) list" where
  "cow_iter c = cow_map c"

definition cow_inv :: "'p cow_page_map \<Rightarrow> bool" where
  "cow_inv c \<longleftrightarrow> omap_sorted (cow_map c) \<and> cow_count c = length (cow_map c) \<and>
     list_all (\<lambda>(k, _). page_align k = k) (cow_map c)"

subsection \<open>Page alignment\<close>

lemma bit_page_align: "bit (page_align a) k \<longleftrightarrow> bit a k \<and> 12 \<le> k"
proof -
  have eq: "(0xFFF :: u64) = mask 12" by (simp add: mask_eq_exp_minus_1)
  show ?thesis unfolding page_align_def eq by (auto simp: bit_simps dest: bit_imp_le_length)
qed

lemma page_align_idem [simp]: "page_align (page_align a) = page_align a"
  by (rule bit_word_eqI) (simp add: bit_page_align)

lemma page_align_low [simp]: "page_align a AND 0xFFF = 0"
proof -
  have eq: "(0xFFF :: u64) = mask 12" by (simp add: mask_eq_exp_minus_1)
  show ?thesis unfolding eq by (rule bit_word_eqI) (auto simp: bit_simps bit_page_align)
qed

lemma unat_page_align: "unat (page_align a) = unat a div 4096 * 4096"
proof -
  have lt: "unat a < 2 ^ 64" using unsigned_less [of a] by simp
  have "page_align a = push_bit 12 (drop_bit 12 a)"
    by (rule bit_word_eqI) (auto simp: bit_simps bit_page_align dest: bit_imp_le_length)
  then have "unat (page_align a) = take_bit 64 (unat a div 4096 * 4096)"
    by (simp add: unsigned_push_bit_eq unsigned_drop_bit_eq push_bit_nat_def drop_bit_nat_def
        take_bit_nat_eq_self [OF lt])
  moreover have "unat a div 4096 * 4096 < 2 ^ 64"
    using lt div_times_less_eq_dividend [of "unat a" 4096] by (rule le_less_trans [rotated])
  ultimately show ?thesis by (simp only: take_bit_nat_eq_self)
qed

lemma unat_page_offset: "unat (a AND 0xFFF :: u64) = unat a mod 4096"
proof -
  have eq: "(0xFFF :: u64) = mask 12" by (simp add: mask_eq_exp_minus_1)
  show ?thesis unfolding eq take_bit_eq_mask [symmetric] unsigned_take_bit_eq
    by (simp add: take_bit_nat_def)
qed

subsection \<open>The contract of a page map\<close>

locale page_map =
  fixes empty :: 'm
    and get :: "'m \<Rightarrow> u64 \<Rightarrow> 'p option"
    and ins :: "u64 \<Rightarrow> 'p \<Rightarrow> 'm \<Rightarrow> ('e + unit) \<times> 'm"
    and minv :: "'m \<Rightarrow> bool"
    and size_of :: "'m \<Rightarrow> nat"
    and keys :: "'m \<Rightarrow> u64 set"
  assumes empty_inv: "minv empty" and get_empty: "get empty a = None"
    and keys_get: "minv m \<Longrightarrow> keys m = {k. page_align k = k \<and> get m k \<noteq> None}"
    and get_aligned: "get m (page_align a) = get m a"
    and ins_ok: "minv m \<Longrightarrow> get m a = None \<Longrightarrow> ins a p m = (Inr u, m') \<Longrightarrow>
      minv m' \<and> size_of m' = Suc (size_of m) \<and> (\<forall>b. get m' b = (if page_align b = page_align a then Some p else get m b))"
    and ins_err: "ins a p m = (Inl e, m') \<Longrightarrow> m' = m"
    and size_keys: "minv m \<Longrightarrow> size_of m = card (keys m)"
begin

text \<open>A page once present stays, and only its own page changes.\<close>

lemma ins_frame:
  assumes "minv m" "get m a = None" "ins a p m = (r, m')" "page_align b \<noteq> page_align a"
  shows "get m' b = get m b"
  using assms ins_ok [of m a p _ m'] ins_err [of a p m _ m'] by (cases r) auto

lemma ins_inv: "minv m \<Longrightarrow> get m a = None \<Longrightarrow> ins a p m = (r, m') \<Longrightarrow> minv m'"
  using ins_ok [of m a p _ m'] ins_err [of a p m _ m'] by (cases r) auto

end

lemma cow_inv_keys:
  "cow_inv c \<Longrightarrow> fst ` set (cow_map c) = {k. page_align k = k \<and> cow_get c k \<noteq> None}"
  by (auto simp: cow_inv_def cow_get_def list_all_iff weak_map_of_SomeI
      dest: map_of_SomeD intro: rev_image_eqI)

interpretation kernel_map: page_map cow_new cow_get "cow_insert node_ok" cow_inv cow_len "\<lambda>c. fst ` set (cow_map c)"
  for node_ok
proof
  fix c :: "'p cow_page_map" and a p u c'
  assume c: "cow_inv c" "cow_get c a = None" "cow_insert node_ok a p c = (Inr u, c')"
  then have c': "c' = \<lparr>cow_map = omap_insert (page_align a) p (cow_map c), cow_count = cow_count c + 1\<rparr>"
    by (auto simp: cow_insert_def Let_def split: if_splits)
  have "list_all (\<lambda>(k, _). page_align k = k) (omap_insert (page_align a) p (cow_map c))"
    using c(1) set_omap_insert_subset [of "page_align a" p "cow_map c"]
    by (auto simp: cow_inv_def list_all_iff)
  then show "cow_inv c' \<and> cow_len c' = Suc (cow_len c) \<and>
    (\<forall>b. cow_get c' b = (if page_align b = page_align a then Some p else cow_get c b))"
    using c c' by (auto simp: cow_inv_def cow_len_def cow_get_def omap_sorted_insert length_omap_insert)
next
  fix c :: "'p cow_page_map" assume "cow_inv c"
  then have "distinct (map fst (cow_map c))" "cow_count c = length (cow_map c)"
    by (auto simp: cow_inv_def omap_sorted_def strict_sorted_iff)
  then show "cow_len c = card (fst ` set (cow_map c))"
    by (metis cow_len_def distinct_card length_map list.set_map)
qed (auto simp: cow_inv_def cow_new_def cow_get_def omap_sorted_def cow_insert_def Let_def
      cow_inv_keys split: if_splits)

text \<open>The two builds agree on every insertion of a page that is not yet present.\<close>

lemma cow_insert_builds_agree:
  "\<not> cow_contains c gpa \<Longrightarrow> cow_insert True gpa p c = cow_insert_cargo gpa p c"
  by (simp add: cow_contains_def cow_insert_def cow_insert_cargo_def Let_def)

end
