(* ===== verification/Fork.thy ===== *)
theory Fork
  imports Ept_Laws Cow
begin

text \<open>
  Root and forked virtual machines (\<open>crates/bedrock-vmx/src/vm/root.rs\<close>,
  \<open>forked.rs\<close>, \<open>traits.rs\<close>): the memory side of the two VM types.  Host pages are
  frames of bytes; a pointer into a page is the frame's physical address.  A forked VM
  holds its parent, so a chain of forks is a value of type \<open>vm\<close>.  The operations are
  the reads and writes of guest memory, the copy-on-write fault handler, the two
  eager copy loops, construction and the child counter.
\<close>

definition PAGE_SIZE :: nat where "PAGE_SIZE = 4096"
definition APIC_BASE :: u64 where "APIC_BASE = 0xFEE00000"
definition APIC_SIZE :: u64 where "APIC_SIZE = 0x1000"
definition IOAPIC_BASE :: u64 where "IOAPIC_BASE = 0xFEC00000"
definition IOAPIC_SIZE :: u64 where "IOAPIC_SIZE = 0x1000"

subsection \<open>State\<close>

text \<open>Contents of host frames, by frame address and byte offset.\<close>

type_synonym host_mem = "u64 \<Rightarrow> nat \<Rightarrow> u8"

text \<open>Everything outside a VM that the operations change: host frames, table frames, the
  allocator, and the EPT contexts invalidated by \<open>INVEPT\<close>.\<close>

record world =
  hmem :: host_mem
  wtmem :: table_mem
  walloc :: kernel_frame_allocator
  invepts :: "u64 list"

text \<open>\<open>KernelGuestMemory\<close>: a size and, for each page of the virtually contiguous area, the
  frame that backs it (0 when the kernel reports none).\<close>

record guest_memory =
  gm_size :: nat
  gm_frame :: "nat \<Rightarrow> u64"

record root_vm =
  r_ept :: ept_page_table
  r_memory :: guest_memory
  r_children :: u64

record feedback_buffer =
  fb_num_pages :: nat
  fb_gpas :: "u64 list"

record forked_vm =
  f_ept :: ept_page_table
  f_cow :: "u64 cow_page_map"
  f_children :: u64
  f_stale_tlb_faults :: u64
  f_io_page_gpa :: u64
  f_feedback :: "feedback_buffer option list"

datatype vm = RootVm root_vm | ForkedVm forked_vm vm

datatype memory_error = OutOfRange | PermissionDenied

datatype cow_result = CowContinue

datatype root_vm_error = EptCreation kernel_alloc_error | EptMapping kernel_alloc_error | NoPhysAddr nat

datatype fork_error = EptClone kernel_alloc_error | VmcsAlloc | VmStateError

subsection \<open>Guest memory\<close>

definition page_phys_addr :: "guest_memory \<Rightarrow> nat \<Rightarrow> u64 option" where
  "page_phys_addr g off =
     (if gm_size g \<le> off then None
      else let phys = gm_frame g (off div PAGE_SIZE) in if phys = 0 then None else Some phys)"

definition div_ceil :: "nat \<Rightarrow> nat \<Rightarrow> nat" where
  "div_ceil n d = (if n mod d = 0 then n div d else n div d + 1)"

definition in_range_u64 :: "u64 \<Rightarrow> u64 \<Rightarrow> u64 \<Rightarrow> bool" where
  "in_range_u64 lo hi x \<longleftrightarrow> lo \<le> x \<and> x < hi"

definition is_mmio_page :: "u64 \<Rightarrow> bool" where
  "is_mmio_page gpa \<longleftrightarrow> in_range_u64 APIC_BASE (APIC_BASE + APIC_SIZE) gpa
     \<or> in_range_u64 IOAPIC_BASE (IOAPIC_BASE + IOAPIC_SIZE) gpa"

text \<open>The mapping loop of \<open>RootVm::new\<close>.\<close>

definition map_guest_page :: "guest_memory \<Rightarrow> nat \<Rightarrow> (kernel_frame_allocator ept_state, root_vm_error, unit) fallible" where
  "map_guest_page g page_idx s =
     (let page_offset = page_idx * PAGE_SIZE; gpa = of_nat page_offset :: u64 in
      if is_mmio_page gpa then (Inr (), s)
      else case page_phys_addr g page_offset of
          None \<Rightarrow> (Inl (NoPhysAddr page_offset), s)
        | Some hpa \<Rightarrow>
            (case map_4k allocate_frame gpa hpa READ_WRITE_EXECUTE WriteBack s of
               (Inl e, s') \<Rightarrow> (Inl (EptMapping e), s')
             | (Inr u, s') \<Rightarrow> (Inr (), s')))"

definition root_vm_new :: "guest_memory \<Rightarrow> table_mem \<Rightarrow> kernel_frame_allocator \<Rightarrow>
    (root_vm_error + root_vm \<times> kernel_frame_allocator ept_state)" where
  "root_vm_new g m a =
     (case ept_new allocate_frame m a of
        Inl e \<Rightarrow> Inl (EptCreation e)
      | Inr s \<Rightarrow>
          (case for_each [0..<div_ceil (gm_size g) PAGE_SIZE] (map_guest_page g) s of
             (Inl e, s') \<Rightarrow> Inl e
           | (Inr u, s') \<Rightarrow> Inr (\<lparr>r_ept = ept s', r_memory = g, r_children = 0\<rparr>, s')))"

subsection \<open>The parent chain\<close>

text \<open>The bounds check adds at the width of \<open>usize\<close>.\<close>

definition root_read_page :: "root_vm \<Rightarrow> u64 \<Rightarrow> u64 option" where
  "root_read_page r gpa =
     (let page_gpa = page_align gpa in
      if unat (page_gpa + 0x1000) \<le> gm_size (r_memory r)
      then Some (gm_frame (r_memory r) (unat page_gpa div PAGE_SIZE)) else None)"

fun read_page :: "vm \<Rightarrow> u64 \<Rightarrow> u64 option" where
  "read_page (RootVm r) gpa = root_read_page r gpa"
| "read_page (ForkedVm f p) gpa =
     (let page_gpa = page_align gpa in
      case cow_get (f_cow f) page_gpa of
        Some fr \<Rightarrow> Some fr
      | None \<Rightarrow> read_page p page_gpa)"

fun memory_size :: "vm \<Rightarrow> nat" where
  "memory_size (RootVm r) = gm_size (r_memory r)"
| "memory_size (ForkedVm f p) = memory_size p"

fun vm_ept :: "vm \<Rightarrow> ept_page_table" where
  "vm_ept (RootVm r) = r_ept r"
| "vm_ept (ForkedVm f p) = f_ept f"

fun children_count :: "vm \<Rightarrow> u64" where
  "children_count (RootVm r) = r_children r"
| "children_count (ForkedVm f p) = f_children f"

fun add_child :: "vm \<Rightarrow> vm" where
  "add_child (RootVm r) = RootVm (r\<lparr>r_children := r_children r + 1\<rparr>)"
| "add_child (ForkedVm f p) = ForkedVm (f\<lparr>f_children := f_children f + 1\<rparr>) p"

fun remove_child :: "vm \<Rightarrow> vm" where
  "remove_child (RootVm r) = RootVm (r\<lparr>r_children := r_children r - 1\<rparr>)"
| "remove_child (ForkedVm f p) = ForkedVm (f\<lparr>f_children := f_children f - 1\<rparr>) p"

definition can_run :: "vm \<Rightarrow> bool" where
  "can_run v \<longleftrightarrow> children_count v = 0"

subsection \<open>Reading and writing guest memory\<close>

definition read_frame :: "host_mem \<Rightarrow> u64 \<Rightarrow> nat \<Rightarrow> nat \<Rightarrow> bytes" where
  "read_frame h f off n = map (h f) [off..<off + n]"

definition write_frame :: "u64 \<Rightarrow> nat \<Rightarrow> bytes \<Rightarrow> host_mem \<Rightarrow> host_mem" where
  "write_frame f off bs h =
     h(f := (\<lambda>i. if off \<le> i \<and> i < off + length bs then bs ! (i - off) else h f i))"

definition root_read :: "root_vm \<Rightarrow> host_mem \<Rightarrow> u64 \<Rightarrow> nat \<Rightarrow> memory_error + bytes" where
  "root_read r h gpa n =
     (let off = unat gpa in
      if 2 ^ 64 \<le> off + n then Inl OutOfRange
      else if gm_size (r_memory r) < off + n then Inl OutOfRange
      else Inr (map (\<lambda>i. h (gm_frame (r_memory r) (i div PAGE_SIZE)) (i mod PAGE_SIZE)) [off..<off + n]))"

definition set_guest_byte :: "guest_memory \<Rightarrow> nat \<Rightarrow> u8 \<Rightarrow> host_mem \<Rightarrow> host_mem" where
  "set_guest_byte g i b h =
     h(gm_frame g (i div PAGE_SIZE) := (h (gm_frame g (i div PAGE_SIZE)))(i mod PAGE_SIZE := b))"

definition root_write :: "root_vm \<Rightarrow> u64 \<Rightarrow> bytes \<Rightarrow> host_mem \<Rightarrow> (memory_error + unit) \<times> host_mem" where
  "root_write r gpa bs h =
     (let off = unat gpa in
      if 2 ^ 64 \<le> off + length bs then (Inl OutOfRange, h)
      else if gm_size (r_memory r) < off + length bs then (Inl OutOfRange, h)
      else (Inr (), fold (\<lambda>(i, b). set_guest_byte (r_memory r) i b) (zip [off..<off + length bs] bs) h))"

text \<open>A forked VM reads page by page, from its own copy or through the parent.\<close>

function forked_read :: "forked_vm \<Rightarrow> vm \<Rightarrow> host_mem \<Rightarrow> u64 \<Rightarrow> nat \<Rightarrow> memory_error + bytes" where
  "forked_read f p h gpa n =
     (let page_gpa = page_align gpa; page_offset = unat (gpa AND 0xFFF); avail = PAGE_SIZE - page_offset in
      case (case cow_get (f_cow f) page_gpa of Some fr \<Rightarrow> Some fr | None \<Rightarrow> read_page p page_gpa) of
        None \<Rightarrow> Inl OutOfRange
      | Some fr \<Rightarrow>
          if n \<le> avail then Inr (read_frame h fr page_offset n)
          else case forked_read f p h (page_gpa + 0x1000) (n - avail) of
              Inl e \<Rightarrow> Inl e
            | Inr rest \<Rightarrow> Inr (read_frame h fr page_offset avail @ rest))"
  by pat_completeness auto
termination
proof (relation "measure (\<lambda>(_, _, _, _, n). n)", goal_cases)
  case (2 f p h gpa n x xa xb x2)
  have "unat (gpa AND 0xFFF) < 4096" unfolding unat_page_offset by simp
  then show ?case using 2 by (simp add: PAGE_SIZE_def)
qed simp

function forked_write :: "forked_vm \<Rightarrow> u64 \<Rightarrow> bytes \<Rightarrow> host_mem \<Rightarrow> (memory_error + unit) \<times> host_mem" where
  "forked_write f gpa bs h =
     (let page_gpa = page_align gpa; page_offset = unat (gpa AND 0xFFF); avail = PAGE_SIZE - page_offset in
      case cow_get (f_cow f) page_gpa of
        None \<Rightarrow> (Inl PermissionDenied, h)
      | Some fr \<Rightarrow>
          if length bs \<le> avail then (Inr (), write_frame fr page_offset bs h)
          else forked_write f (page_gpa + 0x1000) (drop avail bs) (write_frame fr page_offset (take avail bs) h))"
  by pat_completeness auto
termination
proof (relation "measure (\<lambda>(_, _, bs, _). length bs)", goal_cases)
  case (2 f gpa bs h x xa xb x2)
  have "unat (gpa AND 0xFFF) < 4096" unfolding unat_page_offset by simp
  then show ?case using 2 by (simp add: PAGE_SIZE_def)
qed simp

definition read_guest_memory :: "vm \<Rightarrow> host_mem \<Rightarrow> u64 \<Rightarrow> nat \<Rightarrow> memory_error + bytes" where
  "read_guest_memory v h gpa n = (case v of RootVm r \<Rightarrow> root_read r h gpa n | ForkedVm f p \<Rightarrow> forked_read f p h gpa n)"

definition write_guest_memory :: "vm \<Rightarrow> u64 \<Rightarrow> bytes \<Rightarrow> host_mem \<Rightarrow> (memory_error + unit) \<times> host_mem" where
  "write_guest_memory v gpa bs h = (case v of RootVm r \<Rightarrow> root_write r gpa bs h | ForkedVm f p \<Rightarrow> forked_write f gpa bs h)"

subsection \<open>Copy on write\<close>

text \<open>Allocate a frame, copy the parent's page into it, record it and remap the EPT leaf:
  the sequence shared by the fault handler and the two eager copy loops.  \<open>node_ok\<close> is the
  outcome of the map's node allocation.\<close>

definition cow_copy_page :: "bool \<Rightarrow> forked_vm \<Rightarrow> vm \<Rightarrow> u64 \<Rightarrow> world \<Rightarrow> bool \<times> forked_vm \<times> world" where
  "cow_copy_page node_ok f p page_gpa w =
     (case allocate_cow_page (walloc w) of
        (Inl _, a) \<Rightarrow> (False, f, w\<lparr>walloc := a\<rparr>)
      | (Inr new, a) \<Rightarrow>
          (case read_page p page_gpa of
             None \<Rightarrow> (False, f, w\<lparr>walloc := a\<rparr>)
           | Some src \<Rightarrow>
               let w1 = w\<lparr>walloc := a, hmem := (hmem w)(new := hmem w src)\<rparr> in
               (case cow_insert node_ok page_gpa new (f_cow f) of
                  (Inl _, c) \<Rightarrow> (False, f\<lparr>f_cow := c\<rparr>, w1)
                | (Inr _, c) \<Rightarrow>
                    (case remap_4k (f_ept f) page_gpa new READ_WRITE_EXECUTE WriteBack (wtmem w1) of
                       (Inl _, t) \<Rightarrow> (False, f\<lparr>f_cow := c\<rparr>, w1\<lparr>wtmem := t\<rparr>)
                     | (Inr _, t) \<Rightarrow>
                         (True, f\<lparr>f_cow := c\<rparr>,
                          w1\<lparr>wtmem := t, invepts := invepts w1 @ [eptp (f_ept f)]\<rparr>)))))"

definition handle_cow_fault :: "bool \<Rightarrow> forked_vm \<Rightarrow> vm \<Rightarrow> u64 \<Rightarrow> world \<Rightarrow> cow_result option \<times> forked_vm \<times> world" where
  "handle_cow_fault node_ok f p gpa w =
     (let page_gpa = page_align gpa in
      if cow_contains (f_cow f) page_gpa
      then (Some CowContinue, f\<lparr>f_stale_tlb_faults := f_stale_tlb_faults f + 1\<rparr>, w)
      else case cow_copy_page node_ok f p page_gpa w of
          (True, f', w') \<Rightarrow> (Some CowContinue, f', w')
        | (False, f', w') \<Rightarrow> (None, f', w'))"

text \<open>The root VM's default implementation refuses.\<close>

definition vm_handle_cow_fault :: "bool \<Rightarrow> vm \<Rightarrow> u64 \<Rightarrow> world \<Rightarrow> cow_result option \<times> vm \<times> world" where
  "vm_handle_cow_fault node_ok v gpa w =
     (case v of
        RootVm r \<Rightarrow> (None, v, w)
      | ForkedVm f p \<Rightarrow> (case handle_cow_fault node_ok f p gpa w of (r, f', w') \<Rightarrow> (r, ForkedVm f' p, w')))"

primrec cow_pages_loop :: "bool \<Rightarrow> vm \<Rightarrow> u64 list \<Rightarrow> forked_vm \<Rightarrow> world \<Rightarrow> forked_vm \<times> world" where
  "cow_pages_loop node_ok p [] f w = (f, w)"
| "cow_pages_loop node_ok p (g # gs) f w =
     (if cow_contains (f_cow f) g then cow_pages_loop node_ok p gs f w
      else case cow_copy_page node_ok f p g w of (_, f', w') \<Rightarrow> cow_pages_loop node_ok p gs f' w')"

definition cow_feedback_buffer_for_mapping :: "bool \<Rightarrow> forked_vm \<Rightarrow> vm \<Rightarrow> nat \<Rightarrow> world \<Rightarrow> forked_vm \<times> world" where
  "cow_feedback_buffer_for_mapping node_ok f p index w =
     (if index < length (f_feedback f) then
        (case f_feedback f ! index of
           None \<Rightarrow> (f, w)
         | Some fb \<Rightarrow> cow_pages_loop node_ok p (take (fb_num_pages fb) (fb_gpas fb)) f w)
      else (f, w))"

definition pre_cow_io_channel_page :: "bool \<Rightarrow> forked_vm \<Rightarrow> vm \<Rightarrow> world \<Rightarrow> forked_vm \<times> world" where
  "pre_cow_io_channel_page node_ok f p w =
     (if f_io_page_gpa f = 0 then (f, w)
      else let page_gpa = page_align (f_io_page_gpa f) in
        if cow_contains (f_cow f) page_gpa then (f, w)
        else case cow_copy_page node_ok f p page_gpa w of (_, f', w') \<Rightarrow> (f', w'))"

subsection \<open>Forking\<close>

text \<open>\<open>ForkedVm::new_internal\<close> for a parent whose child count has been incremented.
  \<open>vmcs_err\<close> is the failure, if any, of allocating the VMCS and copying the VM state.  Of
  that state the parts that concern memory are the I/O channel page and the feedback
  buffers.\<close>

definition fork_internal :: "fork_error option \<Rightarrow> bool \<Rightarrow> vm \<Rightarrow> u64 \<Rightarrow> feedback_buffer option list \<Rightarrow> world \<Rightarrow> (fork_error + vm) \<times> world" where
  "fork_internal vmcs_err node_ok parent io_gpa fbs w =
     (case clone_for_fork allocate_frame (vm_ept parent) (wtmem w) (walloc w) of
        (Inl e, t, a) \<Rightarrow> (Inl (EptClone e), w\<lparr>wtmem := t, walloc := a\<rparr>)
      | (Inr pt, t, a) \<Rightarrow>
          if vmcs_err \<noteq> None then (Inl (the vmcs_err), w\<lparr>wtmem := t, walloc := a\<rparr>) else
          let f = \<lparr>f_ept = pt, f_cow = cow_new, f_children = 0, f_stale_tlb_faults = 0,
                   f_io_page_gpa = io_gpa, f_feedback = fbs\<rparr>;
              (f', w') = pre_cow_io_channel_page node_ok f parent (w\<lparr>wtmem := t, walloc := a\<rparr>)
          in (Inr (ForkedVm f' parent), w'))"

text \<open>\<open>ForkedVm::new\<close>: the count is taken first, and not given back when the rest fails.\<close>

definition fork_new :: "fork_error option \<Rightarrow> bool \<Rightarrow> vm \<Rightarrow> u64 \<Rightarrow> feedback_buffer option list \<Rightarrow> world \<Rightarrow> vm \<times> (fork_error + vm) \<times> world" where
  "fork_new vmcs_err node_ok parent io_gpa fbs w =
     (let parent' = add_child parent; (r, w') = fork_internal vmcs_err node_ok parent' io_gpa fbs w
      in (parent', r, w'))"

text \<open>Dropping a fork gives the count back to the parent it holds.\<close>

fun drop_forked :: "vm \<Rightarrow> vm option" where
  "drop_forked (ForkedVm f p) = Some (remove_child p)"
| "drop_forked (RootVm r) = None"

end
