(* ===== verification/Fork_Laws.thy ===== *)
theory Fork_Laws
  imports Fork
begin

text \<open>
  Correctness of forking and copy on write.  The invariant of a chain of VMs ties the
  extended page tables to the software view of memory: a translation always leads to
  the page that \<open>read_page\<close> finds, a fork may write only pages it owns, and the frames of
  different VMs are disjoint.  It is kept by every operation of a running fork; a fork
  never changes what its ancestors read, and a copy-on-write fault never changes what
  the fork reads.
\<close>

subsection \<open>Frames of a chain\<close>

fun own_frames :: "vm \<Rightarrow> u64 set" where
  "own_frames (RootVm r) = gm_frame (r_memory r) ` {..<div_ceil (gm_size (r_memory r)) PAGE_SIZE}"
| "own_frames (ForkedVm f p) = snd ` set (cow_map (f_cow f))"

fun chain_frames :: "vm \<Rightarrow> u64 set" where
  "chain_frames (RootVm r) = own_frames (RootVm r)"
| "chain_frames (ForkedVm f p) = own_frames (ForkedVm f p) \<union> chain_frames p"

fun chain_tables :: "vm \<Rightarrow> u64 set" where
  "chain_tables (RootVm r) = set (frames (r_ept r))"
| "chain_tables (ForkedVm f p) = set (frames (f_ept f)) \<union> chain_tables p"

text \<open>Guest physical addresses within the reach of a four-level walk.\<close>

definition reachable_gpa :: "u64 \<Rightarrow> bool" where
  "reachable_gpa g \<longleftrightarrow> g < 0x1000000000000"

definition writable :: "ept_permissions \<Rightarrow> bool" where
  "writable p \<longleftrightarrow> p AND 2 \<noteq> 0"

definition hw_agrees :: "table_mem \<Rightarrow> vm \<Rightarrow> bool" where
  "hw_agrees t v \<longleftrightarrow> (\<forall>g h p. reachable_gpa g \<longrightarrow> ept_lookup t (vm_ept v) g = Some (h, p) \<longrightarrow> read_page v g = Some h)"

text \<open>What a fork adds to the invariant of its parent.\<close>

definition fork_ok :: "table_mem \<Rightarrow> u64 set \<Rightarrow> forked_vm \<Rightarrow> vm \<Rightarrow> bool" where
  "fork_ok t off f p \<longleftrightarrow>
     ept_wf t (f_ept f) \<and> set (frames (f_ept f)) \<inter> off = {} \<and> set (frames (f_ept f)) \<inter> chain_tables p = {} \<and>
     cow_inv (f_cow f) \<and> (\<forall>g fr. cow_get (f_cow f) g = Some fr \<longrightarrow> reachable_gpa g) \<and>
     own_frames (ForkedVm f p) \<inter> off = {} \<and> own_frames (ForkedVm f p) \<inter> chain_frames p = {} \<and>
     distinct (map snd (cow_map (f_cow f))) \<and>
     hw_agrees t (ForkedVm f p) \<and>
     (\<forall>g h pr. reachable_gpa g \<longrightarrow> ept_lookup t (f_ept f) g = Some (h, pr) \<longrightarrow> writable pr \<longrightarrow>
        cow_get (f_cow f) g = Some h)"

fun vm_inv :: "table_mem \<Rightarrow> u64 set \<Rightarrow> vm \<Rightarrow> bool" where
  "vm_inv t off (RootVm r) \<longleftrightarrow>
     ept_wf t (r_ept r) \<and> chain_tables (RootVm r) \<inter> off = {} \<and> own_frames (RootVm r) \<inter> off = {} \<and>
     gm_size (r_memory r) \<le> 0x1000000000000 \<and> hw_agrees t (RootVm r)"
| "vm_inv t off (ForkedVm f p) \<longleftrightarrow> vm_inv t off p \<and> fork_ok t off f p"

lemma fork_okD:
  assumes "fork_ok t off f p"
  shows "ept_wf t (f_ept f)" "set (frames (f_ept f)) \<inter> off = {}" "set (frames (f_ept f)) \<inter> chain_tables p = {}"
    "cow_inv (f_cow f)" "cow_get (f_cow f) g = Some fr \<Longrightarrow> reachable_gpa g"
    "own_frames (ForkedVm f p) \<inter> off = {}" "own_frames (ForkedVm f p) \<inter> chain_frames p = {}"
    "distinct (map snd (cow_map (f_cow f)))" "hw_agrees t (ForkedVm f p)"
    "reachable_gpa g \<Longrightarrow> ept_lookup t (f_ept f) g = Some (h, pr) \<Longrightarrow> writable pr \<Longrightarrow> cow_get (f_cow f) g = Some h"
  using assms unfolding fork_ok_def by blast+

definition world_inv :: "world \<Rightarrow> vm \<Rightarrow> bool" where
  "world_inv w v \<longleftrightarrow> allocator_inv (walloc w) \<and> vm_inv (wtmem w) (avail (walloc w)) v"

subsection \<open>Pages\<close>

definition page_view :: "vm \<Rightarrow> host_mem \<Rightarrow> u64 \<Rightarrow> (nat \<Rightarrow> u8) option" where
  "page_view v h gpa = map_option h (read_page v gpa)"

lemma cow_get_align [simp]: "cow_get c (page_align g) = cow_get c g"
  by (simp add: cow_get_def)

lemma read_page_align [simp]: "read_page v (page_align g) = read_page v g"
  by (cases v) (auto simp: root_read_page_def Let_def split: option.split)

lemma read_page_Forked:
  "read_page (ForkedVm f p) g = (case cow_get (f_cow f) g of Some fr \<Rightarrow> Some fr | None \<Rightarrow> read_page p g)"
  by (auto simp: Let_def split: option.split)

declare read_page.simps(2) [simp del]

lemma reachable_bits: "reachable_gpa g \<Longrightarrow> bit g k \<Longrightarrow> k < 48"
proof (rule ccontr)
  assume g: "reachable_gpa g" "bit g k" "\<not> k < 48"
  have "unat g < 2 ^ 48" using g(1) by (simp add: reachable_gpa_def word_less_nat_alt)
  then have "take_bit 48 g = g" by (metis take_bit_nat_eq_self unsigned_take_bit_eq word_unat_eq_iff)
  then show False using g by (metis bit_take_bit_iff)
qed

lemma page_number_page_align:
  assumes "reachable_gpa a" "reachable_gpa b"
  shows "page_number a = page_number b \<longleftrightarrow> page_align a = page_align b"
proof
  assume "page_number a = page_number b"
  then have eq: "12 \<le> k \<Longrightarrow> k < 12 + 36 \<Longrightarrow> bit a k = bit b k" for k
    unfolding page_number_def field_eq_iff by blast
  show "page_align a = page_align b"
  proof (rule bit_word_eqI)
    fix k show "bit (page_align a) k = bit (page_align b) k"
      using eq [of k] reachable_bits [OF assms(1), of k] reachable_bits [OF assms(2), of k]
      by (auto simp: bit_page_align)
  qed
next
  assume "page_align a = page_align b"
  then have "12 \<le> k \<longrightarrow> bit a k = bit b k" for k by (metis bit_page_align)
  then show "page_number a = page_number b" unfolding page_number_def field_eq_iff by blast
qed

lemma page_number_align [simp]: "page_number (page_align g) = page_number g"
  unfolding page_number_def field_eq_iff by (simp add: bit_page_align)

lemma ept_lookup_align [simp]: "ept_lookup t pt (page_align g) = ept_lookup t pt g"
  using page_number_align [of g] by (simp only: page_number_eq_iff ept_lookup_def)

lemma reachable_align: "reachable_gpa g \<Longrightarrow> reachable_gpa (page_align g)"
  by (simp add: reachable_gpa_def word_less_nat_alt unat_page_align)

lemma cow_get_own: "cow_get (f_cow f) g = Some fr \<Longrightarrow> fr \<in> own_frames (ForkedVm f p)"
  by (auto simp: cow_get_def dest: map_of_SomeD intro: rev_image_eqI)

lemma read_page_in_chain:
  assumes "vm_inv t off v" "read_page v g = Some fr" "reachable_gpa g"
  shows "fr \<in> chain_frames v"
  using assms
proof (induction v)
  case (RootVm r)
  then have sz: "unat (page_align g + 0x1000) \<le> gm_size (r_memory r)"
    and fr: "fr = gm_frame (r_memory r) (unat (page_align g) div PAGE_SIZE)"
    by (auto simp: root_read_page_def Let_def split: if_splits)
  have "unat (page_align g) < 0x1000000000000"
    using reachable_align [OF RootVm.prems(3)] by (simp add: reachable_gpa_def word_less_nat_alt)
  then have "unat (page_align g + 0x1000) = unat (page_align g) + 0x1000"
    by (simp add: unat_word_ariths)
  then have "unat (page_align g) div PAGE_SIZE < div_ceil (gm_size (r_memory r)) PAGE_SIZE"
    using sz by (auto simp: PAGE_SIZE_def div_ceil_def)
  then show ?case using fr by auto
next
  case (ForkedVm f p)
  show ?case
  proof (cases "cow_get (f_cow f) g")
    case None
    have "vm_inv t off p" using ForkedVm.prems(1) unfolding vm_inv.simps by blast
    then show ?thesis using ForkedVm.IH ForkedVm.prems(2,3) None by (simp add: read_page_Forked)
  next
    case (Some fr')
    then show ?thesis using ForkedVm.prems(2) cow_get_own [of f g fr p] by (simp add: read_page_Forked)
  qed
qed

text \<open>Guest physical addresses have at most 52 bits; only reachable ones are backed.\<close>

definition guest_phys :: "u64 \<Rightarrow> bool" where
  "guest_phys g \<longleftrightarrow> g < 0x10000000000000"

lemma read_page_reachable:
  assumes "vm_inv t off v" "read_page v g = Some fr" "guest_phys g"
  shows "reachable_gpa g"
  using assms
proof (induction v)
  case (RootVm r)
  have lt: "unat g < 4503599627370496" using RootVm.prems(3) by (simp add: guest_phys_def word_less_nat_alt)
  then have "unat (page_align g + 0x1000) = unat g div 4096 * 4096 + 4096"
    using div_times_less_eq_dividend [of "unat g" 4096] by (simp add: unat_word_ariths unat_page_align)
  moreover have "unat (page_align g + 0x1000) \<le> 0x1000000000000"
    using RootVm.prems(1,2) by (simp add: root_read_page_def Let_def split: if_splits)
  moreover have "unat g < unat g div 4096 * 4096 + 4096" using mod_less_divisor [of 4096 "unat g"] div_mult_mod_eq [of "unat g" 4096] by linarith
  ultimately show ?case by (simp add: reachable_gpa_def word_less_nat_alt)
next
  case (ForkedVm f p)
  show ?case
  proof (cases "cow_get (f_cow f) g")
    case None
    have "vm_inv t off p" using ForkedVm.prems(1) unfolding vm_inv.simps by blast
    then show ?thesis using ForkedVm.IH ForkedVm.prems(2,3) None by (simp add: read_page_Forked)
  next
    case (Some fr')
    then show ?thesis using ForkedVm.prems(1) fork_okD(5) [of t off f p g fr'] by simp
  qed
qed

lemma reachable_align_iff: "reachable_gpa (page_align g) \<longleftrightarrow> reachable_gpa g"
proof
  assume "reachable_gpa (page_align g)"
  then have "unat g div 4096 * 4096 < 68719476736 * 4096"
    by (simp add: reachable_gpa_def word_less_nat_alt unat_page_align)
  then have "unat g div 4096 < 68719476736" by simp
  then show "reachable_gpa g" by (simp add: reachable_gpa_def word_less_nat_alt)
qed (rule reachable_align)

subsection \<open>Reads depend on the frames of the chain only\<close>

lemma unat_next_page:
  assumes "unat g < 0x1000000000000"
  shows "unat (page_align g + 0x1000) = unat g div 4096 * 4096 + 4096"
proof -
  have "unat g div 4096 * 4096 + 4096 < 18446744073709551616"
    using assms div_times_less_eq_dividend [of "unat g" 4096] by linarith
  then show ?thesis by (simp add: unat_word_ariths unat_page_align)
qed

lemma forked_read_step:
  assumes "unat gpa + n \<le> 0x1000000000000" "4096 - unat (gpa AND 0xFFF) < n"
  shows "unat (page_align gpa + 0x1000) + (n - (4096 - unat (gpa AND 0xFFF))) = unat gpa + n"
proof -
  have "unat gpa div 4096 * 4096 + unat gpa mod 4096 = unat gpa" "unat gpa mod 4096 < 4096" by simp_all
  moreover have "unat gpa < 0x1000000000000" using assms by linarith
  ultimately show ?thesis using unat_next_page [of gpa] assms unfolding unat_page_offset by linarith
qed

lemma reachable_of_range: "unat gpa + n \<le> 0x1000000000000 \<Longrightarrow> 0 < n \<Longrightarrow> reachable_gpa gpa"
  by (simp add: reachable_gpa_def word_less_nat_alt)

declare forked_read.simps [simp del] forked_write.simps [simp del]

lemma forked_read_unfold:
  "forked_read f p h gpa n =
     (case read_page (ForkedVm f p) gpa of
        None \<Rightarrow> Inl OutOfRange
      | Some fr \<Rightarrow>
          if n \<le> 4096 - unat (gpa AND 0xFFF) then Inr (read_frame h fr (unat (gpa AND 0xFFF)) n)
          else case forked_read f p h (page_align gpa + 0x1000) (n - (4096 - unat (gpa AND 0xFFF))) of
              Inl e \<Rightarrow> Inl e
            | Inr rest \<Rightarrow> Inr (read_frame h fr (unat (gpa AND 0xFFF)) (4096 - unat (gpa AND 0xFFF)) @ rest))"
  by (subst forked_read.simps) (cases "cow_get (f_cow f) gpa"; simp add: Let_def read_page_Forked PAGE_SIZE_def)

lemma forked_read_cong:
  assumes "vm_inv t off (ForkedVm f p)" "\<And>fr. fr \<in> chain_frames (ForkedVm f p) \<Longrightarrow> h' fr = h fr"
    and "unat gpa + n \<le> 0x1000000000000" "0 < n"
  shows "forked_read f p h' gpa n = forked_read f p h gpa n"
  using assms(3,4)
proof (induction n arbitrary: gpa rule: less_induct)
  case (less n)
  let ?av = "4096 - unat (gpa AND 0xFFF)"
  have "0 < ?av" using unat_page_offset [of gpa] by simp
  then have IH: "forked_read f p h' (page_align gpa + 0x1000) (n - ?av) = forked_read f p h (page_align gpa + 0x1000) (n - ?av)"
    if "?av < n" using less.IH [of "n - ?av" "page_align gpa + 0x1000"] forked_read_step [OF less.prems(1) that] that less.prems by simp
  have "h' fr = h fr" if "read_page (ForkedVm f p) gpa = Some fr" for fr
    using assms(2) read_page_in_chain [OF assms(1) that reachable_of_range [OF less.prems]] by blast
  then show ?case
    by (subst (1 2) forked_read_unfold) (auto simp: IH read_frame_def split: option.split sum.split)
qed

lemma root_read_cong:
  assumes "\<And>fr. fr \<in> chain_frames (RootVm r) \<Longrightarrow> h' fr = h fr"
  shows "root_read r h' gpa n = root_read r h gpa n"
proof -
  have "i div PAGE_SIZE < div_ceil (gm_size (r_memory r)) PAGE_SIZE" if "i < gm_size (r_memory r)" for i
    using that by (auto simp: div_ceil_def PAGE_SIZE_def)
  then show ?thesis using assms by (auto simp: root_read_def Let_def)
qed

lemma read_guest_memory_cong:
  assumes "vm_inv t off v" "\<And>fr. fr \<in> chain_frames v \<Longrightarrow> h' fr = h fr"
    and "unat gpa + n \<le> 0x1000000000000" "0 < n"
  shows "read_guest_memory v h' gpa n = read_guest_memory v h gpa n"
proof (cases v)
  case (RootVm r)
  then show ?thesis using root_read_cong [of r h' h] assms(2) by (simp add: read_guest_memory_def)
next
  case (ForkedVm f p)
  then show ?thesis
    using forked_read_cong [of t off f p h' h gpa n] assms by (simp add: read_guest_memory_def)
qed

subsection \<open>The invariant under changes elsewhere\<close>

lemma ept_cong:
  assumes "ept_wf t pt" "\<And>u. u \<in> set (frames pt) \<Longrightarrow> t' u = t u"
  shows "ept_lookup t' pt g = ept_lookup t pt g" "ept_wf t' pt"
  using leaf_cong [OF assms(1) [unfolded ept_wf_def] table_path_in(1) assms(2)]
    tree_at_cong [OF assms(1) [unfolded ept_wf_def] assms(2)]
  by (simp_all add: ept_lookup_leaf ept_wf_def)

lemma hw_agrees_cong:
  "(\<And>g. ept_lookup t' (vm_ept v) g = ept_lookup t (vm_ept v) g) \<Longrightarrow> hw_agrees t v \<Longrightarrow> hw_agrees t' v"
  by (simp add: hw_agrees_def)

lemma fork_ok_cong:
  assumes fo: "fork_ok t off f p" and off: "off' \<subseteq> off" and eq: "\<And>u. u \<in> set (frames (f_ept f)) \<Longrightarrow> t' u = t u"
  shows "fork_ok t' off' f p"
proof -
  have look: "ept_lookup t' (f_ept f) g = ept_lookup t (f_ept f) g" "ept_wf t' (f_ept f)" for g
    using ept_cong [OF fork_okD(1) [OF fo], of t'] eq by blast+
  have hw: "hw_agrees t' (ForkedVm f p)" using hw_agrees_cong [OF _ fork_okD(9) [OF fo]] look(1) by simp
  have off': "set (frames (f_ept f)) \<inter> off' = {}" "own_frames (ForkedVm f p) \<inter> off' = {}"
    using fork_okD(2,6) [OF fo] off by blast+
  have wr: "cow_get (f_cow f) g = Some h"
    if "reachable_gpa g" "ept_lookup t' (f_ept f) g = Some (h, pr)" "writable pr" for g h pr
    using fork_okD(10) [OF fo that(1) _ that(3)] that(2) look(1) by simp
  show ?thesis unfolding fork_ok_def
  proof (intro conjI allI impI)
    show "reachable_gpa g" if "cow_get (f_cow f) g = Some fr" for g fr using that by (rule fork_okD(5) [OF fo])
    show "cow_get (f_cow f) g = Some h"
      if "reachable_gpa g" "ept_lookup t' (f_ept f) g = Some (h, pr)" "writable pr" for g h pr using that by (rule wr)
  qed (rule look(2) off' hw fork_okD [OF fo])+
qed

lemma vm_inv_cong:
  assumes "vm_inv t off v" "off' \<subseteq> off" "\<And>u. u \<in> chain_tables v \<Longrightarrow> t' u = t u"
  shows "vm_inv t' off' v"
  using assms
proof (induction v)
  case (RootVm r)
  have wf: "ept_wf t (r_ept r)" and hw: "hw_agrees t (RootVm r)" using RootVm.prems(1) by simp_all
  have eq: "\<And>u. u \<in> set (frames (r_ept r)) \<Longrightarrow> t' u = t u" using RootVm.prems(3) by simp
  have "hw_agrees t' (RootVm r)" using hw_agrees_cong [OF _ hw] ept_cong(1) [OF wf eq] by simp
  then show ?case using RootVm.prems(1,2) ept_cong(2) [OF wf eq] by auto
next
  case (ForkedVm f p)
  have fo: "fork_ok t off f p" using ForkedVm.prems(1) by simp
  have "fork_ok t' off' f p"
    by (rule fork_ok_cong [OF fo ForkedVm.prems(2)]) (rule ForkedVm.prems(3), simp)
  moreover have "vm_inv t' off' p" using ForkedVm by simp
  ultimately show ?case by simp
qed

lemma chain_frames_disjoint: "vm_inv t off v \<Longrightarrow> chain_frames v \<inter> off = {}"
proof (induction v)
  case (ForkedVm f p)
  then show ?case using fork_okD(6) [of t off f p] by auto
qed simp

lemma chain_tables_disjoint: "vm_inv t off v \<Longrightarrow> chain_tables v \<inter> off = {}"
proof (induction v)
  case (ForkedVm f p)
  then show ?case using fork_okD(2) [of t off f p] by auto
qed simp

subsection \<open>Copying one page\<close>

lemma cow_copy_page_cases:
  assumes "cow_copy_page node_ok f p g w = (b, f', w')"
  obtains (nothing) a where "\<not> b" "f' = f" "w' = w\<lparr>walloc := a\<rparr>" "\<exists>r. allocate_cow_page (walloc w) = (r, a)"
  | (dropped) new a src where "\<not> b" "f' = f" "allocate_cow_page (walloc w) = (Inr new, a)" "read_page p g = Some src"
      "w' = w\<lparr>walloc := a, hmem := (hmem w)(new := hmem w src)\<rparr>"
  | (inserted) new a src c r t where "allocate_cow_page (walloc w) = (Inr new, a)" "read_page p g = Some src"
      "cow_insert node_ok g new (f_cow f) = (Inr (), c)"
      "remap_4k (f_ept f) g new READ_WRITE_EXECUTE WriteBack (wtmem w) = (r, t)"
      "f' = f\<lparr>f_cow := c\<rparr>" "b \<longleftrightarrow> r = Inr ()"
      "walloc w' = a" "hmem w' = (hmem w)(new := hmem w src)" "wtmem w' = t"
      "invepts w' = (if b then invepts w @ [eptp (f_ept f)] else invepts w)"
proof -
  obtain ra a where al: "allocate_cow_page (walloc w) = (ra, a)" by force
  show thesis
  proof (cases ra)
    case (Inl e)
    with assms al have "\<not> b" "f' = f" "w' = w\<lparr>walloc := a\<rparr>" by (auto simp: cow_copy_page_def)
    then show thesis by (rule nothing) (use al in blast)
  next
    case new: (Inr new)
    show thesis
    proof (cases "read_page p g")
      case None
      with assms al new have "\<not> b" "f' = f" "w' = w\<lparr>walloc := a\<rparr>" by (auto simp: cow_copy_page_def)
      then show thesis by (rule nothing) (use al in blast)
    next
      case src: (Some src)
      obtain rc c where ins: "cow_insert node_ok g new (f_cow f) = (rc, c)" by force
      show thesis
      proof (cases rc)
        case (Inl e)
        then have "c = f_cow f" using kernel_map.ins_err [of node_ok g new "f_cow f" e c] ins by simp
        with Inl assms al new src ins have "\<not> b" "f' = f" "w' = w\<lparr>walloc := a, hmem := (hmem w)(new := hmem w src)\<rparr>"
          by (auto simp: cow_copy_page_def)
        with dropped al new src show thesis by blast
      next
        case (Inr u)
        obtain r t where rm: "remap_4k (f_ept f) g new READ_WRITE_EXECUTE WriteBack (wtmem w) = (r, t)" by force
        have "f' = f\<lparr>f_cow := c\<rparr> \<and> (b \<longleftrightarrow> r = Inr ()) \<and> walloc w' = a \<and> hmem w' = (hmem w)(new := hmem w src) \<and>
            wtmem w' = t \<and> invepts w' = (if b then invepts w @ [eptp (f_ept f)] else invepts w)"
          using assms al new src ins Inr rm by (cases r) (auto simp: cow_copy_page_def Let_def)
        then show thesis using inserted [OF al [unfolded new] src _ rm] ins Inr by simp
      qed
    qed
  qed
qed

text \<open>What a step of a running fork keeps: the invariant, the contents of every frame of the
  chain, and what the fork sees at every page.\<close>

definition cow_transparent :: "vm \<Rightarrow> forked_vm \<Rightarrow> world \<Rightarrow> forked_vm \<Rightarrow> world \<Rightarrow> bool" where
  "cow_transparent p f w f' w' \<longleftrightarrow>
     world_inv w' (ForkedVm f' p) \<and>
     (\<forall>fr \<in> chain_frames (ForkedVm f p). hmem w' fr = hmem w fr) \<and>
     own_frames (ForkedVm f p) \<subseteq> own_frames (ForkedVm f' p) \<and>
     (\<forall>x. reachable_gpa x \<longrightarrow> page_view (ForkedVm f' p) (hmem w') x = page_view (ForkedVm f p) (hmem w) x)"

lemma cow_transparent_refl: "world_inv w (ForkedVm f p) \<Longrightarrow> cow_transparent p f w f w"
  by (simp add: cow_transparent_def)

lemma cow_transparent_trans:
  assumes 1: "cow_transparent p f w f1 w1" and 2: "cow_transparent p f1 w1 f2 w2"
  shows "cow_transparent p f w f2 w2"
  unfolding cow_transparent_def
proof (intro conjI ballI allI impI)
  have own: "own_frames (ForkedVm f p) \<subseteq> own_frames (ForkedVm f1 p)"
    "own_frames (ForkedVm f1 p) \<subseteq> own_frames (ForkedVm f2 p)"
    using 1 2 by (simp_all only: cow_transparent_def)
  then show "own_frames (ForkedVm f p) \<subseteq> own_frames (ForkedVm f2 p)" by (rule order.trans)
  show "world_inv w2 (ForkedVm f2 p)" using 2 by (simp only: cow_transparent_def)
  show "hmem w2 fr = hmem w fr" if "fr \<in> chain_frames (ForkedVm f p)" for fr
  proof -
    have "fr \<in> chain_frames (ForkedVm f1 p)" using that own(1) by auto
    then show ?thesis using 1 2 that by (simp only: cow_transparent_def)
  qed
  show "page_view (ForkedVm f2 p) (hmem w2) x = page_view (ForkedVm f p) (hmem w) x" if "reachable_gpa x" for x
    using 1 2 that by (simp only: cow_transparent_def)
qed

lemma world_inv_alloc:
  assumes "world_inv w v" "allocate_cow_page (walloc w) = (r, a)"
  shows "world_inv (w\<lparr>walloc := a\<rparr>) v"
proof -
  have "allocator_inv (walloc w)" using assms(1) by (simp add: world_inv_def)
  then have "allocator_inv a" "avail a \<subseteq> avail (walloc w)" using kca.alloc_step assms(2) by blast+
  then show ?thesis using assms(1) vm_inv_cong [of "wtmem w" "avail (walloc w)" v "avail a" "wtmem w"]
    by (simp add: world_inv_def)
qed

lemma snd_omap_insert: "map_of xs k = None \<Longrightarrow> set (map snd (omap_insert k v xs)) = insert v (set (map snd xs))"
  by (induction k v xs rule: omap_insert.induct) (auto split: if_splits)

lemma distinct_snd_omap_insert:
  "map_of xs k = None \<Longrightarrow> distinct (map snd xs) \<Longrightarrow> v \<notin> set (map snd xs) \<Longrightarrow> distinct (map snd (omap_insert k v xs))"
proof (induction k v xs rule: omap_insert.induct)
  case (2 k v k' v' xs)
  then show ?case using snd_omap_insert [of xs k v] by (auto split: if_splits)
qed simp

lemma cow_insert_frames:
  assumes "cow_get c g = None" "cow_insert node_ok g new c = (Inr u, c')"
  shows "snd ` set (cow_map c') = insert new (snd ` set (cow_map c))"
    and "distinct (map snd (cow_map c)) \<Longrightarrow> new \<notin> snd ` set (cow_map c) \<Longrightarrow> distinct (map snd (cow_map c'))"
proof -
  have c': "cow_map c' = omap_insert (page_align g) new (cow_map c)"
    using assms(2) by (auto simp: cow_insert_def Let_def split: if_splits)
  show "snd ` set (cow_map c') = insert new (snd ` set (cow_map c))"
    using snd_omap_insert [of "cow_map c" "page_align g" new] assms(1) by (simp add: c' cow_get_def)
  show "distinct (map snd (cow_map c)) \<Longrightarrow> new \<notin> snd ` set (cow_map c) \<Longrightarrow> distinct (map snd (cow_map c'))"
    using distinct_snd_omap_insert [of "cow_map c" "page_align g" new] assms(1) by (simp add: c' cow_get_def)
qed

lemma cow_copy_page_transparent:
  assumes inv: "world_inv w (ForkedVm f p)" and fresh: "cow_get (f_cow f) g = None"
    and al_g: "page_align g = g" and phys: "guest_phys g"
    and run: "cow_copy_page node_ok f p g w = (b, f', w')"
  shows "cow_transparent p f w f' w'" "f_ept f' = f_ept f"
    "b \<Longrightarrow> \<exists>new. cow_get (f_cow f') g = Some new \<and> ept_lookup (wtmem w') (f_ept f') g = Some (new, READ_WRITE_EXECUTE)"
proof -
  let ?v = "ForkedVm f p"
  have ai: "allocator_inv (walloc w)" and vi: "vm_inv (wtmem w) (avail (walloc w)) ?v"
    using inv by (simp_all add: world_inv_def)
  have fo: "fork_ok (wtmem w) (avail (walloc w)) f p" and pv: "vm_inv (wtmem w) (avail (walloc w)) p"
    using vi by simp_all
  have "cow_transparent p f w f' w' \<and> f_ept f' = f_ept f \<and> (b \<longrightarrow>
    (\<exists>new. cow_get (f_cow f') g = Some new \<and> ept_lookup (wtmem w') (f_ept f') g = Some (new, READ_WRITE_EXECUTE)))"
    using run
  proof (cases rule: cow_copy_page_cases)
    case (nothing a)
    then show ?thesis using world_inv_alloc [OF inv] by (auto simp: cow_transparent_def)
  next
    case (dropped new a src)
    note al = kca.alloc_okD [OF ai dropped(3)]
    have keep: "\<forall>fr \<in> chain_frames ?v. hmem w' fr = hmem w fr"
      using chain_frames_disjoint [OF vi] al(3) dropped(5) by auto
    have "page_view ?v (hmem w') x = page_view ?v (hmem w) x" if "reachable_gpa x" for x
      using keep read_page_in_chain [OF vi _ that] by (cases "read_page ?v x") (simp_all add: page_view_def)
    moreover have "world_inv w' ?v" using world_inv_alloc [OF inv dropped(3)] dropped(5) by (simp add: world_inv_def)
    ultimately show ?thesis using dropped(1,2) keep by (simp add: cow_transparent_def)
  next
    case (inserted new a src c r t)
    have g: "page_align g = g" "reachable_gpa g"
      using al_g read_page_reachable [OF pv inserted(2) phys] by auto
    note al = kca.alloc_okD [OF ai inserted(1)]
    have keys: "reachable_gpa x" if "page_align x = g" for x
      using g(2) reachable_align_iff [of x] that by simp
    let ?v' = "ForkedVm f' p"
    note cinv = fork_okD(4) [OF fo]
    have c: "cow_inv c" "\<And>x. cow_get c x = (if page_align x = g then Some new else cow_get (f_cow f) x)"
      using kernel_map.ins_ok [OF cinv fresh inserted(3)] g(1) by simp_all
    have kr: "reachable_gpa x" if "cow_get c x = Some y" for x y
      using that c(2) [of x] keys [of x] fork_okD(5) [OF fo, of x y] by (cases "page_align x = g") simp_all
    have nin: "new \<notin> chain_frames ?v" using chain_frames_disjoint [OF vi] al(3) by auto
    have own: "own_frames ?v' = insert new (own_frames ?v)"
      using cow_insert_frames(1) [OF fresh inserted(3)] inserted(5) by simp
    have dist: "distinct (map snd (cow_map c))"
      using cow_insert_frames(2) [OF fresh inserted(3)] fork_okD(8) [OF fo] nin by simp
    note wf = fork_okD(1) [OF fo]
    note rm = remap_4k_spec [OF wf valid_perms_consts(1) inserted(4)]
    have pt: "vm_inv t (avail a) p"
    proof (rule vm_inv_cong [OF pv al(2)])
      fix u assume "u \<in> chain_tables p"
      then have "u \<notin> set (frames (f_ept f))" using fork_okD(3) [OF fo] by auto
      then show "t u = wtmem w u" by (rule rm(4))
    qed
    have look: "ept_lookup t (f_ept f) x = (if r = Inr () \<and> page_align x = g then Some (new, READ_WRITE_EXECUTE)
        else ept_lookup (wtmem w) (f_ept f) x)" if "reachable_gpa x" for x
      using rm(3) [of x] page_number_page_align [OF that g(2)] g(1) al(5) by simp
    have rd: "read_page ?v' x = (if page_align x = g then Some new else read_page ?v x)" for x
      by (simp add: read_page_Forked inserted(5) c(2))
    have hw: "hw_agrees t ?v'" unfolding hw_agrees_def
    proof (intro allI impI)
      fix x h pr assume x: "reachable_gpa x" "ept_lookup t (vm_ept ?v') x = Some (h, pr)"
      show "read_page ?v' x = Some h"
      proof (cases "page_align x = g")
        case True
        then have "ept_lookup (wtmem w) (f_ept f) x = ept_lookup (wtmem w) (f_ept f) g"
          using ept_lookup_align by metis
        then have "r = Inr ()" using x look [OF x(1)] rm(2) inserted(5) by (auto split: if_splits)
        then show ?thesis using x True look [OF x(1)] rd inserted(5) by simp
      next
        case False
        then show ?thesis using x look [OF x(1)] rd fork_okD(9) [OF fo] inserted(5) by (auto simp: hw_agrees_def)
      qed
    qed
    have wr: "cow_get c x = Some h" if "reachable_gpa x" "ept_lookup t (f_ept f) x = Some (h, pr)" "writable pr" for x h pr
    proof (cases "page_align x = g")
      case True
      then have "ept_lookup (wtmem w) (f_ept f) x = ept_lookup (wtmem w) (f_ept f) g"
        using ept_lookup_align by metis
      then have "r = Inr ()" using that look [OF that(1)] rm(2) by (auto split: if_splits)
      then show ?thesis using that look [OF that(1)] True c(2) [of x] by simp
    next
      case False
      then show ?thesis using that look [OF that(1)] c(2) [of x] fork_okD(10) [OF fo that(1) _ that(3)] by simp
    qed
    have keep: "\<forall>fr \<in> chain_frames ?v. hmem w' fr = hmem w fr" using nin inserted(8) by auto
    have view: "page_view ?v' (hmem w') x = page_view ?v (hmem w) x" if "reachable_gpa x" for x
    proof (cases "page_align x = g")
      case True
      then have "read_page ?v x = Some src"
        using inserted(2) fresh read_page_align [of p x] cow_get_align [of "f_cow f" x] by (simp add: read_page_Forked)
      then show ?thesis using True by (simp add: page_view_def rd inserted(8))
    next
      case False
      then show ?thesis using keep read_page_in_chain [OF vi _ that]
        by (cases "read_page ?v x") (simp_all add: page_view_def rd)
    qed
    have "fork_ok t (avail a) f' p"
      unfolding fork_ok_def own
    proof (intro conjI allI impI)
      show "set (frames (f_ept f')) \<inter> avail a = {}" "insert new (own_frames ?v) \<inter> avail a = {}"
        "insert new (own_frames ?v) \<inter> chain_frames p = {}"
        using fork_okD(2,6,7) [OF fo] al(2,4) nin by (auto simp: inserted(5) simp del: own_frames.simps)
      show "ept_wf t (f_ept f')" "set (frames (f_ept f')) \<inter> chain_tables p = {}" "cow_inv (f_cow f')"
        "distinct (map snd (cow_map (f_cow f')))"
        using rm(1) fork_okD(3) [OF fo] c(1) dist by (simp_all add: inserted(5))
      show "hw_agrees t ?v'" by (rule hw)
      show "reachable_gpa x" if "cow_get (f_cow f') x = Some y" for x y
        using kr [of x y] that by (simp add: inserted(5))
      show "cow_get (f_cow f') x = Some h" if "reachable_gpa x" "ept_lookup t (f_ept f') x = Some (h, pr)" "writable pr" for x h pr
        using wr [OF that(1) _ that(3), of h] that(2) by (simp add: inserted(5))
    qed
    then have "world_inv w' ?v'" using al(1) pt inserted(7,9) by (simp add: world_inv_def)
    moreover have "b \<longrightarrow> cow_get (f_cow f') g = Some new \<and> ept_lookup (wtmem w') (f_ept f') g = Some (new, READ_WRITE_EXECUTE)"
      using inserted(5,6,9) c(2) look [OF g(2)] g(1) by simp
    moreover have "own_frames ?v \<subseteq> own_frames ?v'" unfolding own by blast
    ultimately show ?thesis using keep view inserted(5) unfolding cow_transparent_def by simp
  qed
  then show "cow_transparent p f w f' w'" "f_ept f' = f_ept f"
    "b \<Longrightarrow> \<exists>new. cow_get (f_cow f') g = Some new \<and> ept_lookup (wtmem w') (f_ept f') g = Some (new, READ_WRITE_EXECUTE)"
    by blast+
qed

subsection \<open>A running fork\<close>

lemma handle_cow_fault_transparent:
  assumes inv: "world_inv w (ForkedVm f p)" and phys: "guest_phys gpa"
    and run: "handle_cow_fault node_ok f p gpa w = (r, f', w')"
  shows "cow_transparent p f w f' w'"
proof (cases "cow_contains (f_cow f) (page_align gpa)")
  case True
  then have f': "f' = f\<lparr>f_stale_tlb_faults := f_stale_tlb_faults f + 1\<rparr>" "w' = w"
    using run by (simp_all add: handle_cow_fault_def)
  have same: "read_page (ForkedVm f' p) x = read_page (ForkedVm f p) x" for x
    by (simp add: f' read_page_Forked)
  have "fork_ok t off f' p \<longleftrightarrow> fork_ok t off f p" for t off
    unfolding fork_ok_def hw_agrees_def by (simp add: f' read_page_Forked)
  then have "world_inv w (ForkedVm f' p)" using inv by (simp add: world_inv_def)
  moreover have "own_frames (ForkedVm f' p) = own_frames (ForkedVm f p)" by (simp add: f'(1))
  ultimately show ?thesis unfolding cow_transparent_def page_view_def same f'(2) by blast
next
  case False
  have fresh: "cow_get (f_cow f) (page_align gpa) = None" using False by (simp add: cow_contains_def cow_get_def)
  have phys': "guest_phys (page_align gpa)"
    using phys div_times_less_eq_dividend [of "unat gpa" 4096]
    by (simp add: guest_phys_def word_less_nat_alt unat_page_align)
  obtain b f1 w1 where c: "cow_copy_page node_ok f p (page_align gpa) w = (b, f1, w1)" by (metis prod_cases3)
  then have "f' = f1" "w' = w1" using run False by (cases b; simp add: handle_cow_fault_def)+
  then show ?thesis using cow_copy_page_transparent(1) [OF inv fresh page_align_idem phys' c] by simp
qed

lemma cow_pages_loop_transparent:
  assumes "world_inv w (ForkedVm f p)" "\<forall>g \<in> set gs. page_align g = g \<and> guest_phys g"
    and "cow_pages_loop node_ok p gs f w = (f', w')"
  shows "cow_transparent p f w f' w'"
  using assms
proof (induction gs arbitrary: f w)
  case Nil
  then show ?case by (simp add: cow_transparent_refl)
next
  case (Cons g gs)
  show ?case
  proof (cases "cow_contains (f_cow f) g")
    case True
    then show ?thesis using Cons by simp
  next
    case False
    then have fresh: "cow_get (f_cow f) g = None" by (simp add: cow_contains_def cow_get_def)
    obtain b f1 w1 where c: "cow_copy_page node_ok f p g w = (b, f1, w1)" by (metis prod_cases3)
    have g: "page_align g = g" "guest_phys g" using Cons.prems(2) by simp_all
    note t = cow_copy_page_transparent(1) [OF Cons.prems(1) fresh g c]
    have "world_inv w1 (ForkedVm f1 p)" using t by (simp only: cow_transparent_def)
    moreover have "cow_pages_loop node_ok p gs f1 w1 = (f', w')" using Cons.prems(3) False c by simp
    ultimately have "cow_transparent p f1 w1 f' w'" using Cons.IH [of w1 f1] Cons.prems(2) by simp
    then show ?thesis using t by (rule cow_transparent_trans [rotated])
  qed
qed

lemma write_frame_other: "fr \<noteq> x \<Longrightarrow> write_frame x off bs h fr = h fr"
  by (simp add: write_frame_def)

lemma forked_write_frames:
  "forked_write f gpa bs h = (r, h') \<Longrightarrow> fr \<notin> own_frames (ForkedVm f p) \<Longrightarrow> h' fr = h fr"
proof (induction f gpa bs h arbitrary: r h' rule: forked_write.induct)
  case (1 f gpa bs h)
  let ?av = "PAGE_SIZE - unat (gpa AND 0xFFF)"
  show ?case
  proof (cases "cow_get (f_cow f) (page_align gpa)")
    case None
    then show ?thesis using "1.prems"(1) by (subst (asm) forked_write.simps) (simp add: Let_def)
  next
    case (Some x)
    then have "fr \<noteq> x" using "1.prems"(2) cow_get_own [of f "page_align gpa" x p] by blast
    then show ?thesis
      using "1.IH" [OF refl refl refl Some] "1.prems" Some
      by (subst (asm) (2) forked_write.simps) (auto simp: Let_def write_frame_other split: if_splits)
  qed
qed

inductive child_step :: "vm \<Rightarrow> forked_vm \<times> world \<Rightarrow> forked_vm \<times> world \<Rightarrow> bool" for p where
  guest_store: "reachable_gpa gpa \<Longrightarrow> ept_lookup (wtmem w) (f_ept f) gpa = Some (h, pr) \<Longrightarrow> writable pr \<Longrightarrow>
    child_step p (f, w) (f, w\<lparr>hmem := write_frame h (unat (gpa AND 0xFFF)) [b] (hmem w)\<rparr>)"
| cow_fault: "guest_phys gpa \<Longrightarrow> handle_cow_fault node_ok f p gpa w = (r, f', w') \<Longrightarrow> child_step p (f, w) (f', w')"
| hypervisor_write: "forked_write f gpa bs (hmem w) = (r, h') \<Longrightarrow> child_step p (f, w) (f, w\<lparr>hmem := h'\<rparr>)"
| map_feedback: "(\<forall>fb \<in> set (f_feedback f). \<forall>b. fb = Some b \<longrightarrow> (\<forall>g \<in> set (fb_gpas b). page_align g = g \<and> guest_phys g)) \<Longrightarrow>
    cow_feedback_buffer_for_mapping node_ok f p index w = (f', w') \<Longrightarrow> child_step p (f, w) (f', w')"
| pool_refill: "pool (walloc w) = Some pl \<Longrightarrow> page_pool_refill push_ok pl (linux_pages (walloc w)) = (b, pl', ls') \<Longrightarrow>
    child_step p (f, w) (f, w\<lparr>walloc := (walloc w)\<lparr>pool := Some pl', linux_pages := ls'\<rparr>\<rparr>)"

inductive_cases child_stepE: "child_step p s s'"

text \<open>Of a step from an invariant state: the invariant again, and the parent's frames as before.\<close>

definition isolated :: "vm \<Rightarrow> forked_vm \<times> world \<Rightarrow> forked_vm \<times> world \<Rightarrow> bool" where
  "isolated p s s' \<longleftrightarrow> world_inv (snd s') (ForkedVm (fst s') p) \<and>
     (\<forall>fr \<in> chain_frames p. hmem (snd s') fr = hmem (snd s) fr)"

lemma isolated_of_transparent: "cow_transparent p f w f' w' \<Longrightarrow> isolated p (f, w) (f', w')"
  unfolding cow_transparent_def isolated_def by (simp add: ball_Un)

lemma isolated_of_own_write:
  assumes inv: "world_inv w (ForkedVm f p)" and same: "\<And>fr. fr \<notin> own_frames (ForkedVm f p) \<Longrightarrow> h' fr = hmem w fr"
  shows "isolated p (f, w) (f, w\<lparr>hmem := h'\<rparr>)"
proof -
  have "own_frames (ForkedVm f p) \<inter> chain_frames p = {}"
    using inv fork_okD(7) unfolding world_inv_def vm_inv.simps by blast
  then have "\<forall>fr \<in> chain_frames p. h' fr = hmem w fr" using same by blast
  then show ?thesis using inv by (simp add: isolated_def world_inv_def)
qed

lemma refill_isolated:
  assumes inv: "world_inv w v" and pl: "pool (walloc w) = Some pl"
    and run: "page_pool_refill push_ok pl (linux_pages (walloc w)) = (b, pl', ls')"
  shows "world_inv (w\<lparr>walloc := (walloc w)\<lparr>pool := Some pl', linux_pages := ls'\<rparr>\<rparr>) v"
proof -
  let ?a = "walloc w" and ?a' = "(walloc w)\<lparr>pool := Some pl', linux_pages := ls'\<rparr>"
  obtain fs ds where fs: "pages pl' = pages pl @ fs"
    "List.map_filter (\<lambda>r. r) (linux_pages ?a) = fs @ ds @ List.map_filter (\<lambda>r. r) ls'"
  proof (cases "target pl div 20 \<le> length (pages pl)")
    case True
    then show thesis using that [of "[]" "[]"] run by (simp add: page_pool_refill_def)
  next
    case False
    then show thesis using that refill_loop_on_offer [of push_ok pl "linux_pages ?a" b pl' ls'] run
      by (auto simp: page_pool_refill_def)
  qed
  then have "on_offer ?a = pages pl @ fs @ ds @ List.map_filter (\<lambda>r. r) ls'"
    "on_offer ?a' = pages pl @ fs @ List.map_filter (\<lambda>r. r) ls'"
    using pl by (simp_all add: on_offer_def)
  then have "allocator_inv ?a'" "avail ?a' \<subseteq> avail ?a"
    using inv by (auto simp: world_inv_def allocator_inv_def avail_def)
  then show ?thesis using inv vm_inv_cong [of "wtmem w" "avail ?a" v "avail ?a'" "wtmem w"]
    by (simp add: world_inv_def)
qed

lemma child_step_isolated:
  assumes step: "child_step p s s'" and inv: "world_inv (snd s) (ForkedVm (fst s) p)"
  shows "isolated p s s'"
  using step inv
proof cases
  case (guest_store gpa w f h pr b)
  have "fork_ok (wtmem w) (avail (walloc w)) f p" using inv guest_store(1) by (simp add: world_inv_def)
  then have "cow_get (f_cow f) gpa = Some h" using fork_okD(10) guest_store(3,4,5) by blast
  then have "h \<in> own_frames (ForkedVm f p)" by (rule cow_get_own)
  then show ?thesis using guest_store inv
    by (simp del: own_frames.simps) (rule isolated_of_own_write, simp, metis write_frame_other)
next
  case (cow_fault gpa node_ok f w r f' w')
  then show ?thesis using handle_cow_fault_transparent isolated_of_transparent inv by simp
next
  case (hypervisor_write f gpa bs w r h')
  then show ?thesis using inv forked_write_frames [OF hypervisor_write(3)]
    by (simp del: own_frames.simps) (rule isolated_of_own_write, simp, blast)
next
  case (map_feedback f node_ok index w f' w')
  have "cow_transparent p f w f' w'"
  proof (cases "index < length (f_feedback f) \<and> f_feedback f ! index \<noteq> None")
    case True
    then obtain fb where fb: "f_feedback f ! index = Some fb" and i: "index < length (f_feedback f)" by blast
    have "\<forall>g \<in> set (take (fb_num_pages fb) (fb_gpas fb)). page_align g = g \<and> guest_phys g"
      using map_feedback(3) fb nth_mem [OF i] by (metis in_set_takeD)
    then show ?thesis using cow_pages_loop_transparent [of w f p] map_feedback(1,4) inv fb i
      by (simp add: cow_feedback_buffer_for_mapping_def)
  next
    case False
    then show ?thesis using map_feedback(1,4) inv cow_transparent_refl
      by (auto simp: cow_feedback_buffer_for_mapping_def split: if_splits)
  qed
  then show ?thesis using map_feedback isolated_of_transparent by simp
next
  case (pool_refill w pl push_ok b pl' ls' f)
  then show ?thesis using refill_isolated inv by (simp add: isolated_def)
qed

lemma child_run_isolated:
  assumes "(child_step p)\<^sup>*\<^sup>* s s'" "world_inv (snd s) (ForkedVm (fst s) p)"
  shows "isolated p s s'"
  using assms
proof (induction rule: rtranclp_induct)
  case base
  then show ?case by (simp add: isolated_def)
next
  case (step s1 s2)
  then show ?case using child_step_isolated [of p s1 s2] by (simp add: isolated_def)
qed

end
