(* ===== verification/Ept_Supply.thy ===== *)
theory Ept_Supply
  imports Ept_Laws
begin

text \<open>
  When the page-table operations succeed.  An allocator that can still hand out a known
  number of frames never refuses before they are used up; \<open>map_4k\<close> needs at most three,
  and the clone of a page table exactly as many as the source has tables.
\<close>

subsection \<open>Tables below a table\<close>

primrec tables_below :: "table_mem \<Rightarrow> nat \<Rightarrow> u64 \<Rightarrow> nat" where
  "tables_below m 0 src = 0"
| "tables_below m (Suc n) src =
     sum_list (map (\<lambda>i. if is_present (m src i) then Suc (tables_below m n (entry_addr (m src i))) else 0) [0..<512])"

lemma tables_below_cong:
  assumes "\<And>is u. is \<in> level_paths n \<Longrightarrow> walk m src is = Some u \<Longrightarrow> m' u = m u"
  shows "tables_below m' n src = tables_below m n src"
  using assms
proof (induction n arbitrary: src)
  case (Suc n)
  have "m' src = m src" using Suc.prems [of "[]"] by (simp add: level_paths_def)
  moreover have "tables_below m' n (entry_addr (m src i)) = tables_below m n (entry_addr (m src i))"
    if "is_present (m src i)" "i < 512" for i
  proof (rule Suc.IH)
    fix "is" u assume "is \<in> level_paths n" "walk m (entry_addr (m src i)) is = Some u"
    then show "m' u = m u" using Suc.prems [of "i # is" u] that by simp
  qed
  ultimately show ?case
    unfolding tables_below.simps by (intro arg_cong [of _ _ sum_list] map_cong refl) simp
qed simp

text \<open>In a well-formed page table every table is reached along one path, so there are no more of
  them than recorded frames.\<close>

definition table_walks :: "table_mem \<Rightarrow> nat \<Rightarrow> u64 \<Rightarrow> nat list set" where
  "table_walks m n src = {is \<in> level_paths n. walk m src is \<noteq> None}"

lemma level_paths_Suc: "level_paths (Suc n) = insert [] (\<Union>i < 512. (#) i ` level_paths n)"
proof (intro set_eqI iffI)
  fix "is" assume "is \<in> level_paths (Suc n)"
  then show "is \<in> insert [] (\<Union>i < 512. (#) i ` level_paths n)" by (cases "is") (auto simp: level_paths_def)
qed (auto simp: level_paths_def)

lemma table_walks_Suc:
  "table_walks m (Suc n) src =
     insert [] (\<Union>i \<in> {i. i < 512 \<and> is_present (m src i)}. (#) i ` table_walks m n (entry_addr (m src i)))"
  unfolding table_walks_def level_paths_Suc by (auto split: if_splits)

lemma card_table_walks: "finite (table_walks m n src) \<and> card (table_walks m n src) = Suc (tables_below m n src)"
proof (induction n arbitrary: src)
  case 0
  have "table_walks m 0 src = {[]}" by (auto simp: table_walks_def level_paths_def)
  then show ?case by simp
next
  case (Suc n)
  let ?I = "{i. i < 512 \<and> is_present (m src i)}"
  let ?B = "\<lambda>i. (#) i ` table_walks m n (entry_addr (m src i))"
  have card: "card (?B i) = Suc (tables_below m n (entry_addr (m src i)))" for i
    using Suc.IH by (simp add: card_image)
  have "card (\<Union>i \<in> ?I. ?B i) = (\<Sum>i \<in> ?I. card (?B i))"
    by (rule card_UN_disjoint) (use Suc.IH in auto)
  also have "\<dots> = (\<Sum>i \<in> {..<512}. if is_present (m src i) then Suc (tables_below m n (entry_addr (m src i))) else 0)"
    unfolding card by (subst sum.inter_filter [symmetric]) (auto intro: sum.cong)
  also have "\<dots> = tables_below m (Suc n) src"
    unfolding tables_below.simps by (simp only: interv_sum_list_conv_sum_set_nat set_upt atLeast0LessThan)
  finally have "card (\<Union>i \<in> ?I. ?B i) = tables_below m (Suc n) src" .
  moreover have "finite (\<Union>i \<in> ?I. ?B i)" using Suc.IH by simp
  moreover have "[] \<notin> (\<Union>i \<in> ?I. ?B i)" by auto
  ultimately show ?case unfolding table_walks_Suc by simp
qed

lemma tables_below_frames:
  assumes "ept_wf m pt"
  shows "tables_below m 3 (pml4_phys pt) < frame_count pt"
proof -
  have tree: "tree_at m (pml4_phys pt) (set (frames pt))" using assms by (simp add: ept_wf_def)
  let ?W = "table_walks m 3 (pml4_phys pt)"
  have "inj_on (\<lambda>is. the (walk m (pml4_phys pt) is)) ?W"
    using tree_atD(3) [OF tree] by (auto simp: inj_on_def table_walks_def level_paths_3)
  moreover have "(\<lambda>is. the (walk m (pml4_phys pt) is)) ` ?W \<subseteq> set (frames pt)"
    using tree_atD(1) [OF tree] by (auto simp: table_walks_def level_paths_3)
  ultimately have "card ?W \<le> card (set (frames pt))" by (rule card_inj_on_le) simp
  also have "\<dots> \<le> frame_count pt" by (simp add: frame_count_def card_length)
  finally show ?thesis using card_table_walks [of m 3 "pml4_phys pt"] by simp
qed

subsection \<open>Allocators with a known supply\<close>

locale supplied_allocator = frame_allocator alloc ainv offered
  for alloc :: "('a, 'e, u64) fallible" and ainv and offered +
  fixes stock :: "'a \<Rightarrow> nat"
  assumes stock_alloc: "0 < stock a \<Longrightarrow> \<exists>f a'. alloc a = (Inr f, a') \<and> stock a = Suc (stock a')"
begin

lemma clone_body_supplied:
  assumes inner: "\<And>src dst s r s'. ainv (allocator s) \<Longrightarrow> src_stable n src dst s \<Longrightarrow>
      tables_below (tmem s) n src \<le> stock (allocator s) \<Longrightarrow> clone_table alloc n src dst s = (r, s') \<Longrightarrow>
      r = Inr () \<and> stock (allocator s) = stock (allocator s') + tables_below (tmem s) n src"
    and st: "src_stable (Suc n) src dst s" and fr: "clone_frame dst s s1" and j: "j < 512"
    and enough: "(if is_present (tmem s src j) then Suc (tables_below (tmem s) n (entry_addr (tmem s src j))) else 0)
      \<le> stock (allocator s1)"
    and run: "clone_body n src dst j s1 = (r, s2)"
  shows "r = Inr () \<and> stock (allocator s1) = stock (allocator s2) +
    (if is_present (tmem s src j) then Suc (tables_below (tmem s) n (entry_addr (tmem s src j))) else 0)"
proof -
  have a: "ainv (allocator s1)" and off1: "offered (allocator s1) \<subseteq> offered (allocator s)"
    using fr by (simp_all add: clone_frame_def)
  have src: "tmem s1 src = tmem s src" using fr src_stable_self [OF st] by (simp add: clone_frame_def)
  show ?thesis using run
  proof (cases rule: clone_body_cases)
    case skip
    then show ?thesis using src by simp
  next
    case (oom e a1)
    then show ?thesis using enough src stock_alloc [of "allocator s1"] by auto
  next
    case (sub f a1)
    define s1' where "s1' = link_new f dst j (entry_permissions (tmem s1 src j)) (s1\<lparr>allocator := a1\<rparr>)"
    let ?src = "entry_addr (tmem s src j)"
    have present: "is_present (tmem s src j)" using sub(1) src by simp
    note al = alloc_okD [OF a sub(2)]
    have sup: "stock (allocator s1) = Suc (stock a1)"
      using stock_alloc [of "allocator s1"] enough present sub(2) by auto
    have s1': "allocator s1' = a1" "\<And>u. u \<noteq> dst \<Longrightarrow> u \<noteq> f \<Longrightarrow> tmem s1' u = tmem s1 u"
      by (auto simp: s1'_def link_new_def set_entry_def zero_frame_def)
    have f: "f \<in> offered (allocator s)" "offered (allocator s1') \<subseteq> offered (allocator s)"
      using al(2,3) off1 s1'(1) by auto
    note stable = src_stable_frame [OF src_stable_child [OF st present j] fr f(1) s1'(2) f(2)]
    have cost: "tables_below (tmem s1') n ?src = tables_below (tmem s) n ?src"
      by (rule tables_below_cong [OF stable(2)])
    have "r = Inr () \<and> stock (allocator s1') = stock (allocator s2) + tables_below (tmem s1') n ?src"
    proof (rule inner [OF _ stable(1)])
      show "ainv (allocator s1')" using al(1) s1'(1) by simp
      show "tables_below (tmem s1') n ?src \<le> stock (allocator s1')" using enough present sup s1'(1) cost by simp
      show "clone_table alloc n ?src f s1' = (r, s2)" using sub(3) src by (simp add: s1'_def)
    qed
    then show ?thesis using sup s1'(1) cost present by simp
  qed
qed

lemma clone_table_supplied:
  "ainv (allocator s) \<Longrightarrow> src_stable n src dst s \<Longrightarrow> tables_below (tmem s) n src \<le> stock (allocator s) \<Longrightarrow>
   clone_table alloc n src dst s = (r, s') \<Longrightarrow>
   r = Inr () \<and> stock (allocator s) = stock (allocator s') + tables_below (tmem s) n src"
proof (induction n arbitrary: src dst s r s')
  case 0
  have ne: "src \<noteq> dst" using src_stable_self [OF 0(2)] by simp
  from 0(4) [unfolded clone_table.simps clone_leaves [OF ne]] show ?case by auto
next
  case (Suc n)
  note outer = Suc.IH and stable = Suc.prems(2)
  let ?c = "\<lambda>i. if is_present (tmem s src i) then Suc (tables_below (tmem s) n (entry_addr (tmem s src i))) else 0"
  have loop: "for_each [0..<j] (clone_body n src dst) s = (r1, s1) \<Longrightarrow> j \<le> 512 \<Longrightarrow>
      sum_list (map ?c [0..<j]) \<le> stock (allocator s) \<Longrightarrow>
      r1 = Inr () \<and> stock (allocator s) = stock (allocator s1) + sum_list (map ?c [0..<j])" for j r1 s1
  proof (induction j arbitrary: r1 s1)
    case (Suc j)
    obtain r0 s0 where first: "for_each [0..<j] (clone_body n src dst) s = (r0, s0)" by force
    have le: "sum_list (map ?c [0..<j]) + ?c j \<le> stock (allocator s)" using Suc.prems(3) by simp
    have IH: "r0 = Inr ()" "stock (allocator s) = stock (allocator s0) + sum_list (map ?c [0..<j])"
      using Suc.IH [OF first] Suc.prems(2) le by simp_all
    have body: "clone_body n src dst j s0 = (r1, s1)"
      using Suc.prems(1) first IH(1) by (auto simp: for_each_append split: sum.splits prod.splits)
    have fr: "clone_frame dst s s0"
      by (rule clone_loop_frame [OF clone_table_frame \<open>ainv (allocator s)\<close> first])
    have "r1 = Inr () \<and> stock (allocator s0) = stock (allocator s1) + ?c j"
      by (rule clone_body_supplied [OF outer stable fr _ _ body])
        (use Suc.prems(2) le IH(2) in simp_all)
    then show ?case using IH(2) by simp
  qed simp
  show ?case using loop [OF Suc.prems(4) [unfolded clone_table_Suc]] Suc.prems(3) by (simp only: tables_below.simps order.refl)
qed

lemma ensure_table_supplied:
  assumes "k < stock (allocator s)"
  shows "\<exists>t s'. ensure_table alloc tab i p s = (Inr t, s') \<and> k \<le> stock (allocator s')"
  using assms stock_alloc [of "allocator s"] by (auto simp: ensure_table_def Let_def alloc_in_def)

lemma map_4k_supplied:
  assumes "3 \<le> stock (allocator s)"
  shows "\<exists>s'. map_4k alloc gpa hpa p mt s = (Inr (), s')"
proof -
  obtain t1 s1 where 1: "ensure_table alloc (pml4_phys (ept s)) (pml4_index gpa) p s = (Inr t1, s1)" "2 \<le> stock (allocator s1)"
    using ensure_table_supplied [of 2 s] assms by fastforce
  obtain t2 s2 where 2: "ensure_table alloc t1 (pdpt_index gpa) p s1 = (Inr t2, s2)" "1 \<le> stock (allocator s2)"
    using ensure_table_supplied [of 1 s1] 1(2) by fastforce
  obtain t3 s3 where 3: "ensure_table alloc t2 (pd_index gpa) p s2 = (Inr t3, s3)"
    using ensure_table_supplied [of 0 s2] 2(2) by fastforce
  show ?thesis by (simp add: map_4k_def and_then_def 1(1) 2(1) 3)
qed

text \<open>The whole clone takes one frame for each table of the source.\<close>

lemma clone_for_fork_supplied:
  assumes inv: "ainv a" and wf: "ept_wf m pt" and disj: "set (frames pt) \<inter> offered a = {}"
    and enough: "tables_below m 3 (pml4_phys pt) < stock a"
  shows "\<exists>pt' m' a'. clone_for_fork alloc pt m a = (Inr pt', m', a') \<and>
    stock a = stock a' + Suc (tables_below m 3 (pml4_phys pt))"
proof -
  have tree: "tree_at m (pml4_phys pt) (set (frames pt))" using wf by (simp add: ept_wf_def)
  obtain f a1 where al: "alloc a = (Inr f, a1)" and st: "stock a = Suc (stock a1)"
    using stock_alloc [of a] enough by auto
  note f = alloc_okD [OF inv al]
  let ?s = "\<lparr>ept = \<lparr>pml4_phys = f, frames = [f]\<rparr>, tmem = zero_frame f m, allocator = a1\<rparr>"
  have same: "zero_frame f m u = m u" if "u \<in> set (frames pt)" for u
    using that f(3) disj by (auto simp: zero_frame_def)
  have w: "walk (zero_frame f m) (pml4_phys pt) is = walk m (pml4_phys pt) is" if "is \<in> table_paths" for "is"
    by (rule walk_cong [OF tree that same])
  have stable: "src_stable 3 (pml4_phys pt) f ?s"
    using tree_atD(1) [OF tree] disj f(2,3) by (auto simp: src_stable_def level_paths_3 w)
  have cost: "tables_below (zero_frame f m) 3 (pml4_phys pt) = tables_below m 3 (pml4_phys pt)"
    by (rule tables_below_cong) (use tree_atD(1) [OF tree] same in \<open>auto simp: level_paths_3\<close>)
  obtain r s where cl: "clone_table alloc 3 (pml4_phys pt) f ?s = (r, s)" by force
  have "r = Inr () \<and> stock a1 = stock (allocator s) + tables_below m 3 (pml4_phys pt)"
    using clone_table_supplied [OF _ stable _ cl] f(1) enough st cost by simp
  then show ?thesis using al cl st by (simp add: clone_for_fork_def)
qed

end

subsection \<open>The kernel's allocator\<close>

text \<open>With a pool, the pages of the pool; without, the pages the kernel grants before it first refuses.\<close>

definition kernel_stock :: "kernel_frame_allocator \<Rightarrow> nat" where
  "kernel_stock a = (case pool a of Some p \<Rightarrow> length (pages p)
     | None \<Rightarrow> length (takeWhile (\<lambda>r. r \<noteq> None) (linux_pages a)))"

interpretation kfs: supplied_allocator allocate_frame allocator_inv avail kernel_stock
proof
  fix a assume *: "0 < kernel_stock a"
  show "\<exists>f a'. allocate_frame a = (Inr f, a') \<and> kernel_stock a = Suc (kernel_stock a')"
  proof (cases "pool a")
    case None
    with * obtain f ls where "linux_pages a = Some f # ls"
      by (cases "linux_pages a") (auto simp: kernel_stock_def split: if_splits)
    then show ?thesis using None by (simp add: allocate_frame_def kernel_stock_def)
  next
    case (Some p)
    with * show ?thesis
      by (cases "pages p" rule: rev_cases) (auto simp: allocate_frame_def kernel_stock_def page_pool_take_def)
  qed
qed

end
