(* ===== verification/Fork_Props.thy ===== *)
theory Fork_Props
  imports Fork_Laws Ept_Supply
begin

text \<open>
  The life of a VM: a root VM is built with every guest page mapped, a fork starts with
  its parent's memory, runs without being visible to the parent, and reads as the flat
  memory that its page view describes.  The properties of forking stand here; the
  invariant and its preservation are in \<open>Fork_Laws\<close>.
\<close>

subsection \<open>Building the root VM\<close>

text \<open>What \<open>RootVm::new\<close> relies on from the memory it is given: whole pages, within the
  reach of the walk, each backed by a frame that the allocator does not hand out.\<close>

definition guest_memory_ok :: "guest_memory \<Rightarrow> u64 set \<Rightarrow> bool" where
  "guest_memory_ok g off \<longleftrightarrow> gm_size g mod PAGE_SIZE = 0 \<and> gm_size g \<le> 0x1000000000000 \<and>
     (\<forall>i < gm_size g div PAGE_SIZE. gm_frame g i AND ADDR_MASK = gm_frame g i \<and> gm_frame g i \<notin> off)"

text \<open>The translation after the first \<open>k\<close> pages.\<close>

definition mapped_upto :: "guest_memory \<Rightarrow> nat \<Rightarrow> u64 \<Rightarrow> (u64 \<times> ept_permissions) option" where
  "mapped_upto g k x =
     (if unat x div PAGE_SIZE < k \<and> \<not> is_mmio_page (page_align x)
      then Some (gm_frame g (unat x div PAGE_SIZE), READ_WRITE_EXECUTE) else None)"

lemma page_align_eq_of_nat:
  assumes "k * PAGE_SIZE < 0x1000000000000"
  shows "page_align x = of_nat (k * PAGE_SIZE) \<longleftrightarrow> unat x div PAGE_SIZE = k"
proof -
  have "unat (of_nat (k * PAGE_SIZE) :: u64) = k * PAGE_SIZE"
    using assms by (intro unat_of_nat_id) (simp add: PAGE_SIZE_def)
  then have "page_align x = of_nat (k * PAGE_SIZE) \<longleftrightarrow> unat x div 4096 * 4096 = k * 4096"
    by (simp add: word_unat_eq_iff unat_page_align PAGE_SIZE_def)
  then show ?thesis by (simp add: PAGE_SIZE_def)
qed

lemma page_align_of_nat:
  assumes "k * PAGE_SIZE < 0x1000000000000"
  shows "page_align (of_nat (k * PAGE_SIZE)) = of_nat (k * PAGE_SIZE)"
    "reachable_gpa (of_nat (k * PAGE_SIZE))"
proof -
  have u: "unat (of_nat (k * PAGE_SIZE) :: u64) = k * PAGE_SIZE"
    using assms by (intro unat_of_nat_id) (simp add: PAGE_SIZE_def)
  then show "page_align (of_nat (k * PAGE_SIZE)) = of_nat (k * PAGE_SIZE)"
    using page_align_eq_of_nat [OF assms, of "of_nat (k * PAGE_SIZE)"] by (simp add: PAGE_SIZE_def)
  show "reachable_gpa (of_nat (k * PAGE_SIZE))" using assms u by (simp add: reachable_gpa_def word_less_nat_alt)
qed

lemma map_guest_page_spec:
  assumes inv: "ept_inv allocator_inv avail s" and k: "k * PAGE_SIZE < 0x1000000000000"
    and fr: "gm_frame g k AND ADDR_MASK = gm_frame g k"
    and before: "\<And>x. reachable_gpa x \<Longrightarrow> ept_lookup (tmem s) (ept s) x = mapped_upto g k x"
    and run: "map_guest_page g k s = (Inr u, s')"
  shows "ept_inv allocator_inv avail s'" "avail (allocator s') \<subseteq> avail (allocator s)"
    "reachable_gpa x \<Longrightarrow> ept_lookup (tmem s') (ept s') x = mapped_upto g (Suc k) x"
proof -
  let ?gpa = "of_nat (k * PAGE_SIZE) :: u64"
  note gpa = page_align_of_nat [OF k]
  have at: "page_align x = ?gpa \<longleftrightarrow> unat x div PAGE_SIZE = k" for x by (rule page_align_eq_of_nat [OF k])
  have "ept_inv allocator_inv avail s' \<and> avail (allocator s') \<subseteq> avail (allocator s) \<and>
    (reachable_gpa x \<longrightarrow> ept_lookup (tmem s') (ept s') x = mapped_upto g (Suc k) x)"
  proof (cases "is_mmio_page ?gpa")
    case True
    then have "s' = s" using run by (simp add: map_guest_page_def Let_def)
    moreover have "mapped_upto g (Suc k) x = mapped_upto g k x" for x
      using True at [of x] by (auto simp: mapped_upto_def less_Suc_eq)
    ultimately show ?thesis using inv before by simp
  next
    case False
    then obtain hpa where hpa: "page_phys_addr g (k * PAGE_SIZE) = Some hpa"
      and m: "map_4k allocate_frame ?gpa hpa READ_WRITE_EXECUTE WriteBack s = (Inr (), s')"
      using run by (auto simp: map_guest_page_def Let_def split: option.splits sum.splits prod.splits)
    have h: "hpa = gm_frame g k"
      using hpa by (auto simp: page_phys_addr_def Let_def PAGE_SIZE_def split: if_splits)
    note spec = kfa.map_4k_spec [OF inv valid_perms_consts(1) m]
    have "ept_lookup (tmem s') (ept s') x = mapped_upto g (Suc k) x" if x: "reachable_gpa x"
      using spec(3) [of x] page_number_page_align [OF x gpa(2)] gpa(1) at [of x] before [OF x] False h fr
      by (auto simp: mapped_upto_def less_Suc_eq)
    then show ?thesis using spec(1,2) by blast
  qed
  then show "ept_inv allocator_inv avail s'" "avail (allocator s') \<subseteq> avail (allocator s)"
    "reachable_gpa x \<Longrightarrow> ept_lookup (tmem s') (ept s') x = mapped_upto g (Suc k) x" by blast+
qed

lemma map_guest_pages_spec:
  assumes "ept_inv allocator_inv avail s" and "\<And>x. ept_lookup (tmem s) (ept s) x = None"
    and "for_each [0..<k] (map_guest_page g) s = (Inr (), s')"
    and "k * PAGE_SIZE \<le> 0x1000000000000" and "\<And>i. i < k \<Longrightarrow> gm_frame g i AND ADDR_MASK = gm_frame g i"
  shows "ept_inv allocator_inv avail s' \<and> avail (allocator s') \<subseteq> avail (allocator s) \<and>
    (\<forall>x. reachable_gpa x \<longrightarrow> ept_lookup (tmem s') (ept s') x = mapped_upto g k x)"
  using assms(3-5)
proof (induction k arbitrary: s')
  case 0
  then show ?case using assms(1,2) by (simp add: mapped_upto_def)
next
  case (Suc k)
  obtain s1 where s1: "for_each [0..<k] (map_guest_page g) s = (Inr (), s1)" "map_guest_page g k s1 = (Inr (), s')"
    using Suc.prems(1) by (auto simp: for_each_append split: sum.splits prod.splits)
  have k: "k * PAGE_SIZE < 0x1000000000000" "k * PAGE_SIZE \<le> 0x1000000000000"
    using Suc.prems(2) by (simp_all add: PAGE_SIZE_def)
  have IH: "ept_inv allocator_inv avail s1" "avail (allocator s1) \<subseteq> avail (allocator s)"
    "\<And>x. reachable_gpa x \<Longrightarrow> ept_lookup (tmem s1) (ept s1) x = mapped_upto g k x"
    using Suc.IH [OF s1(1) k(2)] Suc.prems(3) by simp_all
  show ?case
    using map_guest_page_spec [OF IH(1) k(1) Suc.prems(3) IH(3) s1(2)] IH(2) by blast
qed

definition root_world :: "host_mem \<Rightarrow> kernel_frame_allocator ept_state \<Rightarrow> world" where
  "root_world h s = \<lparr>hmem = h, wtmem = tmem s, walloc = allocator s, invepts = []\<rparr>"

lemma root_vm_new_spec:
  assumes inv: "allocator_inv a" and g: "guest_memory_ok g (avail a)" and run: "root_vm_new g m a = Inr (r, s)"
  shows "world_inv (root_world h s) (RootVm r)" "r_memory r = g" "r_children r = 0"
    "reachable_gpa x \<Longrightarrow> ept_lookup (tmem s) (r_ept r) x = mapped_upto g (gm_size g div PAGE_SIZE) x"
proof -
  let ?n = "gm_size g div PAGE_SIZE"
  have n: "div_ceil (gm_size g) PAGE_SIZE = ?n" "?n * PAGE_SIZE = gm_size g" "gm_size g \<le> 0x1000000000000"
    using g by (auto simp: guest_memory_ok_def div_ceil_def)
  obtain s0 where s0: "ept_new allocate_frame m a = Inr s0"
    and fe: "for_each [0..<?n] (map_guest_page g) s0 = (Inr (), s)"
    and r: "r = \<lparr>r_ept = ept s, r_memory = g, r_children = 0\<rparr>"
    using run by (auto simp: root_vm_new_def n split: sum.splits prod.splits)
  note new = kfa.ept_new_spec [OF inv s0]
  have fr: "i < ?n \<Longrightarrow> gm_frame g i AND ADDR_MASK = gm_frame g i" for i using g by (simp add: guest_memory_ok_def)
  have all: "ept_inv allocator_inv avail s" "avail (allocator s) \<subseteq> avail (allocator s0)"
    "\<And>x. reachable_gpa x \<Longrightarrow> ept_lookup (tmem s) (ept s) x = mapped_upto g ?n x"
    using map_guest_pages_spec [OF new(1,2) fe _ fr] n by auto
  have off: "avail (allocator s) \<subseteq> avail a" using all(2) new(4) by blast
  have own: "own_frames (RootVm r) \<inter> avail (allocator s) = {}"
    using g off by (auto simp: r n guest_memory_ok_def)
  have hw: "hw_agrees (tmem s) (RootVm r)" unfolding hw_agrees_def
  proof (intro allI impI)
    fix x fr p assume x: "reachable_gpa x" "ept_lookup (tmem s) (vm_ept (RootVm r)) x = Some (fr, p)"
    then have lt: "unat x div PAGE_SIZE < ?n" and f: "fr = gm_frame g (unat x div PAGE_SIZE)"
      using all(3) [OF x(1)] by (auto simp: r mapped_upto_def split: if_splits)
    have "unat (page_align x + 0x1000) = unat x div PAGE_SIZE * PAGE_SIZE + PAGE_SIZE"
      using unat_next_page [of x] x(1) by (simp add: reachable_gpa_def word_less_nat_alt PAGE_SIZE_def)
    also have "\<dots> \<le> ?n * PAGE_SIZE" using lt by (simp add: PAGE_SIZE_def)
    finally show "read_page (RootVm r) x = Some fr"
      by (simp add: root_read_page_def Let_def r f n(2) unat_page_align PAGE_SIZE_def)
  qed
  show "world_inv (root_world h s) (RootVm r)"
    using all(1) own hw n(3) by (auto simp: world_inv_def root_world_def r ept_inv_def simp del: own_frames.simps)
  show "r_memory r = g" "r_children r = 0" by (simp_all add: r)
  show "reachable_gpa x \<Longrightarrow> ept_lookup (tmem s) (r_ept r) x = mapped_upto g ?n x" using all(3) by (simp add: r)
qed

subsection \<open>A new fork\<close>

lemma add_child_same [simp]:
  "vm_ept (add_child p) = vm_ept p" "chain_frames (add_child p) = chain_frames p"
  "chain_tables (add_child p) = chain_tables p" "children_count (add_child p) = children_count p + 1"
  by (cases p; simp)+

lemma read_page_add_child [simp]: "read_page (add_child p) x = read_page p x"
  by (cases p) (simp_all add: root_read_page_def Let_def read_page_Forked)

lemma forked_read_children: "forked_read (f\<lparr>f_children := c\<rparr>) p h gpa n = forked_read f p h gpa n"
proof (induction n arbitrary: gpa rule: less_induct)
  case (less n)
  have "0 < 4096 - unat (gpa AND 0xFFF)" using unat_page_offset [of gpa] by simp
  then have "n - (4096 - unat (gpa AND 0xFFF)) < n" if "\<not> n \<le> 4096 - unat (gpa AND 0xFFF)" using that by linarith
  then show ?case
    using less.IH by (subst (1 2) forked_read_unfold) (auto simp: read_page_Forked split: option.split)
qed

lemma read_guest_memory_add_child [simp]: "read_guest_memory (add_child p) h gpa n = read_guest_memory p h gpa n"
  by (cases p) (simp_all add: read_guest_memory_def root_read_def Let_def forked_read_children)

lemma vm_inv_add_child [simp]: "vm_inv t off (add_child p) = vm_inv t off p"
proof (cases p)
  case (RootVm r)
  have "hw_agrees t (RootVm (r\<lparr>r_children := r_children r + 1\<rparr>)) = hw_agrees t (RootVm r)"
    unfolding hw_agrees_def by (simp add: root_read_page_def Let_def)
  then show ?thesis using RootVm by simp
next
  case (ForkedVm f q)
  have "fork_ok t off (f\<lparr>f_children := f_children f + 1\<rparr>) q = fork_ok t off f q"
    unfolding fork_ok_def hw_agrees_def by (simp add: read_page_Forked)
  then show ?thesis using ForkedVm by simp
qed

lemma cow_new_get [simp]: "cow_get cow_new x = None" "cow_inv cow_new" "cow_map cow_new = []"
  by (simp_all add: cow_get_def cow_new_def cow_inv_def omap_sorted_def)

lemma READ_EXECUTE_not_writable: "\<not> writable READ_EXECUTE"
  by (simp add: writable_def READ_EXECUTE_def)

lemma fork_internal_spec:
  assumes inv: "world_inv w p" and io: "guest_phys io_gpa"
    and run: "fork_internal vmcs_err node_ok p io_gpa fbs w = (Inr c, w')"
  shows "\<exists>f. c = ForkedVm f p \<and> world_inv w' c \<and> f_children f = 0 \<and>
    (\<forall>fr \<in> chain_frames p. hmem w' fr = hmem w fr) \<and>
    (\<forall>x. reachable_gpa x \<longrightarrow> page_view c (hmem w') x = page_view p (hmem w) x)"
proof -
  have al: "allocator_inv (walloc w)" and vi: "vm_inv (wtmem w) (avail (walloc w)) p"
    using inv by (simp_all add: world_inv_def)
  obtain pt t a where cl: "clone_for_fork allocate_frame (vm_ept p) (wtmem w) (walloc w) = (Inr pt, t, a)"
    using run by (auto simp: fork_internal_def split: sum.splits prod.splits)
  define f where "f = \<lparr>f_ept = pt, f_cow = cow_new, f_children = 0, f_stale_tlb_faults = 0, f_io_page_gpa = io_gpa, f_feedback = fbs\<rparr>"
  define w1 where "w1 = w\<lparr>wtmem := t, walloc := a\<rparr>"
  obtain f' where c: "c = ForkedVm f' p" and pre: "pre_cow_io_channel_page node_ok f p w1 = (f', w')"
    using run cl by (auto simp: fork_internal_def Let_def f_def w1_def split: prod.splits if_splits)
  have wf: "ept_wf (wtmem w) (vm_ept p)" using vi fork_okD(1) by (cases p) auto
  have tabs: "chain_tables p \<inter> avail (walloc w) = {}" by (rule chain_tables_disjoint [OF vi])
  then have "set (frames (vm_ept p)) \<inter> avail (walloc w) = {}" by (cases p) auto
  note s = kfa.clone_for_fork_spec [OF al wf this cl]
  have fr: "ept_wf t pt" "set (frames pt) \<subseteq> avail (walloc w) - avail a"
    "\<And>x. ept_lookup t pt x = cow_view (ept_lookup (wtmem w) (vm_ept p) x)"
    using s(4,5,6) by blast+
  have vi': "vm_inv t (avail a) p" by (rule vm_inv_cong [OF vi s(2)]) (use tabs s(3) in blast)
  have hwp: "hw_agrees (wtmem w) p" using vi fork_okD(9) by (cases p) auto
  have "fork_ok t (avail a) f p" unfolding fork_ok_def
  proof (intro conjI allI impI)
    show "hw_agrees t (ForkedVm f p)" using hwp
      by (auto simp: hw_agrees_def f_def fr(3) cow_view_def read_page_Forked)
    show "set (frames (f_ept f)) \<inter> avail a = {}" "set (frames (f_ept f)) \<inter> chain_tables p = {}"
      using fr(2) tabs by (auto simp: f_def)
    show "cow_get (f_cow f) g = Some h"
      if "ept_lookup t (f_ept f) g = Some (h, pr)" "writable pr" for g h pr
      using that READ_EXECUTE_not_writable by (auto simp: f_def fr(3) cow_view_def)
  qed (simp_all add: f_def fr(1))
  then have w1: "world_inv w1 (ForkedVm f p)" using vi' s(1) by (simp add: world_inv_def w1_def)
  have view: "page_view (ForkedVm f p) h x = page_view p h x" for h x
    by (simp add: page_view_def read_page_Forked f_def)
  have "cow_transparent p f w1 f' w' \<and> f_children f' = 0"
  proof (cases "io_gpa = 0")
    case True
    then have "f' = f" "w' = w1" using pre by (simp_all add: pre_cow_io_channel_page_def f_def)
    then show ?thesis using w1 cow_transparent_refl by (simp add: f_def)
  next
    case False
    obtain b f2 w2 where cp: "cow_copy_page node_ok f p (page_align io_gpa) w1 = (b, f2, w2)" by (metis prod_cases3)
    then have eq: "f' = f2" "w' = w2" using pre False
      by (simp_all add: pre_cow_io_channel_page_def f_def cow_contains_def cow_new_def)
    have "guest_phys (page_align io_gpa)"
      using io div_times_less_eq_dividend [of "unat io_gpa" 4096]
      by (simp add: guest_phys_def word_less_nat_alt unat_page_align)
    then have "cow_transparent p f w1 f' w'"
      using cow_copy_page_transparent(1) [OF w1 _ page_align_idem _ cp] eq by (simp add: f_def)
    moreover have "f_children f2 = 0" using cp by (cases rule: cow_copy_page_cases) (simp_all add: f_def)
    ultimately show ?thesis using eq by simp
  qed
  then show ?thesis using c view by (auto simp: cow_transparent_def w1_def)
qed

subsection \<open>Reads as flat memory\<close>

text \<open>The specification of a read: one byte after the other, each from the page it lies on.\<close>

definition flat_read :: "vm \<Rightarrow> host_mem \<Rightarrow> nat \<Rightarrow> nat \<Rightarrow> memory_error + bytes" where
  "flat_read v h start n =
     (if list_all (\<lambda>i. page_view v h (of_nat i) \<noteq> None) [start..<start + n]
      then Inr (map (\<lambda>i. the (page_view v h (of_nat i)) (i mod PAGE_SIZE)) [start..<start + n])
      else Inl OutOfRange)"

lemma page_view_same_page:
  assumes "i < 0x1000000000000" "j < 0x1000000000000" "i div 4096 = j div 4096"
  shows "page_view v h (of_nat i) = page_view v h (of_nat j)"
proof -
  have "unat (of_nat i :: u64) = i" "unat (of_nat j :: u64) = j" using assms by (simp_all add: unat_of_nat_id)
  then have "page_align (of_nat i) = page_align (of_nat j)" using assms(3) by (simp add: word_unat_eq_iff unat_page_align)
  then have "read_page v (page_align (of_nat i)) = read_page v (page_align (of_nat j))" by (rule arg_cong)
  then show ?thesis by (simp add: page_view_def)
qed

lemma flat_read_append:
  "flat_read v h i (m + n) = (case flat_read v h i m of Inl e \<Rightarrow> Inl e
     | Inr xs \<Rightarrow> (case flat_read v h (i + m) n of Inl e \<Rightarrow> Inl e | Inr ys \<Rightarrow> Inr (xs @ ys)))"
proof -
  have "[i..<i + (m + n)] = [i..<i + m] @ [i + m..<i + m + n]" 
    using upt_add_eq_append [of i "i + m" n] by (simp only: add.assoc le_add1)
  then show ?thesis by (simp add: flat_read_def del: upt_conv_Cons_Cons)
qed

lemma add_within_page:
  assumes "a mod 4096 + k < (4096 :: nat)"
  shows "(a + k) div 4096 = a div 4096" "(a + k) mod 4096 = a mod 4096 + k"
proof -
  show "(a + k) div 4096 = a div 4096" using assms by (simp add: div_add1_eq [of a k])
  show "(a + k) mod 4096 = a mod 4096 + k" using assms mod_add_left_eq [of a 4096 k] by simp
qed

lemma flat_read_page:
  assumes "0 < n" "n \<le> 4096 - unat (gpa AND 0xFFF)" "unat gpa + n \<le> 0x1000000000000"
  shows "flat_read v h (unat gpa) n = (case read_page v gpa of None \<Rightarrow> Inl OutOfRange
     | Some fr \<Rightarrow> Inr (read_frame h fr (unat (gpa AND 0xFFF)) n))"
proof -
  have m: "unat gpa mod 4096 + n \<le> 4096" using assms(1,2) unfolding unat_page_offset by linarith
  have d: "i div 4096 = unat gpa div 4096" "i mod 4096 = unat gpa mod 4096 + (i - unat gpa)"
    if "i \<in> set [unat gpa..<unat gpa + n]" for i
  proof -
    have i: "unat gpa \<le> i" "i < unat gpa + n" using that by simp_all
    then have "unat gpa mod 4096 + (i - unat gpa) < 4096" using m by linarith
    then show "i div 4096 = unat gpa div 4096" "i mod 4096 = unat gpa mod 4096 + (i - unat gpa)"
      using add_within_page [of "unat gpa" "i - unat gpa"] i(1) by simp_all
  qed
  have pv: "page_view v h (of_nat i) = map_option h (read_page v gpa)" if "i \<in> set [unat gpa..<unat gpa + n]" for i
    using page_view_same_page [of i "unat gpa" v h] d(1) [OF that] that assms(3) by (simp add: page_view_def)
  show ?thesis
  proof (cases "read_page v gpa")
    case None
    have "unat gpa \<in> set [unat gpa..<unat gpa + n]" using assms(1) by simp
    then have "\<not> list_all (\<lambda>i. page_view v h (of_nat i) \<noteq> None) [unat gpa..<unat gpa + n]"
      unfolding list_all_iff using pv None by fastforce
    then show ?thesis using None by (simp add: flat_read_def)
  next
    case (Some fr)
    have all: "list_all (\<lambda>i. page_view v h (of_nat i) \<noteq> None) [unat gpa..<unat gpa + n]"
      unfolding list_all_iff using pv Some by simp
    have "map (\<lambda>i. the (page_view v h (of_nat i)) (i mod PAGE_SIZE)) [unat gpa..<unat gpa + n] =
        map (\<lambda>i. h fr (unat gpa mod 4096 + (i - unat gpa))) [unat gpa..<unat gpa + n]"
      by (rule map_cong [OF refl]) (simp only: pv d Some PAGE_SIZE_def option.map option.sel)
    also have "\<dots> = read_frame h fr (unat (gpa AND 0xFFF)) n"
      unfolding read_frame_def unat_page_offset by (rule nth_equalityI) simp_all
    finally show ?thesis unfolding flat_read_def Some using all by simp
  qed
qed

lemma forked_read_flat:
  assumes "0 < n" "unat gpa + n \<le> 0x1000000000000"
  shows "forked_read f p h gpa n = flat_read (ForkedVm f p) h (unat gpa) n"
  using assms
proof (induction n arbitrary: gpa rule: less_induct)
  case (less n)
  let ?av = "4096 - unat (gpa AND 0xFFF)" and ?v = "ForkedVm f p"
  have av: "0 < ?av" using unat_page_offset [of gpa] by simp
  show ?case
  proof (cases "n \<le> ?av")
    case True
    then show ?thesis using flat_read_page [OF less.prems(1) True less.prems(2), of ?v h]
      by (subst forked_read_unfold) (simp split: option.split)
  next
    case False
    then have step: "unat (page_align gpa + 0x1000) + (n - ?av) = unat gpa + n"
      using forked_read_step [OF less.prems(2)] by simp
    then have next_gpa: "unat (page_align gpa + 0x1000) = unat gpa + ?av" using False by linarith
    have rec: "forked_read f p h (page_align gpa + 0x1000) (n - ?av) = flat_read ?v h (unat gpa + ?av) (n - ?av)"
      using less.IH [of "n - ?av" "page_align gpa + 0x1000"] step next_gpa False av less.prems(2) by simp
    have "unat gpa + ?av \<le> 0x1000000000000" using False less.prems(2) by linarith
    note page = flat_read_page [OF av order.refl this, of ?v h]
    have n: "?av + (n - ?av) = n" using False by simp
    have "flat_read ?v h (unat gpa) n = (case read_page ?v gpa of None \<Rightarrow> Inl OutOfRange
        | Some fr \<Rightarrow> (case flat_read ?v h (unat gpa + ?av) (n - ?av) of Inl e \<Rightarrow> Inl e
            | Inr rest \<Rightarrow> Inr (read_frame h fr (unat (gpa AND 0xFFF)) ?av @ rest)))"
      using flat_read_append [of ?v h "unat gpa" ?av "n - ?av"] unfolding n page by (simp split: option.split)
    then show ?thesis using False by (subst forked_read_unfold) (simp add: rec split: option.split)
  qed
qed

lemma root_read_flat:
  assumes "gm_size (r_memory r) mod PAGE_SIZE = 0" "unat gpa + n \<le> 0x1000000000000"
  shows "root_read r h gpa n = (if n = 0 \<and> gm_size (r_memory r) < unat gpa then Inl OutOfRange
    else flat_read (RootVm r) h (unat gpa) n)"
proof -
  have pv: "page_view (RootVm r) h (of_nat i) =
      (if i < gm_size (r_memory r) then Some (h (gm_frame (r_memory r) (i div PAGE_SIZE))) else None)"
    if "i < 0x1000000000000" for i
  proof -
    have u: "unat (of_nat i :: u64) = i" using that by (simp add: unat_of_nat_id)
    have "unat (page_align (of_nat i) + 0x1000) = i div 4096 * 4096 + 4096" using unat_next_page [of "of_nat i"] that u by simp
    moreover have "i div 4096 * 4096 + 4096 \<le> gm_size (r_memory r) \<longleftrightarrow> i < gm_size (r_memory r)"
    proof -
      obtain k where k: "gm_size (r_memory r) = 4096 * k" using assms(1) by (auto simp: PAGE_SIZE_def)
      have "i < 4096 * k \<longleftrightarrow> i div 4096 < k" by (simp add: div_less_iff_less_mult mult.commute)
      then show ?thesis unfolding k by linarith
    qed
    ultimately show ?thesis using u by (simp add: page_view_def root_read_page_def Let_def unat_page_align PAGE_SIZE_def)
  qed
  have "list_all (\<lambda>i. page_view (RootVm r) h (of_nat i) \<noteq> None) [unat gpa..<unat gpa + n] \<longleftrightarrow>
      n = 0 \<or> unat gpa + n \<le> gm_size (r_memory r)"
  proof (cases n)
    case (Suc k)
    have "list_all (\<lambda>i. page_view (RootVm r) h (of_nat i) \<noteq> None) [unat gpa..<unat gpa + n] \<longleftrightarrow>
        (\<forall>i \<in> {unat gpa..<unat gpa + n}. i < gm_size (r_memory r))"
      using assms(2) by (auto simp: list_all_iff pv simp del: of_nat_add split: if_splits)
    also have "\<dots> \<longleftrightarrow> unat gpa + k < gm_size (r_memory r)" using Suc by auto
    finally show ?thesis using Suc by auto
  qed simp
  moreover have "map (\<lambda>i. the (page_view (RootVm r) h (of_nat i)) (i mod PAGE_SIZE)) [unat gpa..<unat gpa + n] =
      map (\<lambda>i. h (gm_frame (r_memory r) (i div PAGE_SIZE)) (i mod PAGE_SIZE)) [unat gpa..<unat gpa + n]"
    if "unat gpa + n \<le> gm_size (r_memory r)" using that assms(2) by (auto simp: pv)
  ultimately show ?thesis using assms(2) by (auto simp: root_read_def Let_def flat_read_def)
qed

text \<open>The root of the chain holds whole pages.\<close>

fun whole_pages :: "vm \<Rightarrow> bool" where
  "whole_pages (RootVm r) \<longleftrightarrow> gm_size (r_memory r) mod PAGE_SIZE = 0"
| "whole_pages (ForkedVm f p) \<longleftrightarrow> whole_pages p"

lemma read_guest_memory_flat_read:
  assumes "whole_pages v" "0 < n" "unat gpa + n \<le> 0x1000000000000"
  shows "read_guest_memory v h gpa n = flat_read v h (unat gpa) n"
  using assms by (cases v) (simp_all add: read_guest_memory_def forked_read_flat root_read_flat)

lemma flat_read_cong:
  assumes "\<And>x. reachable_gpa x \<Longrightarrow> page_view v' h' x = page_view v h x" "i + n \<le> 0x1000000000000"
  shows "flat_read v' h' i n = flat_read v h i n"
proof -
  have "reachable_gpa (of_nat j)" if "j < i + n" for j
    using that assms(2) by (simp add: reachable_gpa_def word_less_nat_alt unat_of_nat_id)
  then have "\<forall>j \<in> set [i..<i + n]. page_view v' h' (of_nat j) = page_view v h (of_nat j)" using assms(1) by simp
  then show ?thesis unfolding flat_read_def list_all_iff by (simp cong: map_cong)
qed

lemma whole_pages_add_child [simp]: "whole_pages (add_child p) = whole_pages p"
  by (cases p) simp_all

subsection \<open>Properties\<close>

text \<open>A small machine: two pages of guest memory, an allocator with eighteen frames.\<close>

definition w_memory :: guest_memory where
  "w_memory = \<lparr>gm_size = 8192, gm_frame = (\<lambda>i. 0x100000 + of_nat i * 0x1000)\<rparr>"

definition w_alloc :: kernel_frame_allocator where
  "w_alloc = kernel_frame_allocator_new (map (\<lambda>i. Some (of_nat i * 0x1000)) [1..<19])"

definition w_root :: "root_vm \<times> kernel_frame_allocator ept_state" where
  "w_root = projr (root_vm_new w_memory (\<lambda>_ _. 0) w_alloc)"

definition w_hmem :: host_mem where
  "w_hmem = (\<lambda>f i. if f = 0x101000 then of_nat i else 7)"

definition w_world :: world where
  "w_world = root_world w_hmem (snd w_root)"

lemma w_memory_ok: "guest_memory_ok w_memory (avail w_alloc)"
proof -
  have "\<forall>i \<in> set [0..<2]. gm_frame w_memory i AND ADDR_MASK = gm_frame w_memory i \<and> gm_frame w_memory i \<notin> avail w_alloc"
    by code_simp
  then show ?thesis by (simp add: guest_memory_ok_def w_memory_def PAGE_SIZE_def less_2_cases_iff)
qed

lemma w_root_eval:
  "(case root_vm_new w_memory (\<lambda>_ _. 0) w_alloc of Inl _ \<Rightarrow> False
    | Inr (r, s) \<Rightarrow> frame_count (r_ept r) = 4 \<and> kernel_stock (allocator s) = 14)"
  by code_simp

lemma w_root_new: "root_vm_new w_memory (\<lambda>_ _. 0) w_alloc = Inr (fst w_root, snd w_root)"
  "frame_count (r_ept (fst w_root)) = 4" "kernel_stock (walloc w_world) = 14"
  using w_root_eval unfolding w_world_def w_root_def by (simp_all add: root_world_def split: sum.splits prod.splits)

lemma w_alloc_inv: "allocator_inv w_alloc" by code_simp

lemma w_world_inv: "world_inv w_world (RootVm (fst w_root))"
  unfolding w_world_def by (rule root_vm_new_spec(1) [OF w_alloc_inv w_memory_ok w_root_new(1)])

text \<open>C5. A new root VM.  When \<open>RootVm::new\<close> succeeds, the invariant of VMs holds, and a guest
  physical address translates, readable, writable and executable, exactly when it lies in the
  guest's memory and not on the page of the APIC or the I/O APIC; it then leads to the frame
  that backs that page of the guest's memory.\<close>

theorem root_vm_new_maps_memory:
  assumes "allocator_inv a" and "guest_memory_ok g (avail a)" and "root_vm_new g m a = Inr (r, s)"
  shows "world_inv (root_world h s) (RootVm r) \<and>
    (\<forall>x. reachable_gpa x \<longrightarrow> ept_lookup (tmem s) (r_ept r) x =
      (if unat x < gm_size g \<and> \<not> is_mmio_page (page_align x)
       then Some (gm_frame g (unat x div PAGE_SIZE), READ_WRITE_EXECUTE) else None))"
proof -
  have "unat x div PAGE_SIZE < gm_size g div PAGE_SIZE \<longleftrightarrow> unat x < gm_size g" for x :: u64
    using assms(2) by (auto simp: guest_memory_ok_def PAGE_SIZE_def div_less_iff_less_mult)
  then show ?thesis using root_vm_new_spec [OF assms] by (simp add: mapped_upto_def)
qed

theorem root_vm_new_maps_memory_witness:
  "ept_lookup (tmem (snd w_root)) (r_ept (fst w_root)) 0x1234 = Some (0x101000, READ_WRITE_EXECUTE) \<and>
   ept_lookup (tmem (snd w_root)) (r_ept (fst w_root)) 0x2000 = None"
proof -
  have "reachable_gpa 0x1234" "reachable_gpa 0x2000" "\<not> is_mmio_page (page_align 0x1234)"
    "unat (0x1234 :: u64) < gm_size w_memory" "\<not> unat (0x2000 :: u64) < gm_size w_memory"
    "gm_frame w_memory (unat (0x1234 :: u64) div PAGE_SIZE) = 0x101000" by code_simp+
  then show ?thesis using root_vm_new_maps_memory [OF w_alloc_inv w_memory_ok w_root_new(1)] by simp
qed

text \<open>C2. What a fork starts with.  A fork of a VM in an invariant state is in an invariant state,
  has no children, counts as one more child of its parent, and sees at every page, and so reads
  over every range, exactly the bytes its parent read before the fork; the parent reads on as before.\<close>

theorem fork_starts_with_parent_memory:
  assumes inv: "world_inv w p" and io: "guest_phys io_gpa"
    and run: "fork_new vmcs_err node_ok p io_gpa fbs w = (p', Inr c, w')"
  shows "world_inv w' c \<and> children_count c = 0 \<and> children_count p' = children_count p + 1 \<and>
    (\<forall>x. reachable_gpa x \<longrightarrow> page_view c (hmem w') x = page_view p (hmem w) x) \<and>
    (\<forall>gpa n. 0 < n \<and> unat gpa + n \<le> 2 ^ 48 \<longrightarrow>
       read_guest_memory p' (hmem w') gpa n = read_guest_memory p (hmem w) gpa n \<and>
       (whole_pages p \<longrightarrow> read_guest_memory c (hmem w') gpa n = read_guest_memory p (hmem w) gpa n))"
proof -
  have p': "p' = add_child p" and int: "fork_internal vmcs_err node_ok p' io_gpa fbs w = (Inr c, w')"
    using run by (auto simp: fork_new_def Let_def split: prod.splits)
  have inv': "world_inv w p'" using inv by (simp add: world_inv_def p')
  obtain f where c: "c = ForkedVm f p'" and f: "world_inv w' c" "f_children f = 0"
    and keep: "\<And>fr. fr \<in> chain_frames p \<Longrightarrow> hmem w' fr = hmem w fr"
    and view: "\<And>x. reachable_gpa x \<Longrightarrow> page_view c (hmem w') x = page_view p (hmem w) x"
    using fork_internal_spec [OF inv' io int] by (auto simp: p' page_view_def)
  have vi: "vm_inv (wtmem w) (avail (walloc w)) p" using inv by (simp add: world_inv_def)
  have "read_guest_memory p' (hmem w') gpa n = read_guest_memory p (hmem w) gpa n"
    "whole_pages p \<Longrightarrow> read_guest_memory c (hmem w') gpa n = read_guest_memory p (hmem w) gpa n"
    if r: "0 < n" "unat gpa + n \<le> 2 ^ 48" for gpa n
  proof -
    have r': "unat gpa + n \<le> 0x1000000000000" using r(2) by simp
    show "read_guest_memory p' (hmem w') gpa n = read_guest_memory p (hmem w) gpa n"
      using read_guest_memory_cong [OF vi keep r' r(1)] by (simp add: p')
    show "read_guest_memory c (hmem w') gpa n = read_guest_memory p (hmem w) gpa n" if wp: "whole_pages p"
      using read_guest_memory_flat_read [OF _ r(1) r'] flat_read_cong [OF view r'] wp by (simp add: c p')
  qed
  then show ?thesis using f view c p' by simp
qed

lemma fork_new_supplied:
  assumes inv: "world_inv w p" and enough: "frame_count (vm_ept p) \<le> kernel_stock (walloc w)"
  shows "\<exists>c w'. fork_new None node_ok p io_gpa fbs w = (add_child p, Inr c, w')"
proof -
  have al: "allocator_inv (walloc w)" and vi: "vm_inv (wtmem w) (avail (walloc w)) p"
    using inv by (simp_all add: world_inv_def)
  have wf: "ept_wf (wtmem w) (vm_ept p)" using vi fork_okD(1) by (cases p) auto
  have "set (frames (vm_ept p)) \<inter> avail (walloc w) = {}"
    using chain_tables_disjoint [OF vi] by (cases p) auto
  then have "\<exists>pt t a. clone_for_fork allocate_frame (vm_ept p) (wtmem w) (walloc w) = (Inr pt, t, a)"
    using kfs.clone_for_fork_supplied [OF al wf] tables_below_frames [OF wf] enough by fastforce
  then show ?thesis by (auto simp: fork_new_def fork_internal_def Let_def split: prod.splits)
qed

theorem fork_starts_with_parent_memory_witness:
  "\<exists>c w'. fork_new None True (RootVm (fst w_root)) 0x1000 [] w_world = (add_child (RootVm (fst w_root)), Inr c, w') \<and>
     world_inv w' c \<and> read_guest_memory c (hmem w') 0x1ffe 2 = Inr [254, 255]"
proof -
  let ?p = "RootVm (fst w_root)"
  obtain c w' where run: "fork_new None True ?p 0x1000 [] w_world = (add_child ?p, Inr c, w')"
    using fork_new_supplied [OF w_world_inv] w_root_new(2,3) by fastforce
  have mem: "r_memory (fst w_root) = w_memory" "hmem w_world = w_hmem"
    using root_vm_new_spec(2) [OF w_alloc_inv w_memory_ok w_root_new(1)] by (simp_all add: w_world_def root_world_def)
  have wp: "whole_pages ?p" by (simp add: mem w_memory_def PAGE_SIZE_def)
  have read: "read_guest_memory ?p (hmem w_world) 0x1ffe 2 = Inr [254, 255]"
    by (simp add: read_guest_memory_def root_read_def mem w_memory_def w_hmem_def PAGE_SIZE_def upt_rec)
  have "guest_phys 0x1000" by (simp add: guest_phys_def)
  note f = fork_starts_with_parent_memory [OF w_world_inv this run]
  have "world_inv w' c" using f by blast
  moreover have "read_guest_memory c (hmem w') 0x1ffe 2 = Inr [254, 255]" using f read wp by simp
  ultimately show ?thesis using run by blast
qed

text \<open>C6. Forking succeeds.  With as many frames available as the parent's page table has, and no failure
  of the processor's control structure, forking a VM in an invariant state returns a child.\<close>

theorem fork_new_succeeds:
  assumes "world_inv w p" and "frame_count (vm_ept p) \<le> kernel_stock (walloc w)"
  shows "\<exists>c w'. fork_new None node_ok p io_gpa fbs w = (add_child p, Inr c, w')"
  by (rule fork_new_supplied [OF assms])

theorem fork_new_succeeds_witness:
  "\<exists>c w'. fork_new None True (RootVm (fst w_root)) 0 [] w_world = (add_child (RootVm (fst w_root)), Inr c, w')"
  using fork_new_succeeds [OF w_world_inv, of True 0 "[]"] w_root_new(2,3) by simp

lemma cow_fault_progress:
  assumes inv: "world_inv w (ForkedVm f p)" and reach: "reachable_gpa gpa"
    and mapped: "ept_lookup (wtmem w) (f_ept f) gpa \<noteq> None" and fresh: "\<not> cow_contains (f_cow f) (page_align gpa)"
    and frame: "0 < kernel_stock (walloc w)"
  shows "\<exists>f' w' new. handle_cow_fault True f p gpa w = (Some CowContinue, f', w') \<and>
    new \<in> own_frames (ForkedVm f' p) \<and> ept_lookup (wtmem w') (f_ept f') gpa = Some (new, READ_WRITE_EXECUTE) \<and>
    invepts w' = invepts w @ [eptp (f_ept f)] \<and> cow_get (f_cow f') gpa = Some new"
proof -
  let ?g = "page_align gpa"
  have fo: "fork_ok (wtmem w) (avail (walloc w)) f p" using inv by (simp add: world_inv_def)
  have get: "cow_get (f_cow f) ?g = None" using fresh by (simp add: cow_contains_def cow_get_def)
  obtain h pr where "ept_lookup (wtmem w) (f_ept f) gpa = Some (h, pr)" using mapped by auto
  then have "read_page (ForkedVm f p) gpa = Some h" using fork_okD(9) [OF fo] reach by (simp add: hw_agrees_def)
  then have rp: "read_page p ?g = Some h" using get by (simp add: read_page_Forked)
  obtain b f' w' where run: "cow_copy_page True f p ?g w = (b, f', w')" by (metis prod_cases3)
  obtain fr a where al: "allocate_cow_page (walloc w) = (Inr fr, a)"
    using kfs.stock_alloc [OF frame] by (auto simp: allocate_cow_page_eq)
  have phys: "guest_phys ?g" using reachable_align [OF reach] by (simp add: guest_phys_def reachable_gpa_def word_less_nat_alt)
  obtain c where ins: "cow_insert True ?g fr (f_cow f) = (Inr (), c)" by (simp add: cow_insert_def Let_def)
  obtain rr t where rm: "remap_4k (f_ept f) ?g fr READ_WRITE_EXECUTE WriteBack (wtmem w) = (rr, t)" by force
  have "rr = Inr ()" using remap_4k_spec(2) [OF fork_okD(1) [OF fo] valid_perms_consts(1) rm] mapped by simp
  then have "b \<and> invepts w' = invepts w @ [eptp (f_ept f)]"
    using run al rp ins rm by (auto simp: cow_copy_page_def Let_def)
  then have b: b and iv: "invepts w' = invepts w @ [eptp (f_ept f)]" by blast+
  obtain new where new: "cow_get (f_cow f') ?g = Some new" "ept_lookup (wtmem w') (f_ept f') ?g = Some (new, READ_WRITE_EXECUTE)"
    using cow_copy_page_transparent(3) [OF inv get page_align_idem phys run b] by blast
  have "handle_cow_fault True f p gpa w = (Some CowContinue, f', w')"
    using run b fresh by (simp add: handle_cow_fault_def)
  then show ?thesis using new iv cow_get_own [OF new(1), of p] by (auto simp del: own_frames.simps)
qed

lemma fork_new_small:
  assumes inv: "world_inv w p" and enough: "frame_count (vm_ept p) \<le> kernel_stock (walloc w)"
  shows "\<exists>f w'. world_inv w' (ForkedVm f (add_child p)) \<and> f_cow f = cow_new \<and> hmem w' = hmem w \<and>
    kernel_stock (walloc w) \<le> kernel_stock (walloc w') + frame_count (vm_ept p) \<and>
    (\<forall>g. ept_lookup (wtmem w') (f_ept f) g = cow_view (ept_lookup (wtmem w) (vm_ept p) g))"
proof -
  have al: "allocator_inv (walloc w)" and vi: "vm_inv (wtmem w) (avail (walloc w)) p"
    using inv by (simp_all add: world_inv_def)
  have wf: "ept_wf (wtmem w) (vm_ept p)" using vi fork_okD(1) by (cases p) auto
  have dis: "set (frames (vm_ept p)) \<inter> avail (walloc w) = {}"
    using chain_tables_disjoint [OF vi] by (cases p) auto
  obtain pt t a where cl: "clone_for_fork allocate_frame (vm_ept p) (wtmem w) (walloc w) = (Inr pt, t, a)"
    and st: "kernel_stock (walloc w) = kernel_stock a + Suc (tables_below (wtmem w) 3 (pml4_phys (vm_ept p)))"
    using kfs.clone_for_fork_supplied [OF al wf dis] tables_below_frames [OF wf] enough by fastforce
  let ?f = "\<lparr>f_ept = pt, f_cow = cow_new, f_children = 0, f_stale_tlb_faults = 0, f_io_page_gpa = 0, f_feedback = []\<rparr>"
  let ?w = "w\<lparr>wtmem := t, walloc := a\<rparr>"
  have "fork_internal None True (add_child p) 0 [] w = (Inr (ForkedVm ?f (add_child p)), ?w)"
    using cl by (simp add: fork_internal_def pre_cow_io_channel_page_def)
  then have "world_inv ?w (ForkedVm ?f (add_child p))"
    using fork_internal_spec [of w "add_child p" 0 None True "[]"] inv by (auto simp: world_inv_def guest_phys_def)
  moreover have "ept_lookup t pt g = cow_view (ept_lookup (wtmem w) (vm_ept p) g)" for g
    using kfa.clone_for_fork_spec(6) [OF al wf dis cl] by blast
  ultimately show ?thesis using st tables_below_frames [OF wf]
    by (intro exI [of _ ?f] exI [of _ ?w]) simp
qed

text \<open>The small machine again: its fork, and the fork after a copy-on-write fault on the second page.\<close>

definition w_parent :: vm where
  "w_parent = add_child (RootVm (fst w_root))"

lemma w_parent_mem:
  "r_memory (fst w_root) = w_memory" "hmem w_world = w_hmem" "whole_pages w_parent"
  "read_guest_memory w_parent w_hmem 0x1ffe 2 = Inr [254, 255]"
proof -
  show m: "r_memory (fst w_root) = w_memory" by (rule root_vm_new_spec(2) [OF w_alloc_inv w_memory_ok w_root_new(1)])
  show "hmem w_world = w_hmem" by (simp add: w_world_def root_world_def)
  show "whole_pages w_parent" by (simp add: w_parent_def m w_memory_def PAGE_SIZE_def)
  show "read_guest_memory w_parent w_hmem 0x1ffe 2 = Inr [254, 255]"
    by (simp add: w_parent_def read_guest_memory_def root_read_def m w_memory_def w_hmem_def PAGE_SIZE_def upt_rec)
qed

lemma w_child:
  obtains f w where "world_inv w (ForkedVm f w_parent)" "f_cow f = cow_new" "hmem w = w_hmem"
    "0 < kernel_stock (walloc w)" "ept_lookup (wtmem w) (f_ept f) 0x1004 = Some (0x101000, READ_EXECUTE)"
proof -
  have enough: "frame_count (vm_ept (RootVm (fst w_root))) \<le> kernel_stock (walloc w_world)" using w_root_new(2,3) by simp
  have "reachable_gpa 0x1004" by (simp add: reachable_gpa_def)
  then have "ept_lookup (tmem (snd w_root)) (r_ept (fst w_root)) 0x1004 = mapped_upto w_memory (gm_size w_memory div PAGE_SIZE) 0x1004"
    by (rule root_vm_new_spec(4) [OF w_alloc_inv w_memory_ok w_root_new(1)])
  moreover have "mapped_upto w_memory (gm_size w_memory div PAGE_SIZE) 0x1004 = Some (0x101000, READ_WRITE_EXECUTE)" by code_simp
  ultimately show thesis
    using that fork_new_small [OF w_world_inv enough] w_root_new(2,3) w_parent_mem(2)
    by (fastforce simp: w_parent_def w_world_def root_world_def)
qed

lemma w_cowed:
  obtains f w f' w' new where "world_inv w (ForkedVm f w_parent)" "f_cow f = cow_new" "hmem w = w_hmem"
    "handle_cow_fault True f w_parent 0x1004 w = (Some CowContinue, f', w')" "cow_get (f_cow f') 0x1004 = Some new"
    "world_inv w' (ForkedVm f' w_parent)"
proof -
  obtain f w where fw: "world_inv w (ForkedVm f w_parent)" "f_cow f = cow_new" "hmem w = w_hmem"
    "0 < kernel_stock (walloc w)" "ept_lookup (wtmem w) (f_ept f) 0x1004 = Some (0x101000, READ_EXECUTE)" by (rule w_child)
  have r: "reachable_gpa 0x1004" "guest_phys 0x1004" by (simp_all add: reachable_gpa_def guest_phys_def)
  have "\<not> cow_contains (f_cow f) (page_align 0x1004)" by (simp add: fw(2) cow_contains_def)
  then obtain f' w' new where run: "handle_cow_fault True f w_parent 0x1004 w = (Some CowContinue, f', w')"
    and own: "cow_get (f_cow f') 0x1004 = Some new"
    using cow_fault_progress [OF fw(1) r(1) _ _ fw(4)] fw(5) by auto
  have "world_inv w' (ForkedVm f' w_parent)"
    using handle_cow_fault_transparent [OF fw(1) r(2) run] by (simp only: cow_transparent_def)
  then show thesis using that fw(1,2,3) run own by blast
qed



text \<open>C3. A copy-on-write fault is invisible.  Handling a fault changes no byte that the fork or its
  parent reads and keeps the invariant.\<close>

theorem cow_fault_invisible:
  assumes inv: "world_inv w (ForkedVm f p)" and phys: "guest_phys gpa"
    and run: "handle_cow_fault node_ok f p gpa w = (r, f', w')"
    and range: "0 < n" "unat x + n \<le> 2 ^ 48"
  shows "world_inv w' (ForkedVm f' p) \<and>
    read_guest_memory (ForkedVm f' p) (hmem w') x n = read_guest_memory (ForkedVm f p) (hmem w) x n \<and>
    read_guest_memory p (hmem w') x n = read_guest_memory p (hmem w) x n"
proof -
  have t: "world_inv w' (ForkedVm f' p)" "\<And>fr. fr \<in> chain_frames p \<Longrightarrow> hmem w' fr = hmem w fr"
    "\<And>x. reachable_gpa x \<Longrightarrow> page_view (ForkedVm f' p) (hmem w') x = page_view (ForkedVm f p) (hmem w) x"
    using handle_cow_fault_transparent [OF inv phys run] by (simp_all add: cow_transparent_def)
  have vi: "vm_inv (wtmem w) (avail (walloc w)) p" using inv by (simp add: world_inv_def)
  have r': "unat x + n \<le> 0x1000000000000" using range(2) by simp
  have "read_guest_memory p (hmem w') x n = read_guest_memory p (hmem w) x n"
    by (rule read_guest_memory_cong [OF vi t(2) r' range(1)])
  moreover have "read_guest_memory (ForkedVm f' p) (hmem w') x n = read_guest_memory (ForkedVm f p) (hmem w) x n"
    using flat_read_cong [OF t(3) r'] by (simp add: read_guest_memory_def forked_read_flat [OF range(1) r'])
  ultimately show ?thesis using t(1) by simp
qed

theorem cow_fault_invisible_witness:
  "\<exists>f w f' w'. handle_cow_fault True f w_parent 0x1004 w = (Some CowContinue, f', w') \<and>
     read_guest_memory (ForkedVm f' w_parent) (hmem w') 0x1ffe 2 = Inr [254, 255]"
proof -
  obtain f w f' w' new where fw: "world_inv w (ForkedVm f w_parent)" "f_cow f = cow_new" "hmem w = w_hmem"
    and run: "handle_cow_fault True f w_parent 0x1004 w = (Some CowContinue, f', w')"
    by (rule w_cowed)
  have "page_view (ForkedVm f w_parent) w_hmem x = page_view w_parent w_hmem x" for x
    by (simp add: page_view_def read_page_Forked fw(2))
  then have "read_guest_memory (ForkedVm f w_parent) w_hmem 0x1ffe 2 = Inr [254, 255]"
    using read_guest_memory_flat_read [of "ForkedVm f w_parent" 2 "0x1ffe" w_hmem]
      read_guest_memory_flat_read [of w_parent 2 "0x1ffe" w_hmem] w_parent_mem(3,4)
    by (simp add: flat_read_def)
  then show ?thesis
    using run cow_fault_invisible [OF fw(1) _ run, of 2 "0x1ffe"] fw(3) by (auto simp: guest_phys_def)
qed

text \<open>C4. A copy-on-write fault makes progress.  For a page that the fork's page table maps and that the fork does not
  own yet, with a frame available and room in the page map, the handler resumes the guest, and the fork can
  then write the page through a frame of its own, after one invalidation of its translations.\<close>

theorem cow_fault_makes_progress:
  assumes inv: "world_inv w (ForkedVm f p)" and reach: "reachable_gpa gpa"
    and mapped: "ept_lookup (wtmem w) (f_ept f) gpa \<noteq> None" and fresh: "\<not> cow_contains (f_cow f) (page_align gpa)"
    and frame: "0 < kernel_stock (walloc w)"
  shows "\<exists>f' w' new. handle_cow_fault True f p gpa w = (Some CowContinue, f', w') \<and>
    new \<in> own_frames (ForkedVm f' p) \<and> ept_lookup (wtmem w') (f_ept f') gpa = Some (new, READ_WRITE_EXECUTE) \<and>
    invepts w' = invepts w @ [eptp (f_ept f)]"
  using cow_fault_progress [OF assms] by blast

theorem cow_fault_makes_progress_witness:
  "\<exists>f w f' w' new. f_cow f = cow_new \<and> handle_cow_fault True f w_parent 0x1004 w = (Some CowContinue, f', w') \<and>
     ept_lookup (wtmem w') (f_ept f') 0x1004 = Some (new, READ_WRITE_EXECUTE)"
proof -
  obtain f w where fw: "world_inv w (ForkedVm f w_parent)" "f_cow f = cow_new" "hmem w = w_hmem"
    "0 < kernel_stock (walloc w)" "ept_lookup (wtmem w) (f_ept f) 0x1004 = Some (0x101000, READ_EXECUTE)" by (rule w_child)
  have r: "reachable_gpa 0x1004" and n: "\<not> cow_contains (f_cow f) (page_align 0x1004)"
    and m: "ept_lookup (wtmem w) (f_ept f) 0x1004 \<noteq> None"
    by (simp_all add: reachable_gpa_def fw(2,5) cow_contains_def)
  show ?thesis using cow_fault_makes_progress [OF fw(1) r m n fw(4)] fw(2) by blast
qed

subsection \<open>Writing a fork's memory\<close>

definition byte_at :: "vm \<Rightarrow> host_mem \<Rightarrow> nat \<Rightarrow> u8 option" where
  "byte_at v h i = map_option (\<lambda>pg. pg (i mod PAGE_SIZE)) (page_view v h (of_nat i))"

lemma cow_get_inj:
  assumes "distinct (map snd (cow_map c))" "cow_get c x = Some fr" "cow_get c y = Some fr"
  shows "page_align x = page_align y"
proof -
  have "(page_align x, fr) \<in> set (cow_map c)" "(page_align y, fr) \<in> set (cow_map c)"
    using assms(2,3) by (auto simp: cow_get_def dest: map_of_SomeD)
  then show ?thesis using assms(1) by (metis distinct_map inj_onD prod.inject snd_conv)
qed

lemma write_one_page:
  assumes vi: "vm_inv t off (ForkedVm f p)" and g: "cow_get (f_cow f) gpa = Some fr"
    and len: "unat gpa mod 4096 + length bs \<le> 4096" and gr: "unat gpa < 0x1000000000000" and i: "i < 0x1000000000000"
  shows "byte_at (ForkedVm f p) (write_frame fr (unat gpa mod 4096) bs h) i =
    (if unat gpa \<le> i \<and> i < unat gpa + length bs then Some (bs ! (i - unat gpa)) else byte_at (ForkedVm f p) h i)"
proof -
  let ?v = "ForkedVm f p" and ?h = "write_frame fr (unat gpa mod 4096) bs h"
  have fo: "fork_ok t off f p" using vi by simp
  have u: "unat (of_nat i :: u64) = i" using i by (simp add: unat_of_nat_id)
  have same: "page_align (of_nat i) = page_align gpa \<longleftrightarrow> i div 4096 = unat gpa div 4096"
    using u by (simp add: word_unat_eq_iff unat_page_align)
  show ?thesis
  proof (cases "i div 4096 = unat gpa div 4096")
    case True
    then have "read_page ?v (of_nat i) = Some fr"
      using same g read_page_align [of ?v "of_nat i"] cow_get_align [of "f_cow f" gpa] by (metis option.simps(5) read_page_Forked read_page_align)
    then have b: "byte_at ?v hh i = Some (hh fr (i mod 4096))" for hh by (simp add: byte_at_def page_view_def PAGE_SIZE_def)
    have "i = i div 4096 * 4096 + i mod 4096" "unat gpa = i div 4096 * 4096 + unat gpa mod 4096"
      using True div_mult_mod_eq [of i 4096] div_mult_mod_eq [of "unat gpa" 4096] by simp_all
    then have "unat gpa mod 4096 \<le> i mod 4096 \<longleftrightarrow> unat gpa \<le> i"
      "i mod 4096 < unat gpa mod 4096 + length bs \<longleftrightarrow> i < unat gpa + length bs"
      "i mod 4096 - unat gpa mod 4096 = i - unat gpa" by linarith+
    then show ?thesis unfolding b by (simp add: write_frame_def)
  next
    case False
    have "\<not> (unat gpa \<le> i \<and> i < unat gpa + length bs)"
    proof
      assume r: "unat gpa \<le> i \<and> i < unat gpa + length bs"
      then have "unat gpa mod 4096 + (i - unat gpa) < 4096" using len by linarith
      then show False using add_within_page(1) [of "unat gpa" "i - unat gpa"] r False by simp
    qed
    moreover have "fr' \<noteq> fr" if rd: "read_page ?v (of_nat i) = Some fr'" for fr'
    proof (cases "cow_get (f_cow f) (of_nat i)")
      case None
      have "reachable_gpa (of_nat i)" using i u by (simp add: reachable_gpa_def word_less_nat_alt)
      then have "fr' \<in> chain_frames p" using read_page_in_chain [of t off p "of_nat i" fr'] vi rd None by (simp add: read_page_Forked)
      then show ?thesis using fork_okD(7) [OF fo] cow_get_own [OF g, of p] by blast
    next
      case (Some x)
      then show ?thesis using rd cow_get_inj [OF fork_okD(8) [OF fo] _ g, of "of_nat i"] same False by (auto simp: read_page_Forked)
    qed
    ultimately show ?thesis
      by (cases "read_page ?v (of_nat i)") (auto simp: byte_at_def page_view_def write_frame_other)
  qed
qed

lemma forked_write_bytes:
  assumes vi: "vm_inv t off (ForkedVm f p)" and i: "i < 0x1000000000000"
  shows "forked_write f gpa bs h = (Inr (), h') \<Longrightarrow> unat gpa + length bs \<le> 0x1000000000000 \<Longrightarrow> unat gpa < 0x1000000000000 \<Longrightarrow>
    byte_at (ForkedVm f p) h' i =
      (if unat gpa \<le> i \<and> i < unat gpa + length bs then Some (bs ! (i - unat gpa)) else byte_at (ForkedVm f p) h i)"
proof (induction "length bs" arbitrary: gpa bs h rule: less_induct)
  case less
  let ?o = "unat gpa mod 4096" and ?av = "4096 - unat gpa mod 4096"
  have av: "0 < ?av" by simp
  obtain fr where g: "cow_get (f_cow f) gpa = Some fr"
    using less.prems(1) by (subst (asm) forked_write.simps) (auto simp: Let_def split: option.splits)
  have unf: "(if length bs \<le> ?av then (Inr (), write_frame fr ?o bs h)
      else forked_write f (page_align gpa + 0x1000) (drop ?av bs) (write_frame fr ?o (take ?av bs) h)) = (Inr (), h')"
    using less.prems(1) g by (subst (asm) forked_write.simps) (simp add: Let_def unat_page_offset PAGE_SIZE_def)
  show ?case
  proof (cases "length bs \<le> ?av")
    case True
    then have "h' = write_frame fr ?o bs h" using unf by simp
    moreover have "?o + length bs \<le> 4096" using True by simp
    ultimately show ?thesis using write_one_page [OF vi g _ less.prems(3) i] by simp
  next
    case False
    let ?h1 = "write_frame fr ?o (take ?av bs) h"
    have u: "unat (page_align gpa + 0x1000) = unat gpa + ?av"
      using unat_next_page [OF less.prems(3)] div_mult_mod_eq [of "unat gpa" 4096] mod_less_divisor [of 4096 "unat gpa"] by linarith
    have lt: "length (drop ?av bs) < length bs" using False av by simp
    have run: "forked_write f (page_align gpa + 0x1000) (drop ?av bs) ?h1 = (Inr (), h')" using unf False by simp
    have "byte_at (ForkedVm f p) h' i = (if unat gpa + ?av \<le> i \<and> i < unat gpa + ?av + length (drop ?av bs)
        then Some (drop ?av bs ! (i - (unat gpa + ?av))) else byte_at (ForkedVm f p) ?h1 i)"
      using less.hyps [OF lt run] u less.prems(2) False by simp
    moreover have "byte_at (ForkedVm f p) ?h1 i = (if unat gpa \<le> i \<and> i < unat gpa + length (take ?av bs)
        then Some (take ?av bs ! (i - unat gpa)) else byte_at (ForkedVm f p) h i)"
      using write_one_page [OF vi g _ less.prems(3) i, of "take ?av bs"] by simp
    ultimately show ?thesis using False by auto
  qed
qed

text \<open>C7. Writing a fork's memory.  A write that succeeds changes exactly the bytes of its range, to the bytes
  written, whatever pages the range spans.\<close>

theorem forked_write_updates_range:
  assumes inv: "world_inv w (ForkedVm f p)" and run: "write_guest_memory (ForkedVm f p) gpa bs (hmem w) = (Inr (), h')"
    and range: "unat gpa < 2 ^ 48" "unat gpa + length bs \<le> 2 ^ 48" and i: "i < 2 ^ 48"
  shows "byte_at (ForkedVm f p) h' i =
    (if unat gpa \<le> i \<and> i < unat gpa + length bs then Some (bs ! (i - unat gpa)) else byte_at (ForkedVm f p) (hmem w) i)"
proof -
  have vi: "vm_inv (wtmem w) (avail (walloc w)) (ForkedVm f p)" using inv by (simp only: world_inv_def)
  have "forked_write f gpa bs (hmem w) = (Inr (), h')" using run by (simp add: write_guest_memory_def)
  then show ?thesis using forked_write_bytes [OF vi] range i by simp
qed

theorem forked_write_updates_range_witness:
  "\<exists>f (w :: world) h'. write_guest_memory (ForkedVm f w_parent) 0x1ffd [1, 2] (hmem w) = (Inr (), h') \<and>
     byte_at (ForkedVm f w_parent) h' 0x1ffe = Some 2"
proof -
  obtain f0 w0 f w new where fw: "cow_get (f_cow f) 0x1004 = Some new" "world_inv w (ForkedVm f w_parent)"
    by (rule w_cowed)
  have pa: "page_align 0x1ffd = page_align 0x1004" by code_simp
  have "cow_get (f_cow f) (page_align 0x1ffd) = Some new" unfolding pa by (simp add: fw(1))
  then have "forked_write f 0x1ffd [1, 2] (hmem w) = (Inr (), write_frame new 0xffd [1, 2] (hmem w))"
    by (subst forked_write.simps) (simp add: Let_def PAGE_SIZE_def)
  then have run: "write_guest_memory (ForkedVm f w_parent) 0x1ffd [1, 2] (hmem w) = (Inr (), write_frame new 0xffd [1, 2] (hmem w))"
    by (simp add: write_guest_memory_def)
  have "byte_at (ForkedVm f w_parent) (write_frame new 0xffd [1, 2] (hmem w)) 0x1ffe = Some 2"
    using forked_write_updates_range [where i = "0x1ffe", OF fw(2) run] by simp
  then show ?thesis using run by blast
qed

end
