(* ===== verification/Vpid.thy ===== *)
theory Vpid
  imports Bedrock_Prelude
begin

unbundle bit_operations_syntax

text \<open>
  Allocation of virtual processor identifiers (\<open>crates/bedrock-vmx/src/traits/vpid.rs\<close>): a
  bitmap of 1024 words and a search hint.  The operations are first translated as
  sequential code, where the retry loop is a \<open>partial_function\<close> shown to return; the
  atomic accesses of concurrent callers are then a step relation on a shared bitmap.
\<close>

subsection \<open>Sequential operations\<close>

definition BITMAP_WORDS :: nat where "BITMAP_WORDS = 1024"

record vpid_state =
  vwords :: "u64 list"
  search_hint :: u16

datatype vpid_error = VpidsExhausted

definition vpid_bitmap_new :: "u64 list" where
  "vpid_bitmap_new = replicate BITMAP_WORDS 0"

definition vpid_word :: "u16 \<Rightarrow> nat" where "vpid_word v = unat v div 64"
definition vpid_mask :: "u16 \<Rightarrow> u64" where "vpid_mask v = push_bit (unat v mod 64) 1"

definition try_allocate :: "u16 \<Rightarrow> u64 list \<Rightarrow> bool \<times> u64 list" where
  "try_allocate v ws =
     (let old = ws ! vpid_word v in
      (old AND vpid_mask v = 0, ws[vpid_word v := old OR vpid_mask v]))"

definition deallocate :: "u16 \<Rightarrow> u64 list \<Rightarrow> u64 list" where
  "deallocate v ws = (if v = 0 then ws else ws[vpid_word v := ws ! vpid_word v AND NOT (vpid_mask v)])"

definition trailing_zeros :: "u64 \<Rightarrow> nat" where
  "trailing_zeros w = length (takeWhile (\<lambda>k. \<not> bit w k) [0..<64])"

text \<open>The identifier of the first clear bit of a word, computed at 16 bits.\<close>

definition first_clear :: "nat \<Rightarrow> u64 \<Rightarrow> u16" where
  "first_clear i word = of_nat i * 64 + of_nat (trailing_zeros (NOT word))"

partial_function (option) try_allocate_in_word :: "nat \<Rightarrow> u64 list \<Rightarrow> (u16 option \<times> u64 list) option" where
  "try_allocate_in_word i ws =
     (let word = ws ! i in
      if word = - 1 then Some (None, ws)
      else let vpid = first_clear i word in
        if vpid = 0 then try_allocate_in_word i (ws[0 := ws ! 0 OR 1])
        else case try_allocate vpid ws of (got, ws') \<Rightarrow>
          if got then Some (Some vpid, ws') else try_allocate_in_word i ws')"

primrec search_words :: "nat list \<Rightarrow> u64 list \<Rightarrow> (u16 option \<times> u64 list) option" where
  "search_words [] ws = Some (None, ws)"
| "search_words (i # is) ws =
     (case try_allocate_in_word i ws of
        None \<Rightarrow> None
      | Some (Some v, ws') \<Rightarrow> Some (Some v, ws')
      | Some (None, ws') \<Rightarrow> search_words is ws')"

text \<open>The words from the hint to the end, then from the beginning to the hint.\<close>

definition search_order :: "u16 \<Rightarrow> nat list" where
  "search_order hint = [vpid_word hint..<BITMAP_WORDS] @ [0..<vpid_word hint]"

definition allocate_any :: "u16 \<Rightarrow> u64 list \<Rightarrow> (u16 option \<times> u64 list) option" where
  "allocate_any hint ws = search_words (search_order hint) ws"

definition vpid_bitmap_reset :: "u64 list \<Rightarrow> u64 list" where
  "vpid_bitmap_reset ws = (map (\<lambda>_. 0) ws)[0 := 1]"

definition allocate_vpid :: "vpid_state \<Rightarrow> ((vpid_error + u16) \<times> vpid_state) option" where
  "allocate_vpid s =
     (case allocate_any (search_hint s) (vwords s) of
        None \<Rightarrow> None
      | Some (Some v, ws) \<Rightarrow> Some (Inr v, \<lparr>vwords = ws, search_hint = v + 1\<rparr>)
      | Some (None, ws) \<Rightarrow> Some (Inl VpidsExhausted, s\<lparr>vwords := ws\<rparr>))"

definition deallocate_vpid :: "u16 \<Rightarrow> vpid_state \<Rightarrow> vpid_state" where
  "deallocate_vpid v s =
     (let s1 = s\<lparr>vwords := deallocate v (vwords s)\<rparr> in
      if v < search_hint s1 then s1\<lparr>search_hint := v\<rparr> else s1)"

definition reset_vpid_counter :: "vpid_state \<Rightarrow> vpid_state" where
  "reset_vpid_counter s = \<lparr>vwords = vpid_bitmap_reset (vwords s), search_hint = 1\<rparr>"

definition peek_next_vpid :: "vpid_state \<Rightarrow> u16" where
  "peek_next_vpid s = search_hint s"

definition count_ones :: "u64 \<Rightarrow> nat" where
  "count_ones w = length (filter (bit w) [0..<64])"

definition count_allocated_vpids :: "vpid_state \<Rightarrow> nat" where
  "count_allocated_vpids s = sum_list (map count_ones (vwords s))"

subsection \<open>The set of identifiers in use\<close>

definition in_use :: "u64 list \<Rightarrow> u16 \<Rightarrow> bool" where
  "in_use ws v \<longleftrightarrow> bit (ws ! vpid_word v) (unat v mod 64)"

definition bitmap_ok :: "u64 list \<Rightarrow> bool" where
  "bitmap_ok ws \<longleftrightarrow> length ws = BITMAP_WORDS"

lemma vpid_word_less: "vpid_word v < BITMAP_WORDS"
proof -
  have "unat v < 2 ^ LENGTH(16)" by (rule unsigned_less)
  then show ?thesis by (simp add: vpid_word_def BITMAP_WORDS_def less_mult_imp_div_less)
qed

lemma vpid_eq_iff: "v = w \<longleftrightarrow> vpid_word v = vpid_word w \<and> unat v mod 64 = unat w mod 64"
proof
  assume "vpid_word v = vpid_word w \<and> unat v mod 64 = unat w mod 64"
  then have "unat v = unat w" unfolding vpid_word_def by (metis div_mult_mod_eq)
  then show "v = w" by (simp add: word_unat_eq_iff)
qed simp

lemma bit_vpid_mask: "bit (vpid_mask v) k \<longleftrightarrow> k = unat v mod 64"
proof -
  have "unat v mod 64 < 64" by simp
  then show ?thesis by (auto simp: vpid_mask_def bit_simps)
qed

lemma and_mask_zero_iff: "w AND vpid_mask v = 0 \<longleftrightarrow> \<not> bit w (unat v mod 64)"
proof
  assume "w AND vpid_mask v = 0"
  then have "\<not> bit (w AND vpid_mask v) (unat v mod 64)" by simp
  then show "\<not> bit w (unat v mod 64)" by (simp add: bit_and_iff bit_vpid_mask)
next
  assume "\<not> bit w (unat v mod 64)"
  then show "w AND vpid_mask v = 0" by (intro bit_word_eqI) (auto simp: bit_and_iff bit_vpid_mask)
qed

lemma try_allocate_spec:
  assumes "bitmap_ok ws" "try_allocate v ws = (got, ws')"
  shows "got \<longleftrightarrow> \<not> in_use ws v" "bitmap_ok ws'" "in_use ws' x \<longleftrightarrow> x = v \<or> in_use ws x"
proof -
  have ws': "ws' = ws[vpid_word v := ws ! vpid_word v OR vpid_mask v]" and g: "got = (ws ! vpid_word v AND vpid_mask v = 0)"
    using assms(2) by (auto simp: try_allocate_def Let_def)
  show "got \<longleftrightarrow> \<not> in_use ws v" by (simp add: g and_mask_zero_iff in_use_def)
  show "bitmap_ok ws'" using assms(1) by (simp add: ws' bitmap_ok_def)
  show "in_use ws' x \<longleftrightarrow> x = v \<or> in_use ws x"
    using assms(1) vpid_word_less [of v] vpid_eq_iff [of x v]
    by (cases "vpid_word x = vpid_word v") (auto simp: ws' in_use_def bitmap_ok_def bit_or_iff bit_vpid_mask)
qed

lemma deallocate_spec:
  assumes "bitmap_ok ws"
  shows "bitmap_ok (deallocate v ws)" "in_use (deallocate v ws) x \<longleftrightarrow> in_use ws x \<and> (x = v \<longrightarrow> v = 0)"
proof -
  show "bitmap_ok (deallocate v ws)" using assms by (simp add: deallocate_def bitmap_ok_def)
  show "in_use (deallocate v ws) x \<longleftrightarrow> in_use ws x \<and> (x = v \<longrightarrow> v = 0)"
    using assms vpid_word_less [of v] vpid_eq_iff [of x v]
    by (cases "vpid_word x = vpid_word v")
      (auto simp: deallocate_def in_use_def bitmap_ok_def bit_and_iff bit_not_iff bit_vpid_mask)
qed

lemma trailing_zeros_clear:
  assumes "w \<noteq> (- 1 :: u64)"
  shows "trailing_zeros (NOT w) < 64" "\<not> bit w (trailing_zeros (NOT w))"
proof -
  obtain k where k: "k < 64" "\<not> bit w k"
  proof (rule ccontr)
    assume *: "\<not> thesis"
    have "w = - 1" by (rule bit_word_eqI) (use * that in auto)
    then show False using assms by simp
  qed
  let ?t = "takeWhile (\<lambda>k. \<not> bit (NOT w) k) [0..<64]"
  have "bit (NOT w) k" using k by (simp add: bit_not_iff)
  then have ne: "?t \<noteq> [0..<64]" unfolding takeWhile_eq_all_conv using k(1) by auto
  have lt: "length ?t < 64"
  proof (rule ccontr)
    assume "\<not> length ?t < 64"
    then have "?t = take 64 [0..<64]"
      using takeWhile_eq_take [of "\<lambda>k. \<not> bit (NOT w) k" "[0..<64]"] length_takeWhile_le [of "\<lambda>k. \<not> bit (NOT w) k" "[0..<64]"]
      by (metis diff_zero le_antisym length_upt not_less)
    then show False using ne by (metis diff_zero length_upt order_refl take_all)
  qed
  then show "trailing_zeros (NOT w) < 64" by (simp only: trailing_zeros_def)
  have "\<not> \<not> bit (NOT w) ([0..<64] ! length ?t)"
    by (rule nth_length_takeWhile) (use lt in \<open>simp only: length_upt diff_zero\<close>)
  moreover have "[0..<64] ! length ?t = length ?t" using lt by (simp only: nth_upt add_0)
  ultimately show "\<not> bit w (trailing_zeros (NOT w))" using lt by (simp add: trailing_zeros_def bit_not_iff del: upt_rec_numeral)
qed

lemma first_clear_spec:
  assumes "i < BITMAP_WORDS" "ws ! i \<noteq> - 1"
  shows "vpid_word (first_clear i (ws ! i)) = i" "\<not> in_use ws (first_clear i (ws ! i))"
proof -
  let ?b = "trailing_zeros (NOT (ws ! i))"
  note b = trailing_zeros_clear [OF assms(2)]
  have "i * 64 + ?b < 2 ^ 16" using assms(1) b(1) by (simp add: BITMAP_WORDS_def)
  then have "unat (of_nat (i * 64 + ?b) :: u16) = i * 64 + ?b" by (intro unat_of_nat_id) simp
  then have u: "unat (first_clear i (ws ! i)) = i * 64 + ?b" by (simp add: first_clear_def)
  then show "vpid_word (first_clear i (ws ! i)) = i" using b(1) by (simp add: vpid_word_def)
  then show "\<not> in_use ws (first_clear i (ws ! i))" using b u by (simp add: in_use_def)
qed

lemma full_word: "vpid_word v = i \<Longrightarrow> ws ! i = - 1 \<Longrightarrow> in_use ws v"
  by (simp add: in_use_def bit_minus_1_iff)

text \<open>What a search of a word reports: a fresh identifier, now in use, or that the word has none.
  Identifier 0 is marked on the way, so the sets are compared on the others.\<close>

definition search_result :: "nat set \<Rightarrow> u64 list \<Rightarrow> u16 option \<Rightarrow> u64 list \<Rightarrow> bool" where
  "search_result is ws r ws' \<longleftrightarrow> bitmap_ok ws' \<and>
     (case r of
        None \<Rightarrow> (\<forall>v. vpid_word v \<in> is \<longrightarrow> v \<noteq> 0 \<longrightarrow> in_use ws v) \<and> (\<forall>x. x \<noteq> 0 \<longrightarrow> in_use ws' x = in_use ws x)
      | Some v \<Rightarrow> v \<noteq> 0 \<and> \<not> in_use ws v \<and> (\<forall>x. x \<noteq> 0 \<longrightarrow> in_use ws' x \<longleftrightarrow> x = v \<or> in_use ws x))"

lemma search_word_settled:
  assumes ok: "bitmap_ok ws" and i: "i < BITMAP_WORDS" and z: "ws ! i = - 1 \<or> first_clear i (ws ! i) \<noteq> 0"
  shows "\<exists>r ws'. try_allocate_in_word i ws = Some (r, ws') \<and> search_result {i} ws r ws'"
proof (cases "ws ! i = - 1")
  case True
  then have "try_allocate_in_word i ws = Some (None, ws)" by (simp add: try_allocate_in_word.simps)
  moreover have "search_result {i} ws None ws" using True full_word ok by (auto simp: search_result_def)
  ultimately show ?thesis by blast
next
  case False
  let ?v = "first_clear i (ws ! i)"
  obtain got ws' where t: "try_allocate ?v ws = (got, ws')" by force
  note spec = try_allocate_spec [OF ok t] and clear = first_clear_spec(2) [OF i False]
  have "try_allocate_in_word i ws = Some (Some ?v, ws')"
    using False z t spec(1) clear by (subst try_allocate_in_word.simps) (simp add: Let_def)
  moreover have "search_result {i} ws (Some ?v) ws'"
    using z False clear spec(2,3) by (auto simp: search_result_def)
  ultimately show ?thesis by blast
qed

lemma search_word:
  assumes ok: "bitmap_ok ws" and i: "i < BITMAP_WORDS"
  shows "\<exists>r ws'. try_allocate_in_word i ws = Some (r, ws') \<and> search_result {i} ws r ws'"
proof (cases "ws ! i = - 1 \<or> first_clear i (ws ! i) \<noteq> 0")
  case True
  then show ?thesis by (rule search_word_settled [OF ok i])
next
  case False
  let ?ws = "ws[0 := ws ! 0 OR 1]"
  have i0: "i = 0" using first_clear_spec(1) [OF i, of ws] False by (simp add: vpid_word_def)
  have m: "vpid_mask 0 = 1" "vpid_word 0 = 0" by (simp_all add: vpid_mask_def vpid_word_def)
  have t: "try_allocate 0 ws = (ws ! 0 AND 1 = 0, ?ws)" by (simp add: try_allocate_def m Let_def)
  note spec = try_allocate_spec [OF ok t]
  have z: "?ws ! i = - 1 \<or> first_clear i (?ws ! i) \<noteq> 0"
    using first_clear_spec(2) [OF i, of ?ws] spec(3) [of 0] by auto
  have "try_allocate_in_word i ws = try_allocate_in_word i ?ws"
    using False by (subst try_allocate_in_word.simps) (simp add: Let_def)
  moreover obtain r ws' where "try_allocate_in_word i ?ws = Some (r, ws')" "search_result {i} ?ws r ws'"
    using search_word_settled [OF spec(2) i z] by blast
  moreover have "search_result {i} ?ws r ws' \<longleftrightarrow> search_result {i} ws r ws'" for r ws'
    using spec(3) by (auto simp: search_result_def split: option.split)
  ultimately show ?thesis by metis
qed

lemma search_words_spec:
  "bitmap_ok ws \<Longrightarrow> \<forall>i \<in> set is. i < BITMAP_WORDS \<Longrightarrow>
   \<exists>r ws'. search_words is ws = Some (r, ws') \<and> search_result (set is) ws r ws'"
proof (induction "is" arbitrary: ws)
  case Nil
  then show ?case by (simp add: search_result_def)
next
  case (Cons i "is")
  obtain r ws1 where one: "try_allocate_in_word i ws = Some (r, ws1)" "search_result {i} ws r ws1"
    using search_word [OF Cons.prems(1), of i] Cons.prems(2) by (metis list.set_intros(1))
  show ?case
  proof (cases r)
    case None
    have "bitmap_ok ws1" "\<forall>i \<in> set is. i < BITMAP_WORDS"
      using one(2) Cons.prems(2) by (simp_all add: search_result_def)
    then obtain r' ws' where more: "search_words is ws1 = Some (r', ws')" "search_result (set is) ws1 r' ws'"
      using Cons.IH by blast
    have "search_result (set (i # is)) ws r' ws'"
      using one(2) more(2) None by (auto simp: search_result_def split: option.splits)
    then show ?thesis using one(1) None more(1) by simp
  next
    case (Some v)
    then show ?thesis using one by (simp add: search_result_def)
  qed
qed

lemma search_order_all: "set (search_order hint) = {..<BITMAP_WORDS}"
  using vpid_word_less [of hint] by (auto simp: search_order_def)

subsection \<open>Concurrent callers\<close>

text \<open>
  Every access to the bitmap is one atomic operation on one word.  A caller is at one of
  the points between these operations: about to load the first word of the rest of its
  search, about to mark identifier 0, about to set the bit it chose, holding an
  identifier, or out of identifiers.  Steps of different callers interleave freely; the
  hint only decides the order of the search, which may start anywhere.
\<close>

datatype vpid_caller =
    Idle
  | Searching "nat list"
  | MarkingZero "nat list"
  | Claiming "nat list" u16
  | Holding u16
  | Exhausted

record vpid_system =
  shared :: "u64 list"
  callers :: "nat \<Rightarrow> vpid_caller"

definition vpid_init :: vpid_system where
  "vpid_init = \<lparr>shared = vpid_bitmap_new, callers = (\<lambda>_. Idle)\<rparr>"

inductive vpid_step :: "vpid_system \<Rightarrow> vpid_system \<Rightarrow> bool" where
  start: "callers s t = Idle \<Longrightarrow> vpid_step s (s\<lparr>callers := (callers s)(t := Searching (search_order hint))\<rparr>)"
| full: "callers s t = Searching (i # is) \<Longrightarrow> shared s ! i = - 1 \<Longrightarrow>
    vpid_step s (s\<lparr>callers := (callers s)(t := Searching is)\<rparr>)"
| load_zero: "callers s t = Searching (i # is) \<Longrightarrow> shared s ! i \<noteq> - 1 \<Longrightarrow> first_clear i (shared s ! i) = 0 \<Longrightarrow>
    vpid_step s (s\<lparr>callers := (callers s)(t := MarkingZero (i # is))\<rparr>)"
| load: "callers s t = Searching (i # is) \<Longrightarrow> shared s ! i \<noteq> - 1 \<Longrightarrow> first_clear i (shared s ! i) = v \<Longrightarrow> v \<noteq> 0 \<Longrightarrow>
    vpid_step s (s\<lparr>callers := (callers s)(t := Claiming (i # is) v)\<rparr>)"
| mark_zero: "callers s t = MarkingZero is \<Longrightarrow>
    vpid_step s (s\<lparr>shared := (shared s)[0 := shared s ! 0 OR 1], callers := (callers s)(t := Searching is)\<rparr>)"
| claim: "callers s t = Claiming is v \<Longrightarrow> try_allocate v (shared s) = (True, ws) \<Longrightarrow>
    vpid_step s (s\<lparr>shared := ws, callers := (callers s)(t := Holding v)\<rparr>)"
| lost: "callers s t = Claiming is v \<Longrightarrow> try_allocate v (shared s) = (False, ws) \<Longrightarrow>
    vpid_step s (s\<lparr>shared := ws, callers := (callers s)(t := Searching is)\<rparr>)"
| none_left: "callers s t = Searching [] \<Longrightarrow> vpid_step s (s\<lparr>callers := (callers s)(t := Exhausted)\<rparr>)"
| release: "callers s t = Holding v \<Longrightarrow>
    vpid_step s (s\<lparr>shared := deallocate v (shared s), callers := (callers s)(t := Idle)\<rparr>)"

inductive_cases vpid_stepE: "vpid_step s s'"

definition vpid_inv :: "vpid_system \<Rightarrow> bool" where
  "vpid_inv s \<longleftrightarrow> bitmap_ok (shared s) \<and>
     (\<forall>t v. callers s t = Holding v \<longrightarrow> v \<noteq> 0 \<and> in_use (shared s) v) \<and>
     (\<forall>t is v. callers s t = Claiming is v \<longrightarrow> v \<noteq> 0) \<and>
     (\<forall>t t' v. callers s t = Holding v \<longrightarrow> callers s t' = Holding v \<longrightarrow> t = t')"

lemma vpid_inv_init: "vpid_inv vpid_init"
  by (simp add: vpid_inv_def vpid_init_def bitmap_ok_def vpid_bitmap_new_def)

lemma mark_zero_try: "ws[0 := ws ! 0 OR 1] = snd (try_allocate 0 ws)"
  by (simp add: try_allocate_def vpid_mask_def vpid_word_def Let_def)

lemma vpid_invD:
  assumes "vpid_inv s"
  shows "bitmap_ok (shared s)" "callers s t = Holding v \<Longrightarrow> v \<noteq> 0" "callers s t = Holding v \<Longrightarrow> in_use (shared s) v"
    "callers s t = Claiming is v \<Longrightarrow> v \<noteq> 0" "callers s t = Holding v \<Longrightarrow> callers s t' = Holding v \<Longrightarrow> t = t'"
  using assms unfolding vpid_inv_def by blast+

text \<open>One caller moves to point \<open>c\<close> while the bitmap becomes \<open>ws\<close>.\<close>

lemma vpid_inv_move:
  assumes inv: "vpid_inv s" and ok: "bitmap_ok ws"
    and others: "\<And>t' v. t' \<noteq> t \<Longrightarrow> callers s t' = Holding v \<Longrightarrow> in_use ws v"
    and hold: "\<And>v. c = Holding v \<Longrightarrow> v \<noteq> 0 \<and> in_use ws v \<and> \<not> in_use (shared s) v"
    and claim: "\<And>is v. c = Claiming is v \<Longrightarrow> v \<noteq> 0"
  shows "vpid_inv (s\<lparr>shared := ws, callers := (callers s)(t := c)\<rparr>)"
  unfolding vpid_inv_def
proof (intro conjI allI impI)
  let ?s = "s\<lparr>shared := ws, callers := (callers s)(t := c)\<rparr>"
  show "bitmap_ok (shared ?s)" using ok by simp
  fix t1 v assume t1: "callers ?s t1 = Holding v"
  show "v \<noteq> 0" "in_use (shared ?s) v"
    using t1 hold [of v] others [of t1 v] vpid_invD(2) [OF inv, of t1 v] by (auto split: if_splits)
  fix t2 assume t2: "callers ?s t2 = Holding v"
  show "t1 = t2"
    using t1 t2 hold [of v] vpid_invD(3) [OF inv, of t1 v] vpid_invD(3) [OF inv, of t2 v]
      vpid_invD(5) [OF inv, of t1 v t2] by (auto split: if_splits)
next
  fix t1 "is" v assume "callers (s\<lparr>shared := ws, callers := (callers s)(t := c)\<rparr>) t1 = Claiming is v"
  then show "v \<noteq> 0" using claim [of "is" v] vpid_invD(4) [OF inv, of t1 "is" v] by (auto split: if_splits)
qed

lemma vpid_inv_move_local:
  assumes "vpid_inv s" and "\<And>v. c \<noteq> Holding v" and "\<And>is v. c = Claiming is v \<Longrightarrow> v \<noteq> 0"
  shows "vpid_inv (s\<lparr>callers := (callers s)(t := c)\<rparr>)"
  using vpid_inv_move [OF assms(1), of "shared s" t c] vpid_invD(1,3) [OF assms(1)] assms(2,3) by simp

lemma vpid_step_inv: "vpid_step s s' \<Longrightarrow> vpid_inv s \<Longrightarrow> vpid_inv s'"
proof (induction rule: vpid_step.induct)
  case (mark_zero s t "is")
  note ok = vpid_invD(1) [OF mark_zero(2)]
  note spec = try_allocate_spec [OF ok surjective_pairing, of 0]
  show ?case unfolding mark_zero_try
    by (rule vpid_inv_move [OF mark_zero(2)]) (use spec(2,3) vpid_invD(3) [OF mark_zero(2)] in auto)
next
  case (claim s t "is" v ws)
  note spec = try_allocate_spec [OF vpid_invD(1) [OF claim(3)] claim(2)]
  show ?case
    by (rule vpid_inv_move [OF claim(3)]) (use spec vpid_invD(3,4) [OF claim(3)] claim(1) in auto)
next
  case (lost s t "is" v ws)
  note spec = try_allocate_spec [OF vpid_invD(1) [OF lost(3)] lost(2)]
  show ?case
    by (rule vpid_inv_move [OF lost(3)]) (use spec vpid_invD(3) [OF lost(3)] in auto)
next
  case (release s t v)
  note spec = deallocate_spec [OF vpid_invD(1) [OF release(2)], of v]
  show ?case
    by (rule vpid_inv_move [OF release(2)]) (use spec vpid_invD(3,5) [OF release(2)] release(1) in \<open>auto 4 3\<close>)
qed (rule vpid_inv_move_local; simp)+

lemma vpid_reachable_inv: "vpid_step\<^sup>*\<^sup>* vpid_init s \<Longrightarrow> vpid_inv s"
  by (induction rule: rtranclp_induct) (auto simp: vpid_inv_init intro: vpid_step_inv)

subsection \<open>Properties\<close>

definition w_vpids :: vpid_state where
  "w_vpids = \<lparr>vwords = vpid_bitmap_new, search_hint = 1\<rparr>"

lemma w_vpids_ok: "bitmap_ok (vwords w_vpids)" "\<not> in_use (vwords w_vpids) v"
  by (simp_all add: w_vpids_def bitmap_ok_def in_use_def vpid_bitmap_new_def vpid_word_less)

definition w_rest :: "nat list" where
  "w_rest = [1..<BITMAP_WORDS]"

lemma w_search_order: "search_order 1 = 0 # w_rest"
proof -
  have "vpid_word 1 = 0" "0 < BITMAP_WORDS" by (simp_all add: vpid_word_def BITMAP_WORDS_def)
  then show ?thesis by (simp add: search_order_def w_rest_def upt_conv_Cons)
qed

text \<open>A caller that finds the first word with the identifiers below \<open>v\<close> taken gets \<open>v\<close>.\<close>

lemma claim_run:
  assumes s: "callers s t = Idle" and w: "shared s ! 0 \<noteq> - 1" and v: "first_clear 0 (shared s ! 0) = v" "v \<noteq> 0"
    and got: "try_allocate v (shared s) = (True, ws)"
  shows "vpid_step\<^sup>*\<^sup>* s (s\<lparr>shared := ws, callers := (callers s)(t := Holding v)\<rparr>)"
proof -
  let ?r = "w_rest"
  let ?s1 = "s\<lparr>callers := (callers s)(t := Searching (0 # ?r))\<rparr>"
  let ?s2 = "?s1\<lparr>callers := (callers ?s1)(t := Claiming (0 # ?r) v)\<rparr>"
  have 1: "vpid_step s ?s1" using start [OF s, of 1] unfolding w_search_order .
  have 2: "vpid_step ?s1 ?s2" by (rule load) (use w v in simp_all)
  have "vpid_step ?s2 (?s2\<lparr>shared := ws, callers := (callers ?s2)(t := Holding v)\<rparr>)" by (rule claim) (use got in simp_all)
  then show ?thesis using 1 2 by (simp add: converse_rtranclp_into_rtranclp)
qed

text \<open>C10. Concurrent allocation.  Whatever the interleaving of callers that allocate and release
  identifiers, no two of them ever hold the same identifier, none holds identifier 0, and
  every identifier held is marked in the bitmap.\<close>

theorem vpids_unique:
  assumes "vpid_step\<^sup>*\<^sup>* vpid_init s" and "callers s t = Holding v" and "callers s t' = Holding w"
  shows "v \<noteq> 0 \<and> in_use (shared s) v \<and> (v = w \<longrightarrow> t = t')"
  using vpid_reachable_inv [OF assms(1)] assms(2,3) by (auto simp: vpid_inv_def)

theorem vpids_unique_witness:
  "\<exists>s. vpid_step\<^sup>*\<^sup>* vpid_init s \<and> callers s 0 = Holding 1 \<and> callers s 1 = Holding 2 \<and> in_use (shared s) 1"
proof -
  let ?b = vpid_bitmap_new
  have b0: "?b ! 0 = 0" "0 < length ?b" by (simp_all add: vpid_bitmap_new_def BITMAP_WORDS_def)
  let ?s1 = "vpid_init\<lparr>callers := (callers vpid_init)(0 := Searching (0 # w_rest))\<rparr>"
  let ?s2 = "?s1\<lparr>callers := (callers ?s1)(0 := MarkingZero (0 # w_rest))\<rparr>"
  let ?s3 = "?s2\<lparr>shared := (shared ?s2)[0 := shared ?s2 ! 0 OR 1], callers := (callers ?s2)(0 := Searching (0 # w_rest))\<rparr>"
  let ?s4 = "?s3\<lparr>callers := (callers ?s3)(0 := Claiming (0 # w_rest) 1)\<rparr>"
  let ?s5 = "?s4\<lparr>shared := ?b[0 := 3], callers := (callers ?s4)(0 := Holding 1)\<rparr>"
  have fc: "first_clear 0 0 = 0" "first_clear 0 1 = 1" "first_clear 0 3 = 2" by code_simp+
  have m: "vpid_mask 1 = 2" "vpid_mask 2 = 4" "vpid_word 1 = 0" "vpid_word 2 = 0" by code_simp+
  have "vpid_step vpid_init ?s1" using start [of vpid_init 0 1] by (simp add: w_search_order vpid_init_def)
  moreover have "vpid_step ?s1 ?s2" by (rule load_zero) (use b0 fc in \<open>simp_all add: vpid_init_def\<close>)
  moreover have "vpid_step ?s2 ?s3" by (rule mark_zero) simp
  moreover have "vpid_step ?s3 ?s4" by (rule load) (use b0 fc in \<open>simp_all add: vpid_init_def\<close>)
  moreover have "vpid_step ?s4 ?s5" by (rule claim) (use b0 m in \<open>simp_all add: vpid_init_def try_allocate_def\<close>)
  ultimately have five: "vpid_step\<^sup>*\<^sup>* vpid_init ?s5" by (meson converse_rtranclp_into_rtranclp rtranclp.rtrancl_refl)
  have "vpid_step\<^sup>*\<^sup>* ?s5 (?s5\<lparr>shared := ?b[0 := 7], callers := (callers ?s5)(1 := Holding 2)\<rparr>)"
    by (rule claim_run) (use b0 fc m in \<open>simp_all add: vpid_init_def try_allocate_def\<close>)
  with five have r: "vpid_step\<^sup>*\<^sup>* vpid_init (?s5\<lparr>shared := ?b[0 := 7], callers := (callers ?s5)(1 := Holding 2)\<rparr>)"
    by (rule rtranclp_trans)
  show ?thesis using vpids_unique [OF r, of 0 1 1 2] r by (intro exI) (rule conjI, rule r, simp)
qed

lemma allocate_vpid_spec:
  assumes "bitmap_ok (vwords s)"
  shows "\<exists>r s'. allocate_vpid s = Some (r, s') \<and> bitmap_ok (vwords s') \<and>
    (case r of
       Inr v \<Rightarrow> v \<noteq> 0 \<and> \<not> in_use (vwords s) v \<and> (\<forall>x. x \<noteq> 0 \<longrightarrow> in_use (vwords s') x \<longleftrightarrow> x = v \<or> in_use (vwords s) x)
     | Inl VpidsExhausted \<Rightarrow> (\<forall>x. x \<noteq> 0 \<longrightarrow> in_use (vwords s) x))"
proof -
  obtain r ws' where run: "allocate_any (search_hint s) (vwords s) = Some (r, ws')"
    and res: "search_result {..<BITMAP_WORDS} (vwords s) r ws'"
    using search_words_spec [OF assms, of "search_order (search_hint s)"]
    by (auto simp: allocate_any_def search_order_all)
  show ?thesis
  proof (cases r)
    case None
    then show ?thesis using run res vpid_word_less by (simp add: allocate_vpid_def search_result_def)
  next
    case (Some v)
    then show ?thesis using run res by (simp add: allocate_vpid_def search_result_def)
  qed
qed

text \<open>C11. Sequential allocation.  Allocation always returns.  It returns an identifier other than 0 that
  was not in use and marks exactly that one, whatever the hint, or it reports exhaustion, and then all
  65535 identifiers are in use.\<close>

theorem allocate_vpid_returns_free:
  assumes "bitmap_ok (vwords s)"
  shows "\<exists>r s'. allocate_vpid s = Some (r, s') \<and> bitmap_ok (vwords s') \<and>
    (case r of
       Inr v \<Rightarrow> v \<noteq> 0 \<and> \<not> in_use (vwords s) v \<and> (\<forall>x. x \<noteq> 0 \<longrightarrow> in_use (vwords s') x \<longleftrightarrow> x = v \<or> in_use (vwords s) x)
     | Inl VpidsExhausted \<Rightarrow> (\<forall>x. x \<noteq> 0 \<longrightarrow> in_use (vwords s) x))"
  by (rule allocate_vpid_spec [OF assms])

theorem allocate_vpid_returns_free_witness:
  "\<exists>v s'. allocate_vpid w_vpids = Some (Inr v, s') \<and> v \<noteq> 0 \<and> in_use (vwords s') v"
proof -
  obtain r s' where run: "allocate_vpid w_vpids = Some (r, s')"
    and res: "case r of Inr v \<Rightarrow> v \<noteq> 0 \<and> \<not> in_use (vwords w_vpids) v \<and>
        (\<forall>x. x \<noteq> 0 \<longrightarrow> in_use (vwords s') x \<longleftrightarrow> x = v \<or> in_use (vwords w_vpids) x)
      | Inl VpidsExhausted \<Rightarrow> (\<forall>x. x \<noteq> 0 \<longrightarrow> in_use (vwords w_vpids) x)"
    using allocate_vpid_returns_free [OF w_vpids_ok(1)] by blast
  show ?thesis
  proof (cases r)
    case (Inl e)
    then show ?thesis using res w_vpids_ok(2) [of 1] by (cases e) auto
  next
    case (Inr v)
    then show ?thesis using run res by auto
  qed
qed

text \<open>Recycling.  Releasing an identifier that allocation returned makes it free again and frees nothing else.\<close>

theorem deallocate_vpid_frees:
  assumes "bitmap_ok (vwords s)" and "allocate_vpid s = Some (Inr v, s')" and "x \<noteq> 0"
  shows "in_use (vwords (deallocate_vpid v s')) x \<longleftrightarrow> in_use (vwords s) x"
proof -
  obtain ws' where run: "allocate_any (search_hint s) (vwords s) = Some (Some v, ws')" and s': "vwords s' = ws'"
    using assms(2) by (auto simp: allocate_vpid_def split: option.splits)
  have "search_result {..<BITMAP_WORDS} (vwords s) (Some v) ws'"
    using search_words_spec [OF assms(1), of "search_order (search_hint s)"] run
    by (auto simp: allocate_any_def search_order_all)
  then have *: "bitmap_ok ws'" "v \<noteq> 0" "\<not> in_use (vwords s) v" "in_use ws' x \<longleftrightarrow> x = v \<or> in_use (vwords s) x"
    using assms(3) by (simp_all add: search_result_def)
  have "vwords (deallocate_vpid v s') = deallocate v ws'" by (simp add: deallocate_vpid_def s' Let_def)
  then show ?thesis using deallocate_spec(2) [OF *(1), of v x] * by auto
qed

theorem deallocate_vpid_frees_witness:
  "\<exists>v s'. allocate_vpid w_vpids = Some (Inr v, s') \<and> \<not> in_use (vwords (deallocate_vpid v s')) v"
proof -
  obtain r s' where run: "allocate_vpid w_vpids = Some (r, s')"
    and res: "case r of Inr v \<Rightarrow> v \<noteq> 0 \<and> \<not> in_use (vwords w_vpids) v \<and>
        (\<forall>x. x \<noteq> 0 \<longrightarrow> in_use (vwords s') x \<longleftrightarrow> x = v \<or> in_use (vwords w_vpids) x)
      | Inl VpidsExhausted \<Rightarrow> (\<forall>x. x \<noteq> 0 \<longrightarrow> in_use (vwords w_vpids) x)"
    using allocate_vpid_spec [OF w_vpids_ok(1)] by blast
  show ?thesis
  proof (cases r)
    case (Inl e)
    then show ?thesis using res w_vpids_ok(2) [of 1] by (cases e) auto
  next
    case (Inr v)
    then have "v \<noteq> 0" and run': "allocate_vpid w_vpids = Some (Inr v, s')" using run res by auto
    then show ?thesis using deallocate_vpid_frees [OF w_vpids_ok(1) run'] w_vpids_ok(2) by blast
  qed
qed

end
