(* ===== verification/Lifecycle.thy ===== *)
theory Lifecycle
  imports Bedrock_Prelude
begin

text \<open>
  The life of VM files in the kernel module (\<open>crates/bedrock-vmx/src/handler.rs\<close>,
  \<open>crates/bedrock/bedrock_main.rs\<close>, \<open>crates/bedrock/vm_file/fd.rs\<close>, \<open>core.rs\<close>, \<open>root.rs\<close>,
  \<open>forked.rs\<close>, \<open>handlers.rs\<close>): the registry of VMs by identifier, creation and forking in
  phases, the reference counts that keep a parent alive, the child counters, and the run
  flag.  Every phase that the code runs under the handler lock, or as one atomic
  operation, is one step; phases of different calls interleave.
\<close>

subsection \<open>The registry\<close>

type_synonym file_ptr = nat

record vm_entry =
  e_vm_id :: u64
  e_vm_ref :: file_ptr

record bedrock_handler =
  vm_list :: "vm_entry list"
  next_vm_id :: u64

datatype vmx_init_error = InitFailed | MemoryAllocationFailed

text \<open>\<open>init_ok\<close> is the outcome of turning on virtualisation on all processors, \<open>mem_ok\<close> of reserving the list.\<close>

definition handler_new :: "bool \<Rightarrow> bool \<Rightarrow> vmx_init_error + bedrock_handler" where
  "handler_new init_ok mem_ok =
     (if \<not> init_ok then Inl InitFailed
      else if \<not> mem_ok then Inl MemoryAllocationFailed
      else Inr \<lparr>vm_list = [], next_vm_id = 1\<rparr>)"

definition can_create_vm :: "nat \<Rightarrow> bedrock_handler \<Rightarrow> bool" where
  "can_create_vm max_vms h \<longleftrightarrow> length (vm_list h) < max_vms"

definition alloc_vm_id :: "nat \<Rightarrow> bedrock_handler \<Rightarrow> u64 option \<times> bedrock_handler" where
  "alloc_vm_id max_vms h =
     (if \<not> can_create_vm max_vms h then (None, h)
      else (Some (next_vm_id h), h\<lparr>next_vm_id := next_vm_id h + 1\<rparr>))"

text \<open>\<open>push_ok\<close> is the outcome of growing the list; a failure is ignored and drops the reference.\<close>

definition add_vm :: "bool \<Rightarrow> u64 \<Rightarrow> file_ptr \<Rightarrow> bedrock_handler \<Rightarrow> bedrock_handler" where
  "add_vm push_ok i p h =
     (if push_ok then h\<lparr>vm_list := vm_list h @ [\<lparr>e_vm_id = i, e_vm_ref = p\<rparr>]\<rparr> else h)"

definition remove_vm :: "file_ptr \<Rightarrow> bedrock_handler \<Rightarrow> bedrock_handler" where
  "remove_vm p h = h\<lparr>vm_list := filter (\<lambda>e. e_vm_ref e \<noteq> p) (vm_list h)\<rparr>"

definition find_vm_by_id :: "u64 \<Rightarrow> bedrock_handler \<Rightarrow> file_ptr option" where
  "find_vm_by_id i h = map_option e_vm_ref (List.find (\<lambda>e. e_vm_id e = i) (vm_list h))"

subsection \<open>VM files\<close>

text \<open>\<open>vf_arc\<close> is the strong count of the file's \<open>Arc\<close>; \<open>vf_parent\<close> is \<open>None\<close> for a root VM.\<close>

record vm_file =
  vf_id :: u64
  vf_parent :: "file_ptr option"
  vf_children :: nat
  vf_running :: bool
  vf_arc :: nat

type_synonym vm_files = "(file_ptr \<times> vm_file) list"

definition modify_file :: "file_ptr \<Rightarrow> (vm_file \<Rightarrow> vm_file) \<Rightarrow> vm_files \<Rightarrow> vm_files" where
  "modify_file p F fs = map (\<lambda>(q, g). (q, if q = p then F g else g)) fs"

definition remove_file :: "file_ptr \<Rightarrow> vm_files \<Rightarrow> vm_files" where
  "remove_file p fs = filter (\<lambda>e. fst e \<noteq> p) fs"

definition file_add_child :: "vm_file \<Rightarrow> vm_file" where
  "file_add_child f = f\<lparr>vf_children := vf_children f + 1\<rparr>"

definition file_remove_child :: "vm_file \<Rightarrow> vm_file" where
  "file_remove_child f = f\<lparr>vf_children := vf_children f - 1\<rparr>"

definition arc_clone :: "vm_file \<Rightarrow> vm_file" where
  "arc_clone f = f\<lparr>vf_arc := vf_arc f + 1\<rparr>"

lemma length_remove_file: "map_of fs p = Some f \<Longrightarrow> length (remove_file p fs) < length fs"
  unfolding remove_file_def by (rule length_filter_less [of "(p, f)"]) (auto dest: map_of_SomeD)

text \<open>Dropping one reference.  The last one drops the file: a fork first takes itself off its
  parent's child count and then drops its reference to the parent.\<close>

function drop_arc :: "file_ptr \<Rightarrow> vm_files \<Rightarrow> vm_files" where
  "drop_arc p fs =
     (case map_of fs p of
        None \<Rightarrow> fs
      | Some f \<Rightarrow>
          if 1 < vf_arc f then modify_file p (\<lambda>f. f\<lparr>vf_arc := vf_arc f - 1\<rparr>) fs
          else (case vf_parent f of
              None \<Rightarrow> remove_file p fs
            | Some q \<Rightarrow> drop_arc q (modify_file q file_remove_child (remove_file p fs))))"
  by pat_completeness auto
termination
  by (relation "measure (\<lambda>(p, fs). length fs)") (auto simp: modify_file_def length_remove_file)

declare drop_arc.simps [simp del]

text \<open>A creation between its two phases holds an identifier and, when it is a fork, a reference to the parent.\<close>

record kernel_module =
  k_handler :: bedrock_handler
  k_files :: vm_files
  k_next_ptr :: file_ptr
  k_fds :: "file_ptr list"
  k_pending :: "(u64 \<times> file_ptr option) list"

datatype errno = ENOSPC | ENOENT | ENOMEM | EBUSY

text \<open>First phase of \<open>handle_create_root_vm\<close>: take an identifier.\<close>

definition create_root_begin :: "nat \<Rightarrow> kernel_module \<Rightarrow> (errno + u64) \<times> kernel_module" where
  "create_root_begin max_vms k =
     (case alloc_vm_id max_vms (k_handler k) of
        (None, h) \<Rightarrow> (Inl ENOSPC, k\<lparr>k_handler := h\<rparr>)
      | (Some i, h) \<Rightarrow> (Inr i, k\<lparr>k_handler := h, k_pending := (i, None) # k_pending k\<rparr>))"

text \<open>First phase of \<open>handle_create_forked_vm\<close>: under the lock, take an identifier, find the
  parent, clone the reference and count the child.\<close>

definition create_fork_begin :: "nat \<Rightarrow> u64 \<Rightarrow> kernel_module \<Rightarrow> (errno + u64) \<times> kernel_module" where
  "create_fork_begin max_vms parent_id k =
     (case alloc_vm_id max_vms (k_handler k) of
        (None, h) \<Rightarrow> (Inl ENOSPC, k\<lparr>k_handler := h\<rparr>)
      | (Some i, h) \<Rightarrow>
          (case find_vm_by_id parent_id h of
             None \<Rightarrow> (Inl ENOENT, k\<lparr>k_handler := h\<rparr>)
           | Some p \<Rightarrow>
               (Inr i, k\<lparr>k_handler := h, k_files := modify_file p (file_add_child \<circ> arc_clone) (k_files k),
                        k_pending := (i, Some p) # k_pending k\<rparr>)))"

text \<open>The creation fails: the VM could not be built, or its file could not be allocated.  A fork gives
  the child back and drops its reference.\<close>

definition create_fail :: "u64 \<Rightarrow> file_ptr option \<Rightarrow> kernel_module \<Rightarrow> kernel_module" where
  "create_fail i parent k =
     (let k1 = k\<lparr>k_pending := remove1 (i, parent) (k_pending k)\<rparr> in
      case parent of
        None \<Rightarrow> k1
      | Some q \<Rightarrow> k1\<lparr>k_files := drop_arc q (modify_file q file_remove_child (k_files k1))\<rparr>)"

text \<open>\<open>create_vm_fd\<close> and \<open>create_forked_vm_fd\<close>: build the file, register it, create the descriptor, and undo
  the registration when there is none.\<close>

definition create_fd :: "bool \<Rightarrow> bool \<Rightarrow> u64 \<Rightarrow> file_ptr option \<Rightarrow> kernel_module \<Rightarrow> kernel_module" where
  "create_fd push_ok fd_ok i parent k =
     (let p = k_next_ptr k;
          arc = (if push_ok then 2 else 1);
          f = \<lparr>vf_id = i, vf_parent = parent, vf_children = 0, vf_running = False, vf_arc = arc\<rparr>;
          k1 = k\<lparr>k_pending := remove1 (i, parent) (k_pending k), k_files := (p, f) # k_files k,
                 k_next_ptr := p + 1, k_handler := add_vm push_ok i p (k_handler k)\<rparr> in
      if fd_ok then k1\<lparr>k_fds := p # k_fds k1\<rparr>
      else let held = p \<in> e_vm_ref ` set (vm_list (k_handler k1));
               k2 = k1\<lparr>k_handler := remove_vm p (k_handler k1)\<rparr>;
               fs = (if held then drop_arc p (k_files k2) else k_files k2) in
           k2\<lparr>k_files := drop_arc p fs\<rparr>)"

text \<open>\<open>bedrock_vm_release\<close> and \<open>bedrock_forked_vm_release\<close>: the descriptor is closed.\<close>

definition release_fd :: "file_ptr \<Rightarrow> kernel_module \<Rightarrow> kernel_module" where
  "release_fd p k =
     (let held = p \<in> e_vm_ref ` set (vm_list (k_handler k));
          k1 = k\<lparr>k_handler := remove_vm p (k_handler k), k_fds := remove1 p (k_fds k)\<rparr>;
          fs = (if held then drop_arc p (k_files k1) else k_files k1) in
      k1\<lparr>k_files := drop_arc p fs\<rparr>)"

text \<open>Entry and exit of \<open>handle_run\<close>: the flag is taken, then the child count is looked at once.\<close>

definition run_begin :: "file_ptr \<Rightarrow> kernel_module \<Rightarrow> (errno + unit) \<times> kernel_module" where
  "run_begin p k =
     (case map_of (k_files k) p of
        None \<Rightarrow> (Inl ENOENT, k)
      | Some f \<Rightarrow>
          if vf_running f then (Inl EBUSY, k)
          else if vf_children f \<noteq> 0 then (Inl EBUSY, k)
          else (Inr (), k\<lparr>k_files := modify_file p (\<lambda>f. f\<lparr>vf_running := True\<rparr>) (k_files k)\<rparr>))"

definition run_end :: "file_ptr \<Rightarrow> kernel_module \<Rightarrow> kernel_module" where
  "run_end p k = k\<lparr>k_files := modify_file p (\<lambda>f. f\<lparr>vf_running := False\<rparr>) (k_files k)\<rparr>"

subsection \<open>Counting references\<close>

definition parent_refs :: "file_ptr \<Rightarrow> vm_files \<Rightarrow> nat" where
  "parent_refs p fs = length (filter (\<lambda>(_, g). vf_parent g = Some p) fs)"

text \<open>The counts of every file, given the references from outside the files (\<open>ext\<close>) and the forks being
  created (\<open>prog\<close>).\<close>

definition files_inv :: "(file_ptr \<Rightarrow> nat) \<Rightarrow> (file_ptr \<Rightarrow> nat) \<Rightarrow> vm_files \<Rightarrow> bool" where
  "files_inv ext prog fs \<longleftrightarrow> distinct (map fst fs) \<and>
     (\<forall>p f. map_of fs p = Some f \<longrightarrow>
        vf_arc f = ext p + parent_refs p fs \<and> 0 < vf_arc f \<and> vf_children f = prog p + parent_refs p fs) \<and>
     (\<forall>p. 0 < ext p + parent_refs p fs \<longrightarrow> map_of fs p \<noteq> None) \<and>
     (\<forall>p. prog p \<le> ext p)"

lemma files_invD:
  assumes "files_inv ext prog fs"
  shows "distinct (map fst fs)" "map_of fs p = Some f \<Longrightarrow> vf_arc f = ext p + parent_refs p fs"
    "map_of fs p = Some f \<Longrightarrow> 0 < vf_arc f" "map_of fs p = Some f \<Longrightarrow> vf_children f = prog p + parent_refs p fs"
    "0 < ext p + parent_refs p fs \<Longrightarrow> map_of fs p \<noteq> None" "prog p \<le> ext p"
proof -
  note inv = assms [unfolded files_inv_def]
  note counts = inv [THEN conjunct2, THEN conjunct1, rule_format]
  show "distinct (map fst fs)" by (rule inv [THEN conjunct1])
  show "map_of fs p = Some f \<Longrightarrow> vf_arc f = ext p + parent_refs p fs" by (rule counts [THEN conjunct1])
  show "map_of fs p = Some f \<Longrightarrow> 0 < vf_arc f" by (rule counts [THEN conjunct2, THEN conjunct1])
  show "map_of fs p = Some f \<Longrightarrow> vf_children f = prog p + parent_refs p fs" by (rule counts [THEN conjunct2, THEN conjunct2])
  show "0 < ext p + parent_refs p fs \<Longrightarrow> map_of fs p \<noteq> None"
    by (rule inv [THEN conjunct2, THEN conjunct2, THEN conjunct1, rule_format])
  show "prog p \<le> ext p" by (rule inv [THEN conjunct2, THEN conjunct2, THEN conjunct2, rule_format])
qed

lemma map_of_modify_file [simp]: "map_of (modify_file p F fs) q = (if q = p then map_option F (map_of fs q) else map_of fs q)"
  by (induction fs) (auto simp: modify_file_def)

lemma fst_modify_file [simp]: "map fst (modify_file p F fs) = map fst fs"
  by (induction fs) (auto simp: modify_file_def)

lemma map_of_remove_file [simp]: "map_of (remove_file p fs) q = (if q = p then None else map_of fs q)"
  by (induction fs) (auto simp: remove_file_def)

lemma distinct_remove_file: "distinct (map fst fs) \<Longrightarrow> distinct (map fst (remove_file p fs))"
  by (simp add: remove_file_def distinct_map_filter)

lemma parent_refs_modify:
  assumes "\<And>f. vf_parent (F f) = vf_parent f"
  shows "parent_refs x (modify_file p F fs) = parent_refs x fs"
  by (induction fs) (auto simp: modify_file_def parent_refs_def assms split: if_splits)

lemma parent_refs_Cons: "parent_refs x ((q, g) # fs) = parent_refs x fs + (if vf_parent g = Some x then 1 else 0)"
  by (simp add: parent_refs_def)

lemma remove_file_Cons: "remove_file p ((q, g) # fs) = (if q = p then remove_file p fs else (q, g) # remove_file p fs)"
  by (simp add: remove_file_def)

lemma remove_file_fresh: "p \<notin> fst ` set fs \<Longrightarrow> remove_file p fs = fs"
  by (auto simp: remove_file_def filter_id_conv)

lemma parent_refs_remove:
  assumes "distinct (map fst fs)" "map_of fs p = Some f"
  shows "parent_refs x fs = parent_refs x (remove_file p fs) + (if vf_parent f = Some x then 1 else 0)"
  using assms
proof (induction fs)
  case (Cons e fs)
  obtain q g where e: "e = (q, g)" by force
  show ?case
  proof (cases "q = p")
    case True
    then have "p \<notin> fst ` set fs" "f = g" using Cons.prems e by auto
    then show ?thesis by (simp add: e True parent_refs_Cons remove_file_Cons remove_file_fresh)
  next
    case False
    have d: "distinct (map fst fs)" "map_of fs p = Some f" using Cons.prems False by (simp_all add: e)
    show ?thesis using Cons.IH [OF d] False by (simp add: e parent_refs_Cons remove_file_Cons)
  qed
qed simp

lemma parent_keep [simp]:
  "vf_parent (file_add_child f) = vf_parent f" "vf_parent (file_remove_child f) = vf_parent f" "vf_parent (arc_clone f) = vf_parent f"
  by (simp_all add: file_add_child_def file_remove_child_def arc_clone_def)

lemma parent_refs_self:
  assumes "map_of fs p = Some f" "vf_parent f = Some q"
  shows "0 < parent_refs q fs"
proof -
  have "(p, f) \<in> set (filter (\<lambda>(_, g). vf_parent g = Some q) fs)" using assms by (auto dest: map_of_SomeD)
  then show ?thesis by (metis length_pos_if_in_set parent_refs_def)
qed

text \<open>The file of the last reference goes; the reference it held is then the one to drop.\<close>

lemma files_inv_last:
  assumes inv: "files_inv (ext(p := ext p + 1)) prog fs" and le: "\<And>x. prog x \<le> ext x"
    and f: "map_of fs p = Some f" and last: "\<not> 1 < vf_arc f"
  shows "vf_parent f = None \<Longrightarrow> files_inv ext prog (remove_file p fs)"
    and "vf_parent f = Some q \<Longrightarrow> files_inv (ext(q := ext q + 1)) prog (modify_file q file_remove_child (remove_file p fs))"
proof -
  note D = files_invD [OF inv]
  have dead: "ext p = 0" "parent_refs p fs = 0" "prog p = 0" using D(2) [OF f] last le [of p] by simp_all
  note refs = parent_refs_remove [OF D(1) f]
  show "files_inv ext prog (remove_file p fs)" if "vf_parent f = None"
    unfolding files_inv_def
  proof (intro conjI allI impI)
    fix x g assume "map_of (remove_file p fs) x = Some g"
    then have "x \<noteq> p" "map_of fs x = Some g" by (auto split: if_splits)
    then show "vf_arc g = ext x + parent_refs x (remove_file p fs)" "0 < vf_arc g"
      "vf_children g = prog x + parent_refs x (remove_file p fs)"
      using D(2,3,4) [of x g] refs [of x] that by simp_all
  next
    fix x assume "0 < ext x + parent_refs x (remove_file p fs)"
    then show "map_of (remove_file p fs) x \<noteq> None"
      using D(5) [of x] refs [of x] that dead by (cases "x = p") auto
  qed (simp_all add: distinct_remove_file D(1) le)
  show "files_inv (ext(q := ext q + 1)) prog (modify_file q file_remove_child (remove_file p fs))" if q: "vf_parent f = Some q"
  proof -
    have ne: "q \<noteq> p" using parent_refs_self [OF f q] dead(2) by auto
    have refs': "parent_refs x (modify_file q file_remove_child (remove_file p fs)) = parent_refs x (remove_file p fs)" for x
      by (rule parent_refs_modify) simp
    show ?thesis unfolding files_inv_def refs'
    proof (intro conjI allI impI)
      fix x g assume "map_of (modify_file q file_remove_child (remove_file p fs)) x = Some g"
      then obtain g0 where x: "x \<noteq> p" "map_of fs x = Some g0" "g = (if x = q then file_remove_child g0 else g0)"
        using ne by (auto split: if_splits)
      show "vf_arc g = (ext(q := ext q + 1)) x + parent_refs x (remove_file p fs)" "0 < vf_arc g"
        "vf_children g = prog x + parent_refs x (remove_file p fs)"
        using x D(2,3,4) [of x g0] refs [of x] q by (auto simp: file_remove_child_def)
    next
      fix x assume "0 < (ext(q := ext q + 1)) x + parent_refs x (remove_file p fs)"
      then show "map_of (modify_file q file_remove_child (remove_file p fs)) x \<noteq> None"
        using D(5) [of x] refs [of x] q ne dead by (cases "x = p"; cases "x = q") (auto split: if_splits)
    next
      show "distinct (map fst (modify_file q file_remove_child (remove_file p fs)))"
        using distinct_remove_file [OF D(1)] by simp
      show "prog x \<le> (ext(q := ext q + 1)) x" for x using le [of x] by auto
    qed
  qed
qed

lemma drop_arc_inv:
  assumes "files_inv (ext(p := ext p + 1)) prog fs" "\<And>x. prog x \<le> ext x"
  shows "files_inv ext prog (drop_arc p fs)"
  using assms
proof (induction p fs rule: drop_arc.induct)
  case (1 p fs)
  note D = files_invD [OF "1.prems"(1)]
  obtain f where f: "map_of fs p = Some f" using D(5) [of p] by auto
  show ?case
  proof (cases "1 < vf_arc f")
    case True
    let ?F = "\<lambda>f. f\<lparr>vf_arc := vf_arc f - 1\<rparr>"
    have refs: "parent_refs x (modify_file p ?F fs) = parent_refs x fs" for x by (rule parent_refs_modify) simp
    have "files_inv ext prog (modify_file p ?F fs)" unfolding files_inv_def refs
    proof (intro conjI allI impI)
      fix x g assume "map_of (modify_file p ?F fs) x = Some g"
      then obtain g0 where "map_of fs x = Some g0" "g = (if x = p then ?F g0 else g0)" by (auto split: if_splits)
      then show "vf_arc g = ext x + parent_refs x fs" "0 < vf_arc g" "vf_children g = prog x + parent_refs x fs"
        using D(2,3,4) [of x g0] True f by auto
    next
      fix x assume "0 < ext x + parent_refs x fs"
      then show "map_of (modify_file p ?F fs) x \<noteq> None" using D(5) [of x] by auto
    qed (use D(1) "1.prems"(2) in simp_all)
    then show ?thesis using f True by (subst drop_arc.simps) simp
  next
    case False
    show ?thesis
    proof (cases "vf_parent f")
      case None
      then show ?thesis using files_inv_last(1) [OF "1.prems" f False] f False by (subst drop_arc.simps) simp
    next
      case (Some q)
      have "files_inv ext prog (drop_arc q (modify_file q file_remove_child (remove_file p fs)))"
        by (rule "1.IH" [OF f False Some files_inv_last(2) [OF "1.prems" f False Some] "1.prems"(2)])
      then show ?thesis using f False Some by (subst drop_arc.simps) simp
    qed
  qed
qed

end
