(* ===== verification/Lifecycle_Laws.thy ===== *)
theory Lifecycle_Laws
  imports Lifecycle
begin

text \<open>
  Every interleaving of creations, forks, runs and closed descriptors keeps the reference
  counts and the child counters exact.  A parent therefore lives as long as its forks, is
  refused a run while it has any, and identifiers name one VM.
\<close>

subsection \<open>Files under the operations\<close>

definition bump :: "file_ptr option \<Rightarrow> (file_ptr \<Rightarrow> nat) \<Rightarrow> file_ptr \<Rightarrow> nat" where
  "bump par e x = e x + (if par = Some x then 1 else 0)"

lemma bump_None [simp]: "bump None e = e"
  by (simp add: bump_def fun_eq_iff)

lemma bump_Some: "bump (Some p) e = e(p := e p + 1)"
  by (simp add: bump_def fun_eq_iff)

lemmas drop_arc_bump = drop_arc_inv [folded bump_Some]

lemma files_inv_clone:
  assumes inv: "files_inv ext prog fs" and p: "map_of fs p \<noteq> None"
  shows "files_inv (bump (Some p) ext) (bump (Some p) prog) (modify_file p (file_add_child \<circ> arc_clone) fs)"
proof -
  note D = files_invD [OF inv]
  have refs: "parent_refs x (modify_file p (file_add_child \<circ> arc_clone) fs) = parent_refs x fs" for x
    by (rule parent_refs_modify) simp
  show ?thesis unfolding files_inv_def refs
  proof (intro conjI allI impI)
    fix x g assume "map_of (modify_file p (file_add_child \<circ> arc_clone) fs) x = Some g"
    then obtain g0 where "map_of fs x = Some g0" "g = (if x = p then file_add_child (arc_clone g0) else g0)"
      by (auto split: if_splits)
    then show "vf_arc g = bump (Some p) ext x + parent_refs x fs" "0 < vf_arc g"
      "vf_children g = bump (Some p) prog x + parent_refs x fs"
      using D(2,3,4) [of x g0] by (auto simp: bump_def file_add_child_def arc_clone_def)
  next
    fix x assume "0 < bump (Some p) ext x + parent_refs x fs"
    then show "map_of (modify_file p (file_add_child \<circ> arc_clone) fs) x \<noteq> None"
      using D(5) [of x] p by (cases "x = p") (auto simp: bump_def)
  next
    show "bump (Some p) prog x \<le> bump (Some p) ext x" for x using D(6) [of x] by (simp add: bump_def)
  qed (simp add: D(1))
qed

lemma files_inv_unclone:
  assumes inv: "files_inv (bump (Some q) ext) (bump (Some q) prog) fs"
  shows "files_inv ext prog (drop_arc q (modify_file q file_remove_child fs))"
proof (rule drop_arc_bump)
  note D = files_invD [OF inv]
  have refs: "parent_refs x (modify_file q file_remove_child fs) = parent_refs x fs" for x
    by (rule parent_refs_modify) simp
  show le: "prog x \<le> ext x" for x using D(6) [of x] by (simp add: bump_def)
  show "files_inv (bump (Some q) ext) prog (modify_file q file_remove_child fs)" unfolding files_inv_def refs
  proof (intro conjI allI impI)
    fix x g assume "map_of (modify_file q file_remove_child fs) x = Some g"
    then obtain g0 where "map_of fs x = Some g0" "g = (if x = q then file_remove_child g0 else g0)"
      by (auto split: if_splits)
    then show "vf_arc g = bump (Some q) ext x + parent_refs x fs" "0 < vf_arc g" "vf_children g = prog x + parent_refs x fs"
      using D(2,3,4) [of x g0] by (auto simp: bump_def file_remove_child_def split: if_splits)
  next
    fix x assume "0 < bump (Some q) ext x + parent_refs x fs"
    then show "map_of (modify_file q file_remove_child fs) x \<noteq> None" using D(5) [of x] by auto
  next
    show "prog x \<le> bump (Some q) ext x" for x using le [of x] by (simp add: bump_def)
  qed (simp add: D(1))
qed

lemma files_inv_new:
  assumes inv: "files_inv (bump par ext) (bump par prog) fs" and fresh: "map_of fs p = None"
    and f: "vf_parent f = par" "vf_children f = 0" "vf_arc f = a" "0 < a"
  shows "files_inv (ext(p := a)) prog ((p, f) # fs)"
proof -
  note D = files_invD [OF inv]
  have "\<not> 0 < bump par ext p + parent_refs p fs" using D(5) [of p] fresh by blast
  then have zero: "bump par ext p = 0" "parent_refs p fs = 0" by simp_all
  have ext: "ext p = 0" "par \<noteq> Some p" "prog p = 0"
    using zero(1) D(6) [of p] by (auto simp: bump_def split: if_splits)
  show ?thesis unfolding files_inv_def parent_refs_Cons
  proof (intro conjI allI impI)
    show "distinct (map fst ((p, f) # fs))" using D(1) fresh by (auto simp: map_of_eq_None_iff)
    fix x
    show "prog x \<le> (ext(p := a)) x" using D(6) [of x] ext by (auto simp: bump_def split: if_splits)
    show "map_of ((p, f) # fs) x \<noteq> None"
      if "0 < (ext(p := a)) x + (parent_refs x fs + (if vf_parent f = Some x then 1 else 0))"
      using that D(5) [of x] f by (cases "x = p") (auto simp: bump_def split: if_splits)
    fix g assume "map_of ((p, f) # fs) x = Some g"
    then consider "x = p" "g = f" | "x \<noteq> p" "map_of fs x = Some g" by (auto split: if_splits)
    then show "vf_arc g = (ext(p := a)) x + (parent_refs x fs + (if vf_parent f = Some x then 1 else 0))"
      "0 < vf_arc g" "vf_children g = prog x + (parent_refs x fs + (if vf_parent f = Some x then 1 else 0))"
      using f zero(2) ext D(2,3,4) [of x g] by (cases; auto simp: bump_def)+
  qed
qed

lemma files_inv_flag:
  assumes inv: "files_inv ext prog fs"
    and F: "\<And>f. vf_parent (F f) = vf_parent f \<and> vf_arc (F f) = vf_arc f \<and> vf_children (F f) = vf_children f"
  shows "files_inv ext prog (modify_file p F fs)"
proof -
  note D = files_invD [OF inv]
  have refs: "parent_refs x (modify_file p F fs) = parent_refs x fs" for x by (rule parent_refs_modify) (simp add: F)
  show ?thesis unfolding files_inv_def refs
  proof (intro conjI allI impI)
    fix x g assume "map_of (modify_file p F fs) x = Some g"
    then obtain g0 where "map_of fs x = Some g0" "g = (if x = p then F g0 else g0)" by (auto split: if_splits)
    then show "vf_arc g = ext x + parent_refs x fs" "0 < vf_arc g" "vf_children g = prog x + parent_refs x fs"
      using D(2,3,4) [of x g0] F [of g0] by auto
  next
    fix x assume "0 < ext x + parent_refs x fs"
    then show "map_of (modify_file p F fs) x \<noteq> None" using D(5) [of x] by auto
  qed (simp_all add: D(1,6))
qed

text \<open>Dropping references only removes files; identities stay.\<close>

definition idents :: "vm_files \<Rightarrow> (file_ptr \<times> u64) list" where
  "idents fs = map (\<lambda>(p, f). (p, vf_id f)) fs"

lemma idents_modify: "(\<And>f. vf_id (F f) = vf_id f) \<Longrightarrow> idents (modify_file p F fs) = idents fs"
  by (induction fs) (auto simp: idents_def modify_file_def)

lemma idents_drop_arc: "\<exists>P. idents (drop_arc p fs) = filter P (idents fs)"
proof (induction p fs rule: drop_arc.induct)
  case (1 p fs)
  have rem: "idents (remove_file p fs) = filter (\<lambda>e. fst e \<noteq> p) (idents fs)"
    by (induction fs) (auto simp: idents_def remove_file_def)
  have true: "xs = filter (\<lambda>_. True) xs" for xs :: "(file_ptr \<times> u64) list" by simp
  show ?case
  proof (cases "map_of fs p")
    case None
    then have "idents (drop_arc p fs) = idents fs" by (subst drop_arc.simps) simp
    then show ?thesis using true by metis
  next
    case (Some f)
    show ?thesis
    proof (cases "1 < vf_arc f")
      case True
      have "idents (drop_arc p fs) = idents fs"
        using Some True by (subst drop_arc.simps) (simp add: idents_modify)
      then show ?thesis using true by metis
    next
      case False
      show ?thesis
      proof (cases "vf_parent f")
        case None
        then show ?thesis using Some False rem by (subst drop_arc.simps) auto
      next
        case q: (Some q)
        obtain P where "idents (drop_arc q (modify_file q file_remove_child (remove_file p fs))) =
            filter P (idents (modify_file q file_remove_child (remove_file p fs)))"
          using "1.IH" [OF Some False q] by blast
        then show ?thesis using Some False q rem
          by (subst drop_arc.simps) (auto simp: idents_modify file_remove_child_def)
      qed
    qed
  qed
qed

lemma drop_arc_idents:
  "set (idents (drop_arc p fs)) \<subseteq> set (idents fs)"
  "distinct (map snd (idents fs) @ xs) \<Longrightarrow> distinct (map snd (idents (drop_arc p fs)) @ xs)"
proof -
  obtain P where P: "idents (drop_arc p fs) = filter P (idents fs)" using idents_drop_arc by blast
  then show "set (idents (drop_arc p fs)) \<subseteq> set (idents fs)" by auto
  have "set (map snd (filter P (idents fs))) \<subseteq> set (map snd (idents fs))" by auto
  then show "distinct (map snd (idents fs) @ xs) \<Longrightarrow> distinct (map snd (idents (drop_arc p fs)) @ xs)"
    unfolding P by (auto simp: distinct_map_filter)
qed

subsection \<open>The module's invariant\<close>

definition prog_of :: "(u64 \<times> file_ptr option) list \<Rightarrow> file_ptr \<Rightarrow> nat" where
  "prog_of pend p = count_list (map snd pend) (Some p)"

definition ext_of :: "kernel_module \<Rightarrow> file_ptr \<Rightarrow> nat" where
  "ext_of k p = count_list (k_fds k) p + count_list (map e_vm_ref (vm_list (k_handler k))) p + prog_of (k_pending k) p"

definition counts_inv :: "kernel_module \<Rightarrow> bool" where
  "counts_inv k \<longleftrightarrow> files_inv (ext_of k) (prog_of (k_pending k)) (k_files k) \<and>
     (\<forall>p f. map_of (k_files k) p = Some f \<longrightarrow> p < k_next_ptr k) \<and> distinct (map e_vm_ref (vm_list (k_handler k)))"

definition ids_in_use :: "kernel_module \<Rightarrow> u64 list" where
  "ids_in_use k = map snd (idents (k_files k)) @ map fst (k_pending k)"

definition ids_inv :: "kernel_module \<Rightarrow> bool" where
  "ids_inv k \<longleftrightarrow> distinct (ids_in_use k) \<and> (\<forall>i \<in> set (ids_in_use k). i < next_vm_id (k_handler k)) \<and>
     (\<forall>e \<in> set (vm_list (k_handler k)). (e_vm_ref e, e_vm_id e) \<in> set (idents (k_files k)))"

definition kernel_inv :: "kernel_module \<Rightarrow> bool" where
  "kernel_inv k \<longleftrightarrow> counts_inv k \<and> ids_inv k"

lemma prog_of_simps [simp]: "prog_of ((i, par) # pend) = bump par (prog_of pend)"
  by (auto simp: prog_of_def bump_def fun_eq_iff)

lemma prog_of_remove: "(i, par) \<in> set pend \<Longrightarrow> prog_of pend = bump par (prog_of (remove1 (i, par) pend))"
proof (induction pend)
  case (Cons e pend)
  then show ?case by (cases e) (auto simp: bump_def fun_eq_iff)
qed simp

lemma ext_of_pending:
  "(i, par) \<in> set (k_pending k) \<Longrightarrow> ext_of k = bump par (ext_of (k\<lparr>k_pending := remove1 (i, par) (k_pending k)\<rparr>))"
  using prog_of_remove [of i par "k_pending k"] by (auto simp: ext_of_def bump_def fun_eq_iff)

lemma ids_remove:
  assumes "(i, par) \<in> set pend" "distinct (xs @ map fst pend)"
  shows "distinct (xs @ map fst (remove1 (i, par) pend))" "i \<notin> set (xs @ map fst (remove1 (i, par) pend))"
    "set (map fst (remove1 (i, par) pend)) \<subseteq> set (map fst pend)"
proof -
  have sub: "set (map fst (remove1 (i, par) pend)) \<subseteq> set (map fst pend)"
    using set_remove1_subset [of "(i, par)" pend] by auto
  then show "set (map fst (remove1 (i, par) pend)) \<subseteq> set (map fst pend)" .
  have "distinct (map fst (remove1 (i, par) pend)) \<and> i \<notin> set (map fst (remove1 (i, par) pend))"
    using assms by (induction pend) (auto simp: image_iff dest: notin_set_remove1)
  moreover have "i \<in> set (map fst pend)" using assms(1) by force
  ultimately show "distinct (xs @ map fst (remove1 (i, par) pend))" "i \<notin> set (xs @ map fst (remove1 (i, par) pend))"
    using assms(2) sub by auto
qed

lemma map_of_idents: "map_of fs p = Some f \<Longrightarrow> (p, vf_id f) \<in> set (idents fs)"
  by (auto simp: idents_def dest: map_of_SomeD)

lemma idents_map_of:
  "distinct (map fst fs) \<Longrightarrow> (p, i) \<in> set (idents fs) \<Longrightarrow> \<exists>f. map_of fs p = Some f \<and> vf_id f = i"
  by (auto simp: idents_def)

lemma count_list_filter_ref:
  "count_list (map r (filter (\<lambda>e. r e \<noteq> p) xs)) x = (if x = p then 0 else count_list (map r xs) x)"
  by (induction xs) auto

lemma count_list_distinct: "distinct xs \<Longrightarrow> count_list xs p = (if p \<in> set xs then 1 else 0)"
  by (induction xs) auto

lemma live_ptr_less:
  assumes "counts_inv k"
  shows "map_of (k_files k) (k_next_ptr k) = None" "k_next_ptr k \<notin> set (map e_vm_ref (vm_list (k_handler k)))"
proof -
  show none: "map_of (k_files k) (k_next_ptr k) = None" using assms by (auto simp: counts_inv_def)
  have fi: "files_inv (ext_of k) (prog_of (k_pending k)) (k_files k)" using assms by (simp add: counts_inv_def)
  have "\<not> 0 < ext_of k (k_next_ptr k) + parent_refs (k_next_ptr k) (k_files k)"
    using files_invD(5) [OF fi, of "k_next_ptr k"] none by blast
  then show "k_next_ptr k \<notin> set (map e_vm_ref (vm_list (k_handler k)))" by (simp add: ext_of_def count_list_0_iff)
qed

lemma drop_arc_keys: "map_of (drop_arc p fs) q = Some f \<Longrightarrow> q \<in> fst ` set fs"
  using drop_arc_idents(1) [of p fs] map_of_idents [of "drop_arc p fs" q f] by (force simp: idents_def)

lemma counts_inv_begin:
  assumes inv: "counts_inv k"
  shows "create_root_begin m k = (r, k') \<Longrightarrow> counts_inv k'" "create_fork_begin m i k = (r, k') \<Longrightarrow> counts_inv k'"
proof -
  have same: "vm_list h = vm_list (k_handler k)" if "alloc_vm_id m (k_handler k) = (x, h)" for x h
    using that by (auto simp: alloc_vm_id_def split: if_splits)
  have ext: "ext_of (k\<lparr>k_handler := h\<rparr>) = ext_of k" "ext_of (k\<lparr>k_handler := h, k_pending := (j, par) # k_pending k\<rparr>) = bump par (ext_of k)"
    if "vm_list h = vm_list (k_handler k)" for h j par using that by (auto simp: ext_of_def bump_def fun_eq_iff)
  obtain x h where al: "alloc_vm_id m (k_handler k) = (x, h)" by force
  note h = same [OF al]
  show "counts_inv k'" if "create_root_begin m k = (r, k')"
    using that inv al h ext [OF h] by (cases x) (auto simp: create_root_begin_def counts_inv_def)
  show "counts_inv k'" if run: "create_fork_begin m i k = (r, k')"
  proof (cases "x = None \<or> find_vm_by_id i h = None")
    case True
    then have "k' = k\<lparr>k_handler := h\<rparr>" using run al by (cases x) (auto simp: create_fork_begin_def)
    then show ?thesis using inv h ext(1) [OF h] by (simp add: counts_inv_def)
  next
    case False
    then obtain j p where jp: "x = Some j" "find_vm_by_id i h = Some p" by auto
    let ?fs = "modify_file p (file_add_child \<circ> arc_clone) (k_files k)"
    have k': "k' = k\<lparr>k_handler := h, k_files := ?fs, k_pending := (j, Some p) # k_pending k\<rparr>"
      using run al jp by (simp add: create_fork_begin_def)
    have "p \<in> set (map e_vm_ref (vm_list (k_handler k)))"
      using jp(2) h by (auto simp: find_vm_by_id_def find_Some_iff)
    then have "0 < ext_of k p" by (simp add: ext_of_def) (metis count_list_0_iff gr0I list.set_map)
    moreover have fi: "files_inv (ext_of k) (prog_of (k_pending k)) (k_files k)" using inv by (simp add: counts_inv_def)
    ultimately have "files_inv (bump (Some p) (ext_of k)) (bump (Some p) (prog_of (k_pending k))) ?fs"
      using files_inv_clone files_invD(5) [OF fi, of p] by simp
    moreover have "ext_of k' = bump (Some p) (ext_of k)" using h by (auto simp: k' ext_of_def bump_def fun_eq_iff)
    ultimately show ?thesis using inv h by (auto simp: k' counts_inv_def split: if_splits)
  qed
qed

lemma counts_inv_fail:
  assumes inv: "counts_inv k" and pend: "(i, par) \<in> set (k_pending k)"
  shows "counts_inv (create_fail i par k)"
proof -
  let ?k = "k\<lparr>k_pending := remove1 (i, par) (k_pending k)\<rparr>"
  have fi: "files_inv (bump par (ext_of ?k)) (bump par (prog_of (k_pending ?k))) (k_files k)"
    using inv prog_of_remove [OF pend] ext_of_pending [OF pend] by (simp add: counts_inv_def)
  show ?thesis
  proof (cases par)
    case None
    then show ?thesis using inv fi by (simp add: create_fail_def counts_inv_def)
  next
    case (Some q)
    have "map_of (k_files (create_fail i par k)) x = Some f \<Longrightarrow> x < k_next_ptr k" for x f
    proof -
      assume "map_of (k_files (create_fail i par k)) x = Some f"
      then have "x \<in> fst ` set (modify_file q file_remove_child (k_files k))"
        using Some drop_arc_keys by (auto simp: create_fail_def Let_def)
      then have "x \<in> fst ` set (k_files k)" by (metis fst_modify_file list.set_map)
      then show "x < k_next_ptr k" using inv files_invD(1) [of "ext_of k" "prog_of (k_pending k)" "k_files k"]
        by (auto simp: counts_inv_def)
    qed
    moreover have "ext_of (create_fail i par k) = ext_of ?k" by (simp add: create_fail_def Let_def Some ext_of_def fun_eq_iff)
    ultimately show ?thesis
      using inv files_inv_unclone [OF fi [unfolded Some]] by (simp add: counts_inv_def create_fail_def Let_def Some)
  qed
qed

lemma prog_le_ext: "prog_of (k_pending k) x \<le> ext_of k x"
  by (simp add: ext_of_def)

lemma counts_inv_create_fd:
  assumes inv: "counts_inv k" and pend: "(i, par) \<in> set (k_pending k)"
  shows "counts_inv (create_fd push_ok fd_ok i par k)"
proof -
  define k0 where "k0 = k\<lparr>k_pending := remove1 (i, par) (k_pending k)\<rparr>"
  define p where "p = k_next_ptr k"
  define a :: nat where "a = (if push_ok then 2 else 1)"
  define f where "f = \<lparr>vf_id = i, vf_parent = par, vf_children = 0, vf_running = False, vf_arc = a\<rparr>"
  let ?fs = "(p, f) # k_files k" and ?refs = "map e_vm_ref (vm_list (k_handler k))"
  note fresh = live_ptr_less [OF inv, folded p_def]
  have fi: "files_inv (bump par (ext_of k0)) (bump par (prog_of (k_pending k0))) (k_files k)"
    using inv prog_of_remove [OF pend] ext_of_pending [OF pend] by (simp add: counts_inv_def k0_def)
  have new: "files_inv ((ext_of k0)(p := a)) (prog_of (k_pending k0)) ?fs"
    by (rule files_inv_new [OF fi fresh(1)]) (simp_all add: f_def a_def)
  have "\<not> 0 < bump par (ext_of k0) p + parent_refs p (k_files k)" using files_invD(5) [OF fi, of p] fresh(1) by blast
  then have e0: "ext_of k0 p = 0" by (simp add: bump_def)
  have lt: "\<forall>x g. map_of ?fs x = Some g \<longrightarrow> x < p + 1" using inv by (auto simp: counts_inv_def p_def less_SucI)
  have h: "vm_list (add_vm push_ok i p (k_handler k)) = vm_list (k_handler k) @ (if push_ok then [\<lparr>e_vm_id = i, e_vm_ref = p\<rparr>] else [])"
    by (simp add: add_vm_def)
  show ?thesis
  proof (cases fd_ok)
    case True
    let ?k = "create_fd push_ok fd_ok i par k"
    have "k_files ?k = ?fs" "k_pending ?k = k_pending k0" "k_next_ptr ?k = p + 1" "k_fds ?k = p # k_fds k"
      "k_handler ?k = add_vm push_ok i p (k_handler k)"
      using True by (simp_all add: create_fd_def Let_def p_def f_def a_def k0_def)
    moreover from this have "ext_of ?k = (ext_of k0)(p := a)"
      using e0 by (auto simp: ext_of_def fun_eq_iff h a_def k0_def)
    ultimately show ?thesis using new lt inv fresh(2) h by (auto simp: counts_inv_def)
  next
    case False
    let ?k = "create_fd push_ok fd_ok i par k"
    let ?fs1 = "if push_ok then drop_arc p ?fs else ?fs"
    have held: "p \<in> e_vm_ref ` set (vm_list (add_vm push_ok i p (k_handler k))) \<longleftrightarrow> push_ok" using fresh(2) h by auto
    have rm: "vm_list (remove_vm p (add_vm push_ok i p (k_handler k))) = vm_list (k_handler k)"
      using fresh(2) h by (auto simp: remove_vm_def filter_id_conv)
    have k: "k_files ?k = drop_arc p ?fs1" "k_pending ?k = k_pending k0" "k_next_ptr ?k = p + 1" "k_fds ?k = k_fds k0"
      "vm_list (k_handler ?k) = vm_list (k_handler k0)"
      using False held rm by (simp_all add: create_fd_def Let_def p_def f_def a_def k0_def)
    then have ext: "ext_of ?k = ext_of k0" by (simp add: ext_of_def fun_eq_iff)
    have le: "prog_of (k_pending k0) x \<le> ext_of k0 x" "prog_of (k_pending k0) x \<le> bump (Some p) (ext_of k0) x" for x
      using prog_le_ext [of k0 x] by (simp_all add: bump_def)
    have "files_inv (bump (Some p) (ext_of k0)) (prog_of (k_pending k0)) ?fs1"
    proof (cases push_ok)
      case True
      have eq: "(ext_of k0)(p := a) = bump (Some p) (bump (Some p) (ext_of k0))"
        using True e0 by (auto simp: a_def bump_def fun_eq_iff)
      show ?thesis using True drop_arc_bump [OF new [unfolded eq] le(2)] by simp
    next
      case False
      have "(ext_of k0)(p := a) = bump (Some p) (ext_of k0)" using False e0 by (auto simp: a_def bump_def fun_eq_iff)
      then show ?thesis using False new by simp
    qed
    then have "files_inv (ext_of ?k) (prog_of (k_pending ?k)) (k_files ?k)"
      unfolding k ext by (rule drop_arc_bump) (rule le(1))
    moreover have "x < p + 1" if "map_of (k_files ?k) x = Some g" for x g
    proof -
      have "x \<in> fst ` set ?fs1" using drop_arc_keys that unfolding k by blast
      moreover have "fst ` set (drop_arc p ?fs) \<subseteq> fst ` set ?fs" using drop_arc_idents(1) [of p ?fs] by (force simp: idents_def)
      ultimately have "x \<in> fst ` set ?fs" by (cases push_ok) auto
      then obtain g' where "map_of ?fs x = Some g'" by (metis map_of_eq_None_iff not_None_eq)
      then show ?thesis using lt by blast
    qed
    ultimately show ?thesis using inv k(3,5) by (simp add: counts_inv_def k0_def)
  qed
qed

lemma counts_inv_release:
  assumes inv: "counts_inv k" and fd: "p \<in> set (k_fds k)"
  shows "counts_inv (release_fd p k)"
proof -
  let ?k = "release_fd p k" and ?held = "p \<in> e_vm_ref ` set (vm_list (k_handler k))"
  let ?fs1 = "if ?held then drop_arc p (k_files k) else k_files k"
  have k: "k_files ?k = drop_arc p ?fs1" "k_pending ?k = k_pending k" "k_next_ptr ?k = k_next_ptr k"
    "k_fds ?k = remove1 p (k_fds k)" "vm_list (k_handler ?k) = filter (\<lambda>e. e_vm_ref e \<noteq> p) (vm_list (k_handler k))"
    by (simp_all add: release_fd_def Let_def remove_vm_def)
  have dist: "distinct (map e_vm_ref (vm_list (k_handler k)))" using inv by (simp add: counts_inv_def)
  have "0 < count_list (k_fds k) p" using fd by (metis count_list_0_iff gr0I)
  then have ext: "ext_of k = bump (Some p) (if ?held then bump (Some p) (ext_of ?k) else ext_of ?k)"
    using count_list_distinct [OF dist, of p]
    by (auto simp: ext_of_def k bump_def fun_eq_iff count_list_filter_ref)
  have le: "prog_of (k_pending k) x \<le> ext_of ?k x" "prog_of (k_pending k) x \<le> bump (Some p) (ext_of ?k) x" for x
    using prog_le_ext [of ?k x] by (simp_all add: bump_def k)
  have fi: "files_inv (ext_of k) (prog_of (k_pending k)) (k_files k)" using inv by (simp add: counts_inv_def)
  have "files_inv (bump (Some p) (ext_of ?k)) (prog_of (k_pending k)) ?fs1"
  proof (cases ?held)
    case True
    have "files_inv (bump (Some p) (bump (Some p) (ext_of ?k))) (prog_of (k_pending k)) (k_files k)"
      using fi [unfolded ext] True by simp
    then have "files_inv (bump (Some p) (ext_of ?k)) (prog_of (k_pending k)) (drop_arc p (k_files k))"
      by (rule drop_arc_bump) (rule le(2))
    then show ?thesis using True by simp
  next
    case False
    then show ?thesis using fi [unfolded ext] by simp
  qed
  then have "files_inv (ext_of ?k) (prog_of (k_pending ?k)) (k_files ?k)"
    unfolding k by (rule drop_arc_bump) (rule le(1) [unfolded k])
  moreover have "x < k_next_ptr k" if "map_of (k_files ?k) x = Some g" for x g
  proof -
    have "x \<in> fst ` set ?fs1" using drop_arc_keys that unfolding k by blast
    moreover have "fst ` set (drop_arc p (k_files k)) \<subseteq> fst ` set (k_files k)"
      using drop_arc_idents(1) [of p "k_files k"] by (force simp: idents_def)
    ultimately have "x \<in> fst ` set (k_files k)" by (cases ?held) auto
    then show ?thesis using inv files_invD(1) [OF fi] by (auto simp: counts_inv_def)
  qed
  moreover have "distinct (map e_vm_ref (vm_list (k_handler ?k)))" using dist by (simp add: k distinct_map_filter)
  ultimately show ?thesis by (simp add: counts_inv_def k(3))
qed

lemma counts_inv_run:
  assumes inv: "counts_inv k"
  shows "run_begin p k = (r, k') \<Longrightarrow> counts_inv k'" "counts_inv (run_end p k)"
proof -
  have flag: "counts_inv (k\<lparr>k_files := modify_file p (\<lambda>f. f\<lparr>vf_running := b\<rparr>) (k_files k)\<rparr>)" for b
  proof -
    have "files_inv (ext_of k) (prog_of (k_pending k)) (modify_file p (\<lambda>f. f\<lparr>vf_running := b\<rparr>) (k_files k))"
      using inv by (intro files_inv_flag) (simp_all add: counts_inv_def)
    moreover have "ext_of (k\<lparr>k_files := fs\<rparr>) = ext_of k" for fs by (simp add: ext_of_def fun_eq_iff)
    ultimately show ?thesis using inv by (auto simp: counts_inv_def split: if_splits)
  qed
  then show "counts_inv (run_end p k)" by (simp add: run_end_def)
  show "run_begin p k = (r, k') \<Longrightarrow> counts_inv k'"
    using inv flag by (auto simp: run_begin_def split: option.splits if_splits)
qed

text \<open>Identifiers: a step that only drops files, or takes or returns an identifier.\<close>

lemma ids_inv_drop:
  assumes "ids_inv k" "counts_inv k'"
    and "set (idents (k_files k')) \<subseteq> set (idents (k_files k))" "distinct (ids_in_use k')" "set (ids_in_use k') \<subseteq> set (ids_in_use k)"
    and "set (vm_list (k_handler k')) \<subseteq> set (vm_list (k_handler k))" "next_vm_id (k_handler k') = next_vm_id (k_handler k)"
    and "distinct (map fst (k_files k))"
  shows "ids_inv k'"
  unfolding ids_inv_def
proof (intro conjI ballI)
  show "distinct (ids_in_use k')" by (rule assms(4))
  show "i < next_vm_id (k_handler k')" if "i \<in> set (ids_in_use k')" for i using assms(1,5,7) that by (auto simp: ids_inv_def)
  fix e assume e: "e \<in> set (vm_list (k_handler k'))"
  have fi: "files_inv (ext_of k') (prog_of (k_pending k')) (k_files k')" using assms(2) by (simp add: counts_inv_def)
  have "0 < count_list (map e_vm_ref (vm_list (k_handler k'))) (e_vm_ref e)"
    using e by (metis count_list_0_iff gr0I imageI list.set_map)
  then have "map_of (k_files k') (e_vm_ref e) \<noteq> None" using files_invD(5) [OF fi, of "e_vm_ref e"] by (simp add: ext_of_def)
  then obtain f where "map_of (k_files k') (e_vm_ref e) = Some f" by auto
  then have f: "(e_vm_ref e, vf_id f) \<in> set (idents (k_files k'))" by (rule map_of_idents)
  have "(e_vm_ref e, e_vm_id e) \<in> set (idents (k_files k))" using assms(1,6) e by (auto simp: ids_inv_def)
  moreover have "(e_vm_ref e, vf_id f) \<in> set (idents (k_files k))" using f assms(3) by blast
  ultimately have "vf_id f = e_vm_id e"
    using idents_map_of [OF assms(8), of "e_vm_ref e" "e_vm_id e"] idents_map_of [OF assms(8), of "e_vm_ref e" "vf_id f"] by auto
  then show "(e_vm_ref e, e_vm_id e) \<in> set (idents (k_files k'))"
    using f by simp
qed

lemma counts_distinct: "counts_inv k \<Longrightarrow> distinct (map fst (k_files k))"
  using files_invD(1) by (auto simp: counts_inv_def)

lemma less_next_id:
  fixes n :: u64
  assumes "unat n < 2 ^ 64 - 1" shows "i < n \<Longrightarrow> i < n + 1" "n < n + 1"
proof -
  have "unat (n + 1) = unat n + 1" using assms by (simp add: unat_word_ariths)
  then show "i < n \<Longrightarrow> i < n + 1" "n < n + 1" by (simp_all add: word_less_nat_alt)
qed

lemma idents_fork_begin [simp]: "idents (modify_file p (file_add_child \<circ> arc_clone) fs) = idents fs"
  by (rule idents_modify) (simp add: file_add_child_def arc_clone_def)

lemma idents_remove_child [simp]: "idents (modify_file p file_remove_child fs) = idents fs"
  by (rule idents_modify) (simp add: file_remove_child_def)

lemma ids_inv_take:
  assumes inv: "ids_inv k" and room: "unat (next_vm_id (k_handler k)) < 2 ^ 64 - 1"
    and same: "idents (k_files k') = idents (k_files k)" "vm_list (k_handler k') = vm_list (k_handler k)"
      "next_vm_id (k_handler k') = next_vm_id (k_handler k) + 1"
    and pend: "k_pending k' = k_pending k \<or> k_pending k' = (next_vm_id (k_handler k), par) # k_pending k"
  shows "ids_inv k'"
proof -
  let ?n = "next_vm_id (k_handler k)" and ?A = "map snd (idents (k_files k))" and ?B = "map fst (k_pending k)"
  have d: "distinct (?A @ ?B)" and lt: "\<And>j. j \<in> set (?A @ ?B) \<Longrightarrow> j < ?n"
    using inv by (auto simp: ids_inv_def ids_in_use_def)
  have fresh: "?n \<notin> set (?A @ ?B)" using lt [of ?n] by blast
  have up: "j < ?n + 1" if "j \<in> set (?A @ ?B)" for j using less_next_id(1) [OF room lt [OF that]] .
  have use: "ids_in_use k' = ?A @ ?B \<or> ids_in_use k' = ?A @ ?n # ?B" using pend same(1) by (auto simp: ids_in_use_def)
  have "distinct (?A @ ?n # ?B)" using d fresh by (simp only: distinct_append distinct.simps set_append list.set) blast
  moreover have "set (?A @ ?n # ?B) = insert ?n (set (?A @ ?B))" by (simp only: set_append list.set) blast
  ultimately have "distinct (ids_in_use k')" "\<forall>j \<in> set (ids_in_use k'). j < ?n + 1"
    using use d up less_next_id(2) [OF room] by (metis insert_iff)+
  then show ?thesis using inv same by (simp add: ids_inv_def)
qed

lemma ids_inv_begin:
  assumes inv: "ids_inv k" and room: "unat (next_vm_id (k_handler k)) < 2 ^ 64 - 1"
  shows "create_root_begin m k = (r, k') \<Longrightarrow> ids_inv k'" "create_fork_begin m i k = (r, k') \<Longrightarrow> ids_inv k'"
proof -
  obtain x h where al: "alloc_vm_id m (k_handler k) = (x, h)" by force
  have h: "vm_list h = vm_list (k_handler k)" "x = None \<Longrightarrow> h = k_handler k"
    "\<And>j. x = Some j \<Longrightarrow> j = next_vm_id (k_handler k) \<and> next_vm_id h = next_vm_id (k_handler k) + 1"
    using al by (auto simp: alloc_vm_id_def split: if_splits)
  show "ids_inv k'" if run: "create_root_begin m k = (r, k')"
  proof (cases x)
    case None
    then show ?thesis using run al h(2) inv by (simp add: create_root_begin_def)
  next
    case (Some j)
    then show ?thesis using run al h by (intro ids_inv_take [OF inv room, where par = None]) (auto simp: create_root_begin_def)
  qed
  show "ids_inv k'" if run: "create_fork_begin m i k = (r, k')"
  proof (cases x)
    case None
    then show ?thesis using run al h(2) inv by (simp add: create_fork_begin_def)
  next
    case (Some j)
    then show ?thesis using run al h
      by (intro ids_inv_take [OF inv room, where par = "find_vm_by_id i h"])
        (auto simp: create_fork_begin_def split: option.splits)
  qed
qed

lemma drop_two_idents:
  "set (idents (drop_arc p (if b then drop_arc p fs else fs))) \<subseteq> set (idents fs)"
  "distinct (map snd (idents fs) @ xs) \<Longrightarrow> distinct (map snd (idents (drop_arc p (if b then drop_arc p fs else fs))) @ xs)"
proof -
  show "set (idents (drop_arc p (if b then drop_arc p fs else fs))) \<subseteq> set (idents fs)"
    using drop_arc_idents(1) [of p fs] drop_arc_idents(1) [of p "drop_arc p fs"] by (cases b; simp only: if_True if_False; blast)
  show "distinct (map snd (idents (drop_arc p (if b then drop_arc p fs else fs))) @ xs)"
    if "distinct (map snd (idents fs) @ xs)"
    using drop_arc_idents(2) [OF that, of p] drop_arc_idents(2) [OF drop_arc_idents(2) [OF that], of p p] by (cases b) (simp_all only: if_True if_False)
qed

lemma ids_inv_fail:
  assumes inv: "counts_inv k" "ids_inv k" and pend: "(i, par) \<in> set (k_pending k)"
  shows "ids_inv (create_fail i par k)"
proof (rule ids_inv_drop [OF inv(2) counts_inv_fail [OF inv(1) pend] _ _ _ _ _ counts_distinct [OF inv(1)]])
  let ?k = "create_fail i par k"
  have p: "k_pending ?k = remove1 (i, par) (k_pending k)" by (simp add: create_fail_def Let_def split: option.split)
  have h: "k_handler ?k = k_handler k" by (simp add: create_fail_def Let_def split: option.split)
  then show "set (vm_list (k_handler ?k)) \<subseteq> set (vm_list (k_handler k))" "next_vm_id (k_handler ?k) = next_vm_id (k_handler k)" by simp_all
  have f: "k_files ?k = (case par of None \<Rightarrow> k_files k | Some q \<Rightarrow> drop_arc q (modify_file q file_remove_child (k_files k)))"
    by (simp add: create_fail_def Let_def split: option.split)
  show sub: "set (idents (k_files ?k)) \<subseteq> set (idents (k_files k))"
    unfolding f using drop_arc_idents(1) [where fs = "modify_file q file_remove_child (k_files k)" for q] by (cases par) simp_all
  have d: "distinct (map snd (idents (k_files k)) @ map fst (k_pending k))" using inv(2) by (simp add: ids_inv_def ids_in_use_def)
  note r = ids_remove [OF pend d]
  show "distinct (ids_in_use ?k)" unfolding ids_in_use_def f p
  proof (cases par)
    case (Some q)
    have "distinct (map snd (idents (modify_file q file_remove_child (k_files k))) @ map fst (remove1 (i, par) (k_pending k)))"
      using r(1) by simp
    then show "distinct (map snd (idents (case par of None \<Rightarrow> k_files k
        | Some q \<Rightarrow> drop_arc q (modify_file q file_remove_child (k_files k)))) @ map fst (remove1 (i, par) (k_pending k)))"
      using Some by (simp only: option.case drop_arc_idents(2))
  qed (use r(1) in simp)
  show "set (ids_in_use ?k) \<subseteq> set (ids_in_use k)" using sub r(3) unfolding ids_in_use_def p by auto
qed

lemma ids_inv_create_fd:
  assumes inv: "counts_inv k" "ids_inv k" and pend: "(i, par) \<in> set (k_pending k)"
  shows "ids_inv (create_fd push_ok fd_ok i par k)"
proof -
  define p where "p = k_next_ptr k"
  define f where "f = \<lparr>vf_id = i, vf_parent = par, vf_children = 0, vf_running = False, vf_arc = (if push_ok then 2 else 1)\<rparr>"
  define k1 where "k1 = k\<lparr>k_pending := remove1 (i, par) (k_pending k), k_files := (p, f) # k_files k,
     k_next_ptr := p + 1, k_handler := add_vm push_ok i p (k_handler k)\<rparr>"
  have d: "distinct (map snd (idents (k_files k)) @ map fst (k_pending k))" using inv(2) by (simp add: ids_inv_def ids_in_use_def)
  note r = ids_remove [OF pend d]
  have i: "i \<in> set (ids_in_use k)" using pend by (force simp: ids_in_use_def)
  have id1: "idents (k_files k1) = (p, i) # idents (k_files k)" by (simp add: k1_def f_def idents_def)
  have use: "ids_in_use k1 = i # map snd (idents (k_files k)) @ map fst (remove1 (i, par) (k_pending k))"
    by (simp add: ids_in_use_def id1) (simp add: k1_def)
  have sub: "set (ids_in_use k1) \<subseteq> set (ids_in_use k)" using use r(3) i by (auto simp: ids_in_use_def)
  have one: "ids_inv k1" unfolding ids_inv_def
  proof (intro conjI ballI)
    show "distinct (ids_in_use k1)" using use r(1,2) by simp
    show "j < next_vm_id (k_handler k1)" if "j \<in> set (ids_in_use k1)" for j
      using that sub inv(2) by (auto simp: k1_def add_vm_def ids_inv_def)
    show "(e_vm_ref e, e_vm_id e) \<in> set (idents (k_files k1))" if "e \<in> set (vm_list (k_handler k1))" for e
      using that inv(2) unfolding id1 by (auto simp: ids_inv_def k1_def add_vm_def split: if_splits)
  qed
  show ?thesis
  proof (cases fd_ok)
    case True
    have "create_fd push_ok fd_ok i par k = k1\<lparr>k_fds := p # k_fds k\<rparr>"
      using True by (simp add: create_fd_def Let_def k1_def p_def f_def)
    then show ?thesis using one by (simp add: ids_inv_def ids_in_use_def)
  next
    case False
    let ?k = "create_fd push_ok fd_ok i par k"
    define held where "held = (p \<in> e_vm_ref ` set (vm_list (k_handler k1)))"
    define fs1 where "fs1 = (if held then drop_arc p (k_files k1) else k_files k1)"
    have k: "k_files ?k = drop_arc p fs1" "k_pending ?k = k_pending k1" "k_handler ?k = remove_vm p (k_handler k1)"
      using False by (simp_all add: create_fd_def Let_def k1_def p_def f_def fs1_def held_def)
    have s: "set (idents (k_files ?k)) \<subseteq> set (idents (k_files k1))"
      unfolding k fs1_def by (rule drop_two_idents(1))
    have "map_of (k_files k) p = None" using live_ptr_less(1) [OF inv(1)] by (simp add: p_def)
    then have dk: "distinct (map fst (k_files k1))" using counts_distinct [OF inv(1)] by (auto simp: k1_def map_of_eq_None_iff)
    have "distinct (map snd (idents (k_files k1)) @ map fst (k_pending k1))" using one by (simp add: ids_inv_def ids_in_use_def)
    then have dd: "distinct (ids_in_use ?k)" unfolding ids_in_use_def k fs1_def by (rule drop_two_idents(2))
    show ?thesis
      by (rule ids_inv_drop [OF one counts_inv_create_fd [OF inv(1) pend] s dd _ _ _ dk])
        (use s k in \<open>auto simp: ids_in_use_def remove_vm_def\<close>)
  qed
qed

lemma ids_inv_release:
  assumes inv: "counts_inv k" "ids_inv k" and fd: "p \<in> set (k_fds k)"
  shows "ids_inv (release_fd p k)"
proof -
  let ?k = "release_fd p k"
  define fs1 where "fs1 = (if p \<in> e_vm_ref ` set (vm_list (k_handler k)) then drop_arc p (k_files k) else k_files k)"
  have k: "k_files ?k = drop_arc p fs1" "k_pending ?k = k_pending k" "k_handler ?k = remove_vm p (k_handler k)"
    by (simp_all add: release_fd_def Let_def fs1_def)
  have s: "set (idents (k_files ?k)) \<subseteq> set (idents (k_files k))"
    unfolding k fs1_def by (rule drop_two_idents(1))
  have "distinct (map snd (idents (k_files k)) @ map fst (k_pending k))" using inv(2) by (simp add: ids_inv_def ids_in_use_def)
  then have dd: "distinct (ids_in_use ?k)" unfolding ids_in_use_def k fs1_def by (rule drop_two_idents(2))
  show ?thesis
    by (rule ids_inv_drop [OF inv(2) counts_inv_release [OF inv(1) fd] s dd _ _ _ counts_distinct [OF inv(1)]])
      (use s k in \<open>auto simp: ids_in_use_def remove_vm_def\<close>)
qed

lemma ids_inv_run:
  assumes inv: "ids_inv k"
  shows "run_begin p k = (r, k') \<Longrightarrow> ids_inv k'" "ids_inv (run_end p k)"
proof -
  have flag: "ids_inv (k\<lparr>k_files := modify_file p (\<lambda>f. f\<lparr>vf_running := b\<rparr>) (k_files k)\<rparr>)" for b
    using inv idents_modify [of "\<lambda>f. f\<lparr>vf_running := b\<rparr>"] by (simp add: ids_inv_def ids_in_use_def)
  then show "ids_inv (run_end p k)" by (simp add: run_end_def)
  show "run_begin p k = (r, k') \<Longrightarrow> ids_inv k'"
    using inv flag by (auto simp: run_begin_def split: option.splits if_splits)
qed

subsection \<open>Reachable states\<close>

text \<open>One step per critical section.  The kernel calls \<open>release\<close> only when no operation on the
  descriptor is in progress.  Identifiers are 64 bits wide and are assumed not to run out.\<close>

inductive kstep :: "nat \<Rightarrow> kernel_module \<Rightarrow> kernel_module \<Rightarrow> bool" for max_vms where
  begin_root: "unat (next_vm_id (k_handler k)) < 2 ^ 64 - 1 \<Longrightarrow> create_root_begin max_vms k = (r, k') \<Longrightarrow> kstep max_vms k k'"
| begin_fork: "unat (next_vm_id (k_handler k)) < 2 ^ 64 - 1 \<Longrightarrow> create_fork_begin max_vms i k = (r, k') \<Longrightarrow> kstep max_vms k k'"
| creation_fails: "(i, par) \<in> set (k_pending k) \<Longrightarrow> kstep max_vms k (create_fail i par k)"
| creation_done: "(i, par) \<in> set (k_pending k) \<Longrightarrow> kstep max_vms k (create_fd push_ok fd_ok i par k)"
| close: "p \<in> set (k_fds k) \<Longrightarrow> map_of (k_files k) p = Some f \<Longrightarrow> \<not> vf_running f \<Longrightarrow> kstep max_vms k (release_fd p k)"
| run: "p \<in> set (k_fds k) \<Longrightarrow> run_begin p k = (r, k') \<Longrightarrow> kstep max_vms k k'"
| stop: "p \<in> set (k_fds k) \<Longrightarrow> map_of (k_files k) p = Some f \<Longrightarrow> vf_running f \<Longrightarrow> kstep max_vms k (run_end p k)"

definition kernel_init :: "bedrock_handler \<Rightarrow> kernel_module" where
  "kernel_init h = \<lparr>k_handler = h, k_files = [], k_next_ptr = 0, k_fds = [], k_pending = []\<rparr>"

lemma kernel_inv_init: "handler_new init_ok mem_ok = Inr h \<Longrightarrow> kernel_inv (kernel_init h)"
  by (auto simp: handler_new_def kernel_inv_def counts_inv_def ids_inv_def kernel_init_def files_inv_def ext_of_def
      prog_of_def parent_refs_def ids_in_use_def idents_def split: if_splits)

lemma kstep_inv: "kstep m k k' \<Longrightarrow> kernel_inv k \<Longrightarrow> kernel_inv k'"
  unfolding kernel_inv_def
proof (induction rule: kstep.induct)
  case (begin_root k r k')
  then show ?case using counts_inv_begin(1) ids_inv_begin(1) by blast
next
  case (begin_fork k i r k')
  then show ?case using counts_inv_begin(2) ids_inv_begin(2) by blast
next
  case (run p k r k')
  then show ?case using counts_inv_run(1) ids_inv_run(1) by blast
qed (blast intro: counts_inv_fail ids_inv_fail counts_inv_create_fd ids_inv_create_fd counts_inv_release
      ids_inv_release counts_inv_run ids_inv_run)+

lemma kernel_reachable_inv:
  assumes "handler_new init_ok mem_ok = Inr h" "(kstep m)\<^sup>*\<^sup>* (kernel_init h) k"
  shows "kernel_inv k"
  using assms(2)
  by (induction rule: rtranclp_induct) (auto intro: kernel_inv_init [OF assms(1)] kstep_inv)

subsection \<open>Properties\<close>

text \<open>A root VM, a fork of it, and the same with the root running when it is forked.\<close>

definition w_handler :: bedrock_handler where
  "w_handler = \<lparr>vm_list = [], next_vm_id = 1\<rparr>"

definition w_root_up :: kernel_module where
  "w_root_up = create_fd True True 1 None (snd (create_root_begin 1024 (kernel_init w_handler)))"

definition w_forking :: kernel_module where
  "w_forking = snd (create_fork_begin 1024 1 w_root_up)"

definition w_forked :: kernel_module where
  "w_forked = create_fd True True 2 (Some 0) w_forking"

lemma w_handler_new: "handler_new True True = Inr w_handler"
  by (simp add: handler_new_def w_handler_def)

lemma w_root_up_reachable: "(kstep 1024)\<^sup>*\<^sup>* (kernel_init w_handler) w_root_up"
proof -
  let ?k = "snd (create_root_begin 1024 (kernel_init w_handler))"
  have "kstep 1024 (kernel_init w_handler) ?k"
    by (rule begin_root [OF _ prod.collapse [symmetric]]) (simp add: kernel_init_def w_handler_def)
  moreover have "kstep 1024 ?k w_root_up" unfolding w_root_up_def
    by (rule creation_done) (simp add: create_root_begin_def alloc_vm_id_def can_create_vm_def kernel_init_def w_handler_def)
  ultimately show ?thesis by (meson converse_rtranclp_into_rtranclp rtranclp.rtrancl_refl)
qed

lemma w_root_up_eval:
  "next_vm_id (k_handler w_root_up) = 2" "k_fds w_root_up = [0]" "vf_id (the (map_of (k_files w_root_up) 0)) = 1"
  "find_vm_by_id 1 (k_handler w_root_up) = Some 0" "map_of (k_files w_root_up) 0 \<noteq> None"
  by code_simp+

lemma w_forked_reachable: "(kstep 1024)\<^sup>*\<^sup>* (kernel_init w_handler) w_forked"
proof -
  have "kstep 1024 w_root_up w_forking" unfolding w_forking_def
    by (rule begin_fork [OF _ prod.collapse [symmetric]]) (simp add: w_root_up_eval)
  moreover have "(2, Some 0) \<in> set (k_pending w_forking)" by code_simp
  then have "kstep 1024 w_forking w_forked" unfolding w_forked_def by (rule creation_done)
  ultimately show ?thesis using w_root_up_reachable by (meson rtranclp.rtrancl_into_rtrancl)
qed

text \<open>C9. A parent outlives its forks.  In every reachable state of the module, whatever was created, forked,
  run, failed or closed in whatever order, the child counter of every VM file is exactly the number of its
  forks, finished and in progress; the file of a fork's parent is still allocated and counts at least that
  fork; and running a VM that has a fork is refused.\<close>

theorem parent_outlives_forks:
  assumes "handler_new init_ok mem_ok = Inr h" and "(kstep m)\<^sup>*\<^sup>* (kernel_init h) k"
    and "map_of (k_files k) q = Some g \<and> vf_parent g = Some p \<or> (i, Some p) \<in> set (k_pending k)"
  shows "\<exists>f. map_of (k_files k) p = Some f \<and> 0 < vf_children f \<and>
    vf_children f = parent_refs p (k_files k) + prog_of (k_pending k) p \<and> run_begin p k = (Inl EBUSY, k)"
proof -
  have "counts_inv k" using kernel_reachable_inv [OF assms(1,2)] by (simp add: kernel_inv_def)
  then have fi: "files_inv (ext_of k) (prog_of (k_pending k)) (k_files k)" by (simp add: counts_inv_def)
  have pos: "0 < parent_refs p (k_files k) + prog_of (k_pending k) p"
    using assms(3)
  proof
    assume "map_of (k_files k) q = Some g \<and> vf_parent g = Some p"
    then show ?thesis using parent_refs_self by fastforce
  next
    assume "(i, Some p) \<in> set (k_pending k)"
    then have "prog_of (k_pending k) p \<noteq> 0" using prog_of_remove [of i "Some p" "k_pending k"] by (simp add: bump_def)
    then show ?thesis by simp
  qed
  then have "0 < ext_of k p + parent_refs p (k_files k)" using files_invD(6) [OF fi, of p] by linarith
  then obtain f where f: "map_of (k_files k) p = Some f" using files_invD(5) [OF fi, of p] by auto
  have "vf_children f = parent_refs p (k_files k) + prog_of (k_pending k) p" using files_invD(4) [OF fi f] by simp
  moreover from this have "run_begin p k = (Inl EBUSY, k)" using f pos by (simp add: run_begin_def)
  ultimately show ?thesis using f pos by simp
qed

theorem parent_outlives_forks_witness:
  "\<exists>f. map_of (k_files w_forked) 0 = Some f \<and> 0 < vf_children f \<and> run_begin 0 w_forked = (Inl EBUSY, w_forked)"
proof -
  have "map_of (k_files w_forked) 1 \<noteq> None \<and> vf_parent (the (map_of (k_files w_forked) 1)) = Some 0" by code_simp
  then obtain g where g: "map_of (k_files w_forked) 1 = Some g \<and> vf_parent g = Some 0" by auto
  then show ?thesis
    using parent_outlives_forks [OF w_handler_new w_forked_reachable, of 1 g 0] by blast
qed

text \<open>C12. Identifiers name one VM.  In every reachable state two VM files with the same identifier are the same file,
  and looking an identifier up yields a live file with that identifier.\<close>

theorem vm_ids_unique:
  assumes "handler_new init_ok mem_ok = Inr h" and "(kstep m)\<^sup>*\<^sup>* (kernel_init h) k"
  shows "(\<forall>p q f g. map_of (k_files k) p = Some f \<longrightarrow> map_of (k_files k) q = Some g \<longrightarrow> vf_id f = vf_id g \<longrightarrow> p = q) \<and>
    (\<forall>i p. find_vm_by_id i (k_handler k) = Some p \<longrightarrow> (\<exists>f. map_of (k_files k) p = Some f \<and> vf_id f = i))"
proof -
  have inv: "counts_inv k" "ids_inv k" using kernel_reachable_inv [OF assms] by (simp_all add: kernel_inv_def)
  have "distinct (map snd (idents (k_files k)))" using inv(2) by (simp add: ids_inv_def ids_in_use_def)
  then have inj: "inj_on snd (set (idents (k_files k)))" by (simp add: distinct_map)
  have "p = q" if "map_of (k_files k) p = Some f" "map_of (k_files k) q = Some g" "vf_id f = vf_id g" for p q f g
    using inj_onD [OF inj _ map_of_idents [OF that(1)] map_of_idents [OF that(2)]] that(3) by simp
  moreover have "\<exists>f. map_of (k_files k) p = Some f \<and> vf_id f = i" if find: "find_vm_by_id i (k_handler k) = Some p" for i p
  proof -
    obtain e where e: "e \<in> set (vm_list (k_handler k))" "e_vm_id e = i" "e_vm_ref e = p"
      using find by (auto simp: find_vm_by_id_def find_Some_iff) (metis nth_mem)
    then have "(p, i) \<in> set (idents (k_files k))" using inv(2) by (auto simp: ids_inv_def)
    then show ?thesis by (rule idents_map_of [OF counts_distinct [OF inv(1)]])
  qed
  ultimately show ?thesis by blast
qed

theorem vm_ids_unique_witness:
  "\<exists>f. map_of (k_files w_root_up) 0 = Some f \<and> vf_id f = 1"
  using vm_ids_unique [OF w_handler_new w_root_up_reachable] w_root_up_eval(4) by blast

text \<open>C13. The check of \<open>handle_run\<close> happens once, at entry, and forking does not look at the run flag: a fork of a
  running VM is admitted, and its parent keeps running while it has a child.\<close>

theorem fork_of_running_vm_admitted:
  "\<exists>k f. (kstep 1024)\<^sup>*\<^sup>* (kernel_init w_handler) k \<and> map_of (k_files k) 0 = Some f \<and> vf_running f \<and> 0 < vf_children f"
proof -
  let ?k1 = "snd (run_begin 0 w_root_up)"
  let ?k2 = "snd (create_fork_begin 1024 1 ?k1)"
  have "kstep 1024 w_root_up ?k1" by (rule run [OF _ prod.collapse [symmetric]]) (simp add: w_root_up_eval)
  moreover have "kstep 1024 ?k1 ?k2"
  proof (rule begin_fork [OF _ prod.collapse [symmetric]])
    have "next_vm_id (k_handler ?k1) = 2" by code_simp
    then show "unat (next_vm_id (k_handler ?k1)) < 2 ^ 64 - 1" by simp
  qed
  ultimately have "(kstep 1024)\<^sup>*\<^sup>* (kernel_init w_handler) ?k2"
    using w_root_up_reachable by (meson rtranclp.rtrancl_into_rtrancl)
  moreover have "map_of (k_files ?k2) 0 \<noteq> None \<and> vf_running (the (map_of (k_files ?k2) 0)) \<and>
      0 < vf_children (the (map_of (k_files ?k2) 0))" by code_simp
  ultimately show ?thesis by (metis option.collapse)
qed

end
