(* ===== verification/Exit_Types.thy ===== *)
theory Exit_Types
  imports Bedrock_Prelude
begin

text \<open>
  The vocabulary of VM exits, from \<open>bedrock-vmx/src/exits/reasons.rs\<close>,
  \<open>qualifications.rs\<close> and \<open>helpers.rs\<close>: exit reasons, the exit qualifications the
  processor delivers, the event-injection word, and the results of exit handlers.

  \<open>ExitReason\<close> is \<open>#[repr(u32)]\<close> and has 94 variants without data. It is
  represented by its discriminant; each variant is an abbreviation for its code.
\<close>

section \<open>Exit reasons\<close>

type_synonym exit_reason = u32

abbreviation (input) ExitReason_ExceptionNmi :: exit_reason where "ExitReason_ExceptionNmi \<equiv> 0"
abbreviation (input) ExitReason_ExternalInterrupt :: exit_reason where "ExitReason_ExternalInterrupt \<equiv> 1"
abbreviation (input) ExitReason_TripleFault :: exit_reason where "ExitReason_TripleFault \<equiv> 2"
abbreviation (input) ExitReason_Init :: exit_reason where "ExitReason_Init \<equiv> 3"
abbreviation (input) ExitReason_Sipi :: exit_reason where "ExitReason_Sipi \<equiv> 4"
abbreviation (input) ExitReason_IoSmi :: exit_reason where "ExitReason_IoSmi \<equiv> 5"
abbreviation (input) ExitReason_OtherSmi :: exit_reason where "ExitReason_OtherSmi \<equiv> 6"
abbreviation (input) ExitReason_InterruptWindow :: exit_reason where "ExitReason_InterruptWindow \<equiv> 7"
abbreviation (input) ExitReason_NmiWindow :: exit_reason where "ExitReason_NmiWindow \<equiv> 8"
abbreviation (input) ExitReason_TaskSwitch :: exit_reason where "ExitReason_TaskSwitch \<equiv> 9"
abbreviation (input) ExitReason_Cpuid :: exit_reason where "ExitReason_Cpuid \<equiv> 10"
abbreviation (input) ExitReason_Getsec :: exit_reason where "ExitReason_Getsec \<equiv> 11"
abbreviation (input) ExitReason_Hlt :: exit_reason where "ExitReason_Hlt \<equiv> 12"
abbreviation (input) ExitReason_Invd :: exit_reason where "ExitReason_Invd \<equiv> 13"
abbreviation (input) ExitReason_Invlpg :: exit_reason where "ExitReason_Invlpg \<equiv> 14"
abbreviation (input) ExitReason_Rdpmc :: exit_reason where "ExitReason_Rdpmc \<equiv> 15"
abbreviation (input) ExitReason_Rdtsc :: exit_reason where "ExitReason_Rdtsc \<equiv> 16"
abbreviation (input) ExitReason_Rsm :: exit_reason where "ExitReason_Rsm \<equiv> 17"
abbreviation (input) ExitReason_Vmcall :: exit_reason where "ExitReason_Vmcall \<equiv> 18"
abbreviation (input) ExitReason_Vmclear :: exit_reason where "ExitReason_Vmclear \<equiv> 19"
abbreviation (input) ExitReason_Vmlaunch :: exit_reason where "ExitReason_Vmlaunch \<equiv> 20"
abbreviation (input) ExitReason_Vmptrld :: exit_reason where "ExitReason_Vmptrld \<equiv> 21"
abbreviation (input) ExitReason_Vmptrst :: exit_reason where "ExitReason_Vmptrst \<equiv> 22"
abbreviation (input) ExitReason_Vmread :: exit_reason where "ExitReason_Vmread \<equiv> 23"
abbreviation (input) ExitReason_Vmresume :: exit_reason where "ExitReason_Vmresume \<equiv> 24"
abbreviation (input) ExitReason_Vmwrite :: exit_reason where "ExitReason_Vmwrite \<equiv> 25"
abbreviation (input) ExitReason_Vmxoff :: exit_reason where "ExitReason_Vmxoff \<equiv> 26"
abbreviation (input) ExitReason_Vmxon :: exit_reason where "ExitReason_Vmxon \<equiv> 27"
abbreviation (input) ExitReason_CrAccess :: exit_reason where "ExitReason_CrAccess \<equiv> 28"
abbreviation (input) ExitReason_DrAccess :: exit_reason where "ExitReason_DrAccess \<equiv> 29"
abbreviation (input) ExitReason_IoInstruction :: exit_reason where "ExitReason_IoInstruction \<equiv> 30"
abbreviation (input) ExitReason_MsrRead :: exit_reason where "ExitReason_MsrRead \<equiv> 31"
abbreviation (input) ExitReason_MsrWrite :: exit_reason where "ExitReason_MsrWrite \<equiv> 32"
abbreviation (input) ExitReason_InvalidGuestState :: exit_reason where "ExitReason_InvalidGuestState \<equiv> 33"
abbreviation (input) ExitReason_MsrLoadFail :: exit_reason where "ExitReason_MsrLoadFail \<equiv> 34"
abbreviation (input) ExitReason_Reserved35 :: exit_reason where "ExitReason_Reserved35 \<equiv> 35"
abbreviation (input) ExitReason_Mwait :: exit_reason where "ExitReason_Mwait \<equiv> 36"
abbreviation (input) ExitReason_MonitorTrapFlag :: exit_reason where "ExitReason_MonitorTrapFlag \<equiv> 37"
abbreviation (input) ExitReason_Reserved38 :: exit_reason where "ExitReason_Reserved38 \<equiv> 38"
abbreviation (input) ExitReason_Monitor :: exit_reason where "ExitReason_Monitor \<equiv> 39"
abbreviation (input) ExitReason_Pause :: exit_reason where "ExitReason_Pause \<equiv> 40"
abbreviation (input) ExitReason_MceDuringVmentry :: exit_reason where "ExitReason_MceDuringVmentry \<equiv> 41"
abbreviation (input) ExitReason_Reserved42 :: exit_reason where "ExitReason_Reserved42 \<equiv> 42"
abbreviation (input) ExitReason_TprBelowThreshold :: exit_reason where "ExitReason_TprBelowThreshold \<equiv> 43"
abbreviation (input) ExitReason_ApicAccess :: exit_reason where "ExitReason_ApicAccess \<equiv> 44"
abbreviation (input) ExitReason_VirtualizedEoi :: exit_reason where "ExitReason_VirtualizedEoi \<equiv> 45"
abbreviation (input) ExitReason_GdtrIdtrAccess :: exit_reason where "ExitReason_GdtrIdtrAccess \<equiv> 46"
abbreviation (input) ExitReason_LdtrTrAccess :: exit_reason where "ExitReason_LdtrTrAccess \<equiv> 47"
abbreviation (input) ExitReason_EptViolation :: exit_reason where "ExitReason_EptViolation \<equiv> 48"
abbreviation (input) ExitReason_EptMisconfiguration :: exit_reason where "ExitReason_EptMisconfiguration \<equiv> 49"
abbreviation (input) ExitReason_Invept :: exit_reason where "ExitReason_Invept \<equiv> 50"
abbreviation (input) ExitReason_Rdtscp :: exit_reason where "ExitReason_Rdtscp \<equiv> 51"
abbreviation (input) ExitReason_VmxPreemptionTimer :: exit_reason where "ExitReason_VmxPreemptionTimer \<equiv> 52"
abbreviation (input) ExitReason_Invvpid :: exit_reason where "ExitReason_Invvpid \<equiv> 53"
abbreviation (input) ExitReason_Wbinvd :: exit_reason where "ExitReason_Wbinvd \<equiv> 54"
abbreviation (input) ExitReason_Xsetbv :: exit_reason where "ExitReason_Xsetbv \<equiv> 55"
abbreviation (input) ExitReason_ApicWrite :: exit_reason where "ExitReason_ApicWrite \<equiv> 56"
abbreviation (input) ExitReason_Rdrand :: exit_reason where "ExitReason_Rdrand \<equiv> 57"
abbreviation (input) ExitReason_Invpcid :: exit_reason where "ExitReason_Invpcid \<equiv> 58"
abbreviation (input) ExitReason_Vmfunc :: exit_reason where "ExitReason_Vmfunc \<equiv> 59"
abbreviation (input) ExitReason_Encls :: exit_reason where "ExitReason_Encls \<equiv> 60"
abbreviation (input) ExitReason_Rdseed :: exit_reason where "ExitReason_Rdseed \<equiv> 61"
abbreviation (input) ExitReason_PmlFull :: exit_reason where "ExitReason_PmlFull \<equiv> 62"
abbreviation (input) ExitReason_Xsaves :: exit_reason where "ExitReason_Xsaves \<equiv> 63"
abbreviation (input) ExitReason_Xrstors :: exit_reason where "ExitReason_Xrstors \<equiv> 64"
abbreviation (input) ExitReason_Pconfig :: exit_reason where "ExitReason_Pconfig \<equiv> 65"
abbreviation (input) ExitReason_SppRelated :: exit_reason where "ExitReason_SppRelated \<equiv> 66"
abbreviation (input) ExitReason_Umwait :: exit_reason where "ExitReason_Umwait \<equiv> 67"
abbreviation (input) ExitReason_Tpause :: exit_reason where "ExitReason_Tpause \<equiv> 68"
abbreviation (input) ExitReason_Loadiwkey :: exit_reason where "ExitReason_Loadiwkey \<equiv> 69"
abbreviation (input) ExitReason_Reserved70 :: exit_reason where "ExitReason_Reserved70 \<equiv> 70"
abbreviation (input) ExitReason_Reserved71 :: exit_reason where "ExitReason_Reserved71 \<equiv> 71"
abbreviation (input) ExitReason_EnqcmdPasid :: exit_reason where "ExitReason_EnqcmdPasid \<equiv> 72"
abbreviation (input) ExitReason_EnqcmdsPasid :: exit_reason where "ExitReason_EnqcmdsPasid \<equiv> 73"
abbreviation (input) ExitReason_BusLock :: exit_reason where "ExitReason_BusLock \<equiv> 74"
abbreviation (input) ExitReason_InstructionTimeout :: exit_reason where "ExitReason_InstructionTimeout \<equiv> 75"
abbreviation (input) ExitReason_Seamcall :: exit_reason where "ExitReason_Seamcall \<equiv> 76"
abbreviation (input) ExitReason_Tdcall :: exit_reason where "ExitReason_Tdcall \<equiv> 77"
abbreviation (input) ExitReason_Rdmsrlist :: exit_reason where "ExitReason_Rdmsrlist \<equiv> 78"
abbreviation (input) ExitReason_Wrmsrlist :: exit_reason where "ExitReason_Wrmsrlist \<equiv> 79"
abbreviation (input) ExitReason_NeedResched :: exit_reason where "ExitReason_NeedResched \<equiv> 256"
abbreviation (input) ExitReason_VmcallShutdown :: exit_reason where "ExitReason_VmcallShutdown \<equiv> 258"
abbreviation (input) ExitReason_StopTscReached :: exit_reason where "ExitReason_StopTscReached \<equiv> 259"
abbreviation (input) ExitReason_VmcallSnapshot :: exit_reason where "ExitReason_VmcallSnapshot \<equiv> 260"
abbreviation (input) ExitReason_VmcallFeedbackBuffer :: exit_reason where "ExitReason_VmcallFeedbackBuffer \<equiv> 261"
abbreviation (input) ExitReason_PoolExhausted :: exit_reason where "ExitReason_PoolExhausted \<equiv> 262"
abbreviation (input) ExitReason_VmcallPebsPage :: exit_reason where "ExitReason_VmcallPebsPage \<equiv> 263"
abbreviation (input) ExitReason_VmcallIoRegisterPage :: exit_reason where "ExitReason_VmcallIoRegisterPage \<equiv> 264"
abbreviation (input) ExitReason_VmcallIoResponse :: exit_reason where "ExitReason_VmcallIoResponse \<equiv> 265"
abbreviation (input) ExitReason_VmcallReady :: exit_reason where "ExitReason_VmcallReady \<equiv> 266"
abbreviation (input) ExitReason_EventBufferFull :: exit_reason where "ExitReason_EventBufferFull \<equiv> 267"
abbreviation (input) ExitReason_VmcallFileFetch :: exit_reason where "ExitReason_VmcallFileFetch \<equiv> 268"
abbreviation (input) ExitReason_VmcallGetRandom :: exit_reason where "ExitReason_VmcallGetRandom \<equiv> 269"
abbreviation (input) ExitReason_VmcallFileStore :: exit_reason where "ExitReason_VmcallFileStore \<equiv> 270"

text \<open>\<open>ExitReason::try_from\<close>: the codes 0 to 79 are the hardware reasons, every
  other value of the low 16 bits is an \<open>UnknownExitReason\<close>.\<close>

definition exit_reason_try_from :: "u32 \<Rightarrow> u32 + exit_reason" where
  "exit_reason_try_from value =
     (let basic = value AND 0xFFFF
      in if basic < 80 then Inr basic else Inl basic)"

section \<open>Exit qualifications\<close>

datatype cr_access_type = MovToCr | MovFromCr | Clts | Lmsw

definition cr_access_type_try_from :: "u8 \<Rightarrow> cr_access_type option" where
  "cr_access_type_try_from value =
     (if value = 0 then Some MovToCr else if value = 1 then Some MovFromCr
      else if value = 2 then Some Clts else if value = 3 then Some Lmsw else None)"

record cr_access_qualification =
  cr_number :: u8
  access_type :: cr_access_type
  register :: u8
  lmsw_source_data :: u16

definition cr_access_qualification_from :: "u64 \<Rightarrow> cr_access_qualification" where
  "cr_access_qualification_from qual =
     \<lparr>cr_number = ucast (qual AND 0xF),
      access_type = (case cr_access_type_try_from (ucast (drop_bit 4 qual AND 0x3)) of
                       Some t \<Rightarrow> t | None \<Rightarrow> MovToCr),
      register = ucast (drop_bit 8 qual AND 0xF),
      lmsw_source_data = ucast (drop_bit 16 qual AND 0xFFFF)\<rparr>"

datatype io_direction = IoOut | IoIn

datatype io_access_size = Byte | Word | Dword

text \<open>\<open>size as usize\<close>: the discriminants are the access widths in bytes.\<close>

primrec io_access_bytes :: "io_access_size \<Rightarrow> nat" where
  "io_access_bytes Byte = 1"
| "io_access_bytes Word = 2"
| "io_access_bytes Dword = 4"

definition io_access_size_try_from :: "u8 \<Rightarrow> io_access_size option" where
  "io_access_size_try_from value =
     (if value = 0 then Some Byte else if value = 1 then Some Word
      else if value = 3 then Some Dword else None)"

record io_qualification =
  io_size :: io_access_size
  io_dir :: io_direction
  io_string :: bool
  io_port :: u16

definition io_qualification_from :: "u64 \<Rightarrow> io_qualification" where
  "io_qualification_from qual =
     \<lparr>io_size = (case io_access_size_try_from (ucast (qual AND 0x7)) of Some s \<Rightarrow> s | None \<Rightarrow> Byte),
      io_dir = (if drop_bit 3 qual AND 1 \<noteq> 0 then IoIn else IoOut),
      io_string = (drop_bit 4 qual AND 1 \<noteq> 0),
      io_port = ucast (drop_bit 16 qual AND 0xFFFF)\<rparr>"

record ept_violation_qualification =
  q_read :: bool
  q_write :: bool
  q_execute :: bool
  q_readable :: bool
  q_writable :: bool
  q_executable :: bool
  guest_linear_valid :: bool
  asynchronous :: bool

definition ept_violation_qualification_from :: "u64 \<Rightarrow> ept_violation_qualification" where
  "ept_violation_qualification_from qual =
     \<lparr>q_read = (qual AND push_bit 0 1 \<noteq> 0),
      q_write = (qual AND push_bit 1 1 \<noteq> 0),
      q_execute = (qual AND push_bit 2 1 \<noteq> 0),
      q_readable = (qual AND push_bit 3 1 \<noteq> 0),
      q_writable = (qual AND push_bit 4 1 \<noteq> 0),
      q_executable = (qual AND push_bit 5 1 \<noteq> 0),
      guest_linear_valid = (qual AND push_bit 7 1 \<noteq> 0),
      asynchronous = (qual AND push_bit 16 1 \<noteq> 0)\<rparr>"

section \<open>Event injection\<close>

datatype interruption_type =
    ExternalInterrupt | Reserved | Nmi | HardwareException | SoftwareInterrupt
  | PrivilegedSoftwareException | SoftwareException | OtherEvent

primrec interruption_type_code :: "interruption_type \<Rightarrow> u32" where
  "interruption_type_code ExternalInterrupt = 0"
| "interruption_type_code Reserved = 1"
| "interruption_type_code Nmi = 2"
| "interruption_type_code HardwareException = 3"
| "interruption_type_code SoftwareInterrupt = 4"
| "interruption_type_code PrivilegedSoftwareException = 5"
| "interruption_type_code SoftwareException = 6"
| "interruption_type_code OtherEvent = 7"

record interruption_info =
  int_vector :: u8
  interruption_type :: interruption_type
  error_code_valid :: bool
  nmi_unblocking :: bool
  int_valid :: bool

definition external_interrupt :: "u8 \<Rightarrow> interruption_info" where
  "external_interrupt v =
     \<lparr>int_vector = v, interruption_type = ExternalInterrupt, error_code_valid = False,
      nmi_unblocking = False, int_valid = True\<rparr>"

definition interruption_info_encode :: "interruption_info \<Rightarrow> u32" where
  "interruption_info_encode info =
     (let value = ucast (int_vector info);
          value = value OR push_bit 8 (interruption_type_code (interruption_type info));
          value = (if error_code_valid info then value OR push_bit 11 1 else value);
          value = (if nmi_unblocking info then value OR push_bit 12 1 else value)
      in if int_valid info then value OR push_bit 31 1 else value)"

definition interruption_info_from :: "u32 \<Rightarrow> interruption_info" where
  "interruption_info_from value =
     \<lparr>int_vector = ucast (value AND 0xFF),
      interruption_type =
        (let t = drop_bit 8 value AND 0x7
         in if t = 0 then ExternalInterrupt else if t = 1 then Reserved else if t = 2 then Nmi
            else if t = 3 then HardwareException else if t = 4 then SoftwareInterrupt
            else if t = 5 then PrivilegedSoftwareException
            else if t = 6 then SoftwareException else OtherEvent),
      error_code_valid = (drop_bit 11 value AND 1 \<noteq> 0),
      nmi_unblocking = (drop_bit 12 value AND 1 \<noteq> 0),
      int_valid = (drop_bit 31 value AND 1 \<noteq> 0)\<rparr>"

section \<open>RDRAND and RDSEED operands\<close>

datatype rdrand_operand_size = Size16 | Size32 | Size64

primrec rdrand_size_bits :: "rdrand_operand_size \<Rightarrow> u8" where
  "rdrand_size_bits Size16 = 16"
| "rdrand_size_bits Size32 = 32"
| "rdrand_size_bits Size64 = 64"

definition rdrand_size_try_from :: "u8 \<Rightarrow> rdrand_operand_size option" where
  "rdrand_size_try_from value =
     (if value = 0 then Some Size16 else if value = 1 then Some Size32
      else if value = 2 then Some Size64 else None)"

record rdrand_instruction_info =
  dest_reg :: u8
  operand_size :: rdrand_operand_size

definition rdrand_instruction_info_from :: "u32 \<Rightarrow> rdrand_instruction_info" where
  "rdrand_instruction_info_from value =
     \<lparr>dest_reg = ucast (drop_bit 3 value AND 0xF),
      operand_size = (case rdrand_size_try_from (ucast (drop_bit 11 value AND 0x3)) of
                        Some s \<Rightarrow> s | None \<Rightarrow> Size64)\<rparr>"

section \<open>Results of exit handlers\<close>

text \<open>\<open>VmcsReadError\<close> and \<open>VmcsWriteError\<close> carry no information the handlers use.\<close>

datatype exit_error =
    VmcsReadError
  | VmcsWriteError
  | UnknownExitReason u32
  | TripleFault
  | InvalidGuestState
  | Fatal string

datatype exit_handler_result =
    Continue
  | ExitToUserspace exit_reason
  | HandlerError exit_error

section \<open>Lemmas\<close>

lemma interruption_type_decode:
  "(let t = interruption_type_code ty
    in if t = 0 then ExternalInterrupt else if t = 1 then Reserved else if t = 2 then Nmi
       else if t = 3 then HardwareException else if t = 4 then SoftwareInterrupt
       else if t = 5 then PrivilegedSoftwareException
       else if t = 6 then SoftwareException else OtherEvent) = ty"
  by (cases ty) simp_all

lemma interruption_type_code_bits: "interruption_type_code ty AND 0x7 = interruption_type_code ty"
  by (cases ty) simp_all

lemma interruption_type_code_bit: "bit (interruption_type_code ty) n \<Longrightarrow> n < 3"
proof -
  assume "bit (interruption_type_code ty) n"
  then have "bit (interruption_type_code ty AND mask 3) n"
    by (simp only: mask_eq_exp_minus_1) (simp add: interruption_type_code_bits)
  then show "n < 3" by (simp add: bit_simps)
qed

lemma bit_interruption_info_encode:
  "bit (interruption_info_encode info) n \<longleftrightarrow>
     n < 8 \<and> bit (int_vector info) n
   \<or> 8 \<le> n \<and> n < 11 \<and> bit (interruption_type_code (interruption_type info)) (n - 8)
   \<or> n = 11 \<and> error_code_valid info \<or> n = 12 \<and> nmi_unblocking info \<or> n = 31 \<and> int_valid info"
proof -
  have or_if: "(if c then v OR w else v) = v OR (if c then w else 0)" for c and v w :: u32
    by simp
  have flag: "bit (if c then push_bit k 1 else 0 :: u32) n \<longleftrightarrow> c \<and> k = n" if "k < 32" for c k
    using that by (auto simp: bit_simps)
  have vec: "bit (ucast (int_vector info) :: u32) n \<longleftrightarrow> n < 8 \<and> bit (int_vector info) n"
    by (auto simp: bit_simps dest: bit_imp_le_length)
  have ty: "bit (push_bit 8 (interruption_type_code (interruption_type info))) n \<longleftrightarrow>
      8 \<le> n \<and> n < 11 \<and> bit (interruption_type_code (interruption_type info)) (n - 8)"
    using interruption_type_code_bit [of "interruption_type info" "n - 8"] by (auto simp: bit_simps)
  show ?thesis
    unfolding interruption_info_encode_def Let_def or_if bit_or_iff vec ty
    by (subst flag, simp)+ blast
qed

lemma interruption_info_decode_type:
  "drop_bit 8 (interruption_info_encode info) AND mask 3 = interruption_type_code (interruption_type info)"
  by (rule bit_word_eqI)
    (auto simp: bit_simps bit_interruption_info_encode dest: interruption_type_code_bit)

lemma interruption_info_decode_vector:
  "ucast (interruption_info_encode info AND mask 8) = int_vector info"
  by (rule bit_word_eqI) (auto simp: bit_simps bit_interruption_info_encode)

lemma interruption_info_decode_encode:
  "interruption_info_from (interruption_info_encode info) = info"
proof -
  have m: "(0x7 :: u32) = mask 3" "(0xFF :: u32) = mask 8" by (simp_all add: mask_eq_exp_minus_1)
  show ?thesis
    unfolding interruption_info_from_def m drop_bit_flag_iff interruption_info_decode_type
      interruption_info_decode_vector interruption_type_decode
    by (simp add: bit_interruption_info_encode)
qed

lemma interruption_type_code_decode:
  "interruption_type_code
     (let t = drop_bit 8 w AND 0x7
      in if t = 0 then ExternalInterrupt else if t = 1 then Reserved else if t = 2 then Nmi
         else if t = 3 then HardwareException else if t = 4 then SoftwareInterrupt
         else if t = 5 then PrivilegedSoftwareException
         else if t = 6 then SoftwareException else OtherEvent) = drop_bit 8 w AND 0x7"
proof -
  define t where "t = drop_bit 8 w AND 0x7"
  have "t = take_bit 3 (drop_bit 8 w)" by (simp add: t_def take_bit_eq_mask mask_eq_exp_minus_1)
  then have "unat t < 2 ^ 3" by (simp only: unsigned_take_bit_eq) (rule take_bit_nat_less_exp)
  then have "unat t \<in> {0, 1, 2, 3, 4, 5, 6, 7}" by auto
  then have "t = 0 \<or> t = 1 \<or> t = 2 \<or> t = 3 \<or> t = 4 \<or> t = 5 \<or> t = 6 \<or> t = 7"
    by (simp add: word_unat_eq_iff)
  then show ?thesis unfolding t_def [symmetric] Let_def by auto
qed

lemma interruption_info_encode_decode:
  "interruption_info_encode (interruption_info_from w) = w AND 0x80001FFF"
proof (rule bit_word_eqI)
  fix n assume n: "n < LENGTH(32)"
  have m: "(0x7 :: u32) = mask 3" "(0xFF :: u32) = mask 8" by (simp_all add: mask_eq_exp_minus_1)
  have "(0x80001FFF :: u32) = mask 13 OR push_bit 31 1" by (simp add: mask_eq_exp_minus_1)
  then have low: "bit (0x80001FFF :: u32) n \<longleftrightarrow> n < 13 \<or> n = 31" using n
    by (simp only: bit_or_iff bit_mask_iff bit_push_bit_iff bit_1_iff) auto
  have enc: "bit (interruption_info_encode (interruption_info_from w)) n \<longleftrightarrow>
      n < 8 \<and> bit w n \<or> 8 \<le> n \<and> n < 11 \<and> bit w n \<or> (n = 11 \<or> n = 12 \<or> n = 31) \<and> bit w n"
    unfolding bit_interruption_info_encode
    unfolding interruption_info_from_def interruption_info.simps interruption_type_code_decode drop_bit_flag_iff
    unfolding m by (auto simp: bit_simps)
  show "bit (interruption_info_encode (interruption_info_from w)) n \<longleftrightarrow> bit (w AND 0x80001FFF) n"
    unfolding bit_and_iff low enc by auto
qed

lemma exit_reason_try_from_code:
  "r < 80 \<Longrightarrow> exit_reason_try_from r = Inr r"
proof -
  assume "r < 80"
  then have "unat r < 80" by (simp add: word_less_nat_alt)
  then have "unat (take_bit 16 r) = unat r"
    by (simp only: unsigned_take_bit_eq) (simp add: take_bit_nat_eq_self)
  then have "r AND 0xFFFF = r" by (simp add: word_unat_eq_iff take_bit_eq_mask mask_eq_exp_minus_1)
  with \<open>r < 80\<close> show ?thesis by (simp add: exit_reason_try_from_def)
qed

text \<open>The event-injection word round-trips: decoding an encoded interruption
  information gives it back, and encoding a decoded VMCS word gives the word with
  the reserved bits cleared, so re-injecting an interrupted event loses nothing.\<close>

theorem interruption_info_roundtrip:
  "interruption_info_from (interruption_info_encode info) = info \<and>
   interruption_info_encode (interruption_info_from w) = w AND 0x80001FFF"
  by (simp add: interruption_info_decode_encode interruption_info_encode_decode)

text \<open>Exit reasons parse totally: a raw exit reason is accepted exactly when its
  low 16 bits are one of the 80 hardware codes, whatever the flags in the high
  half are, and the reported code is that one; every synthetic reason the
  hypervisor generates itself is refused as a raw reason.\<close>

theorem exit_reason_parse:
  "(exit_reason_try_from v = Inr r \<longleftrightarrow> r = v AND 0xFFFF \<and> r < 80) \<and>
   (exit_reason_try_from v = Inl r \<longleftrightarrow> r = v AND 0xFFFF \<and> 80 \<le> r) \<and>
   exit_reason_try_from ExitReason_PoolExhausted = Inl 262 \<and>
   exit_reason_try_from (0x80000000 OR ExitReason_InvalidGuestState) = Inr ExitReason_InvalidGuestState"
  by (auto simp: exit_reason_try_from_def Let_def)

end
