(* ===== verification/Rtc.thy ===== *)
theory Rtc
  imports Bedrock_Prelude
begin

text \<open>
  The CMOS clock of \<open>bedrock-vmx/src/devices/rtc.rs\<close>. The clock has no state of
  its own but a base time: every register is computed from the emulated time
  stamp counter. The lemmas show that the year and month loops invert the
  calendar and that a guest which reads the BCD registers and converts them back
  to a Unix time stamp obtains the base time plus the elapsed emulated seconds.
\<close>

section \<open>The device\<close>

record rtc_state =
  rtc_index :: u8
  base_time :: u64

definition rtc_default :: rtc_state where
  "rtc_default = \<lparr>rtc_index = 0, base_time = 1704067200\<rparr>"

definition set_time :: "u64 \<Rightarrow> rtc_state \<Rightarrow> rtc_state" where
  "set_time timestamp r = r\<lparr>base_time := timestamp\<rparr>"

definition to_bcd :: "u8 \<Rightarrow> u8" where
  "to_bcd value = push_bit 4 (value div 10) OR (value mod 10)"

definition is_leap_year :: "u32 \<Rightarrow> bool" where
  "is_leap_year year \<longleftrightarrow> year mod 4 = 0 \<and> year mod 100 \<noteq> 0 \<or> year mod 400 = 0"

definition days_in_year :: "u32 \<Rightarrow> u64" where
  "days_in_year year = (if is_leap_year year then 366 else 365)"

text \<open>The year loop of \<open>days_to_date\<close>: it ends because every iteration subtracts
  a positive number of days that is available.\<close>

function year_loop :: "u32 \<Rightarrow> u64 \<Rightarrow> u32 \<times> u64" where
  "year_loop year remaining_days =
     (if remaining_days < days_in_year year then (year, remaining_days)
      else year_loop (year + 1) (remaining_days - days_in_year year))"
  by auto
termination
proof (relation "measure (\<lambda>(y, d). unat d)", goal_cases)
  case (2 year d)
  then have "days_in_year year \<le> d" by simp
  moreover have "unat (days_in_year year) > 0" by (simp add: days_in_year_def)
  moreover have "unat (days_in_year year) \<le> unat d" using \<open>days_in_year year \<le> d\<close> by (simp add: word_le_nat_alt)
  ultimately show ?case by (simp add: unat_sub)
qed simp

declare year_loop.simps [simp del]

definition days_in_months :: "bool \<Rightarrow> u64 list" where
  "days_in_months leap =
     (if leap then [31, 29, 31, 30, 31, 30, 31, 31, 30, 31, 30, 31]
      else [31, 28, 31, 30, 31, 30, 31, 31, 30, 31, 30, 31])"

fun month_loop :: "u64 list \<Rightarrow> u8 \<Rightarrow> u64 \<Rightarrow> u8 \<times> u64" where
  "month_loop [] month remaining_days = (month, remaining_days)"
| "month_loop (days_in_month # ms) month remaining_days =
     (if remaining_days < days_in_month then (month, remaining_days)
      else month_loop ms (month + 1) (remaining_days - days_in_month))"

definition days_to_date :: "u64 \<Rightarrow> u32 \<times> u8 \<times> u8 \<times> u8" where
  "days_to_date days =
     (let day_of_week = ucast ((days + 4) mod 7 + 1);
          (year, remaining_days) = year_loop 1970 days;
          (month, remaining_days) = month_loop (days_in_months (is_leap_year year)) 1 remaining_days;
          day = ucast (remaining_days + 1)
      in (year, month, day, day_of_week))"

definition read_register_with_tsc :: "u64 \<Rightarrow> u64 \<Rightarrow> rtc_state \<Rightarrow> u8" where
  "read_register_with_tsc emulated_tsc tsc_frequency r =
     (let elapsed_secs = (if tsc_frequency = 0 then 0 else emulated_tsc div tsc_frequency);
          secs = base_time r + elapsed_secs;
          days = secs div 86400;
          time_of_day = secs mod 86400;
          hours = ucast (time_of_day div 3600);
          minutes = ucast ((time_of_day mod 3600) div 60);
          seconds = ucast (time_of_day mod 60);
          (year, month, day, day_of_week) = days_to_date days;
          index = rtc_index r
      in if index = 0x00 then to_bcd seconds
         else if index = 0x02 then to_bcd minutes
         else if index = 0x04 then to_bcd hours
         else if index = 0x06 then to_bcd day_of_week
         else if index = 0x07 then to_bcd day
         else if index = 0x08 then to_bcd month
         else if index = 0x09 then to_bcd (ucast (year mod 100))
         else if index = 0x0A then 0x00
         else if index = 0x0B then 0x02
         else if index = 0x0C then 0x00
         else if index = 0x0D then 0x80
         else if index = 0x32 then to_bcd (ucast (year div 100))
         else 0x00)"

section \<open>The calendar\<close>

text \<open>Reference definitions over the natural numbers: the number of days before a
  year, counted from 1970, and before a month of a year.\<close>

definition leap :: "nat \<Rightarrow> bool" where
  "leap y \<longleftrightarrow> y mod 4 = 0 \<and> y mod 100 \<noteq> 0 \<or> y mod 400 = 0"

definition year_days :: "nat \<Rightarrow> nat" where
  "year_days y = (if leap y then 366 else 365)"

definition month_days :: "nat \<Rightarrow> nat list" where
  "month_days y = [31, if leap y then 29 else 28, 31, 30, 31, 30, 31, 31, 30, 31, 30, 31]"

definition days_before_year :: "nat \<Rightarrow> nat" where
  "days_before_year y = (\<Sum>z = 1970..<y. year_days z)"

definition days_before_month :: "nat \<Rightarrow> nat \<Rightarrow> nat" where
  "days_before_month y m = sum_list (take (m - 1) (month_days y))"

definition civil_days :: "nat \<Rightarrow> nat \<Rightarrow> nat \<Rightarrow> nat" where
  "civil_days y m d = days_before_year y + days_before_month y m + (d - 1)"

definition from_bcd :: "u8 \<Rightarrow> nat" where
  "from_bcd b = 10 * unat (drop_bit 4 b) + unat (b AND 0xF)"

section \<open>Lemmas\<close>

lemma is_leap_year_nat: "is_leap_year y = leap (unat y)"
  by (simp add: is_leap_year_def leap_def word_unat_eq_iff unat_mod)

lemma unat_days_in_year: "unat (days_in_year y) = year_days (unat y)"
  by (simp add: days_in_year_def year_days_def is_leap_year_nat)

lemma days_before_year_Suc: "1970 \<le> y \<Longrightarrow> days_before_year (Suc y) = days_before_year y + year_days y"
  by (simp add: days_before_year_def)

text \<open>The year loop keeps the number of days before the year plus the days that
  remain, as long as the 32-bit year does not wrap around.\<close>

lemma year_loop_inverts:
  "year_loop y d = (y', d') \<Longrightarrow> 1970 \<le> unat y \<Longrightarrow> unat y + unat d < 2 ^ 32 \<Longrightarrow>
   days_before_year (unat y') + unat d' = days_before_year (unat y) + unat d
   \<and> unat d' < year_days (unat y') \<and> 1970 \<le> unat y' \<and> unat y' \<le> unat y + unat d"
proof (induction y d rule: year_loop.induct)
  case (1 y d)
  show ?case
  proof (cases "d < days_in_year y")
    case True
    then show ?thesis using 1
      by (simp add: year_loop.simps [of y d] word_less_nat_alt unat_days_in_year)
  next
    case False
    then have le: "year_days (unat y) \<le> unat d"
      by (simp add: not_less word_le_nat_alt unat_days_in_year)
    have sub: "unat (d - days_in_year y) = unat d - year_days (unat y)"
      using False by (simp add: unat_sub not_less unat_days_in_year)
    have pos: "365 \<le> year_days (unat y)" by (simp add: year_days_def)
    have "unat y + 1 < 2 ^ 32" using "1.prems"(3) le pos by linarith
    then have suc: "unat (y + 1) = Suc (unat y)" by (simp add: unat_word_ariths)
    have "year_loop (y + 1) (d - days_in_year y) = (y', d')"
      using "1.prems"(1) False by (simp add: year_loop.simps [of y d])
    note IH = "1.IH" [OF False this]
    have "1970 \<le> unat (y + 1)" "unat (y + 1) + unat (d - days_in_year y) < 2 ^ 32"
      using "1.prems"(2,3) le pos unfolding suc sub by linarith+
    from IH [OF this] show ?thesis
      using "1.prems"(2,3) le pos unfolding suc sub days_before_year_Suc [OF "1.prems"(2)] by linarith
  qed
qed

lemma days_in_months_nat: "map unat (days_in_months (is_leap_year y)) = month_days (unat y)"
  by (simp add: days_in_months_def month_days_def is_leap_year_nat)

lemma month_loop_inverts:
  "month_loop ms m d = (m', d') \<Longrightarrow> unat d < sum_list (map unat ms) \<Longrightarrow> unat m + length ms < 256 \<Longrightarrow>
   unat m \<le> unat m' \<and> unat m' < unat m + length ms
   \<and> unat d = sum_list (map unat (take (unat m' - unat m) ms)) + unat d'
   \<and> unat d' < unat (ms ! (unat m' - unat m))"
proof (induction ms m d rule: month_loop.induct)
  case (2 dm ms m d)
  show ?case
  proof (cases "d < dm")
    case True
    then show ?thesis using 2 by (auto simp: word_less_nat_alt)
  next
    case False
    then have le: "unat dm \<le> unat d" by (simp add: not_less word_le_nat_alt)
    have sub: "unat (d - dm) = unat d - unat dm" using False by (simp add: unat_sub not_less)
    have suc: "unat (m + 1) = Suc (unat m)" using "2.prems"(3) by (simp add: unat_word_ariths)
    have "month_loop ms (m + 1) (d - dm) = (m', d')" using "2.prems"(1) False by simp
    note IH = "2.IH" [OF False this]
    have "unat (m + 1) \<le> unat m' \<and> unat m' < unat (m + 1) + length ms
      \<and> unat (d - dm) = sum_list (map unat (take (unat m' - unat (m + 1)) ms)) + unat d'
      \<and> unat d' < unat (ms ! (unat m' - unat (m + 1)))"
      using "2.prems"(2,3) le by (intro IH) (auto simp: sub suc)
    moreover from this have "unat m' - unat m = Suc (unat m' - unat (m + 1))" unfolding suc by arith
    ultimately show ?thesis using le by (auto simp: suc sub)
  qed
qed simp

lemma sum_month_days: "sum_list (month_days y) = year_days y"
  by (simp add: month_days_def year_days_def)

lemma month_days_le: "m < 12 \<Longrightarrow> month_days y ! m \<le> 31"
  by (simp add: month_days_def less_Suc_eq numeral_eq_Suc) auto

lemma length_days_in_months [simp]: "length (days_in_months l) = 12"
  by (simp add: days_in_months_def)

lemma days_to_date_inverts:
  assumes "days_to_date d = (y, m, dd, w)" and bound: "1970 + unat d < 2 ^ 32"
  shows "civil_days (unat y) (unat m) (unat dd) = unat d"
    and "1 \<le> unat m \<and> unat m \<le> 12" and "1 \<le> unat dd \<and> unat dd \<le> month_days (unat y) ! (unat m - 1)"
    and "unat w = (unat d + 4) mod 7 + 1"
    and "1970 \<le> unat y \<and> days_before_year (unat y) \<le> unat d"
proof -
  obtain d1 where y: "year_loop 1970 d = (y, d1)"
    and w: "w = ucast ((d + 4) mod 7 + 1)"
    using assms(1) by (auto simp: days_to_date_def Let_def split: prod.splits)
  obtain d2 where m: "month_loop (days_in_months (is_leap_year y)) 1 d1 = (m, d2)"
    and dd: "dd = ucast (d2 + 1)"
    using assms(1) y by (auto simp: days_to_date_def Let_def split: prod.splits)
  have Y: "days_before_year (unat y) + unat d1 = unat d" "unat d1 < year_days (unat y)" "1970 \<le> unat y"
    using year_loop_inverts [OF y] bound by (auto simp: days_before_year_def)
  have M: "1 \<le> unat m" "unat m < 13"
    "unat d1 = sum_list (take (unat m - 1) (month_days (unat y))) + unat d2"
    "unat d2 < month_days (unat y) ! (unat m - 1)"
    using month_loop_inverts [OF m] Y(2)
    by (auto simp: days_in_months_nat sum_month_days take_map [symmetric] nth_map [symmetric]
        simp del: nth_map)
  have d2: "unat d2 < 31" using M(1,2,4) month_days_le [of "unat m - 1" "unat y"] by fastforce
  then have dd': "unat dd = unat d2 + 1"
    by (simp add: dd unat_ucast_mod unat_word_ariths) 
  show "civil_days (unat y) (unat m) (unat dd) = unat d"
    using Y(1) M(3) by (simp add: civil_days_def days_before_month_def dd')
  show "1 \<le> unat m \<and> unat m \<le> 12" using M by simp
  show "1 \<le> unat dd \<and> unat dd \<le> month_days (unat y) ! (unat m - 1)" using M(4) by (simp add: dd')
  have "unat (d + 4) = unat d + 4" using bound by (simp add: unat_word_ariths)
  then show "unat w = (unat d + 4) mod 7 + 1"
    by (simp add: w unat_ucast_mod unat_word_ariths unat_mod)
  show "1970 \<le> unat y \<and> days_before_year (unat y) \<le> unat d" using Y by simp
qed

lemma days_before_year_ge: "365 * (y - 1970) \<le> days_before_year y"
proof -
  have "(\<Sum>z = 1970..<y. 365) \<le> (\<Sum>z = 1970..<y. year_days z)"
    by (rule sum_mono) (simp add: year_days_def)
  then show ?thesis by (simp add: days_before_year_def)
qed

lemma from_bcd_to_bcd_all: "\<forall>v\<in>set [0..<100]. from_bcd (to_bcd (of_nat v)) = v"
  by code_simp

lemma from_bcd_to_bcd: "unat v < 100 \<Longrightarrow> from_bcd (to_bcd v) = unat v"
  using from_bcd_to_bcd_all [rule_format, of "unat v"] by simp

section \<open>Reading the clock\<close>

definition rtc_read :: "u8 \<Rightarrow> u64 \<Rightarrow> u64 \<Rightarrow> rtc_state \<Rightarrow> nat" where
  "rtc_read index emulated_tsc tsc_frequency r =
     from_bcd (read_register_with_tsc emulated_tsc tsc_frequency (r\<lparr>rtc_index := index\<rparr>))"

text \<open>The time stamp a driver computes from the registers it reads.\<close>

definition rtc_timestamp :: "u64 \<Rightarrow> u64 \<Rightarrow> rtc_state \<Rightarrow> nat" where
  "rtc_timestamp tsc freq r =
     civil_days (100 * rtc_read 0x32 tsc freq r + rtc_read 0x09 tsc freq r)
       (rtc_read 0x08 tsc freq r) (rtc_read 0x07 tsc freq r) * 86400
     + rtc_read 0x04 tsc freq r * 3600 + rtc_read 0x02 tsc freq r * 60 + rtc_read 0x00 tsc freq r"

lemma rtc_registers:
  assumes freq: "freq \<noteq> 0"
    and secs: "secs = unat (base_time r) + unat tsc div unat freq" and bound: "secs < 250 * 10 ^ 9"
  shows "\<exists>y m d w. days_to_date (of_nat (secs div 86400)) = (y, m, d, w) \<and> unat y < 10000 \<and>
    rtc_read 0x32 tsc freq r = unat y div 100 \<and> rtc_read 0x09 tsc freq r = unat y mod 100 \<and>
    rtc_read 0x08 tsc freq r = unat m \<and> rtc_read 0x07 tsc freq r = unat d \<and>
    rtc_read 0x06 tsc freq r = unat w \<and>
    rtc_read 0x04 tsc freq r = secs mod 86400 div 3600 \<and>
    rtc_read 0x02 tsc freq r = secs mod 3600 div 60 \<and> rtc_read 0x00 tsc freq r = secs mod 60 \<and>
    civil_days (unat y) (unat m) (unat d) = secs div 86400"
proof -
  define sw where "sw = base_time r + tsc div freq"
  have sw: "unat sw = secs"
    using bound by (simp add: sw_def unat_word_ariths unat_div secs)
  define dw where "dw = sw div 86400"
  have dw: "unat dw = secs div 86400" by (simp add: dw_def unat_div sw)
  then have dw': "of_nat (secs div 86400) = dw" by (simp flip: dw)
  obtain y m d w where date: "days_to_date dw = (y, m, d, w)" by (metis prod_cases4)
  have small: "1970 + unat dw < 2 ^ 32" using bound by (simp add: dw)
  note D = days_to_date_inverts [OF date small]
  have "365 * (unat y - 1970) \<le> secs div 86400" using D(5) days_before_year_ge [of "unat y"] dw by linarith
  then have y: "unat y < 10000" using bound by simp
  have "unat d \<le> 31" using D(2,3) month_days_le [of "unat m - 1" "unat y"] by fastforce
  moreover have "unat w \<le> 7" using D(4) by simp
  moreover have "rtc_read 0x32 tsc freq r = from_bcd (to_bcd (ucast (y div 100)))"
    "rtc_read 0x09 tsc freq r = from_bcd (to_bcd (ucast (y mod 100)))"
    "rtc_read 0x08 tsc freq r = from_bcd (to_bcd m)" "rtc_read 0x07 tsc freq r = from_bcd (to_bcd d)"
    "rtc_read 0x06 tsc freq r = from_bcd (to_bcd w)"
    "rtc_read 0x04 tsc freq r = from_bcd (to_bcd (ucast (sw mod 86400 div 3600)))"
    "rtc_read 0x02 tsc freq r = from_bcd (to_bcd (ucast (sw mod 86400 mod 3600 div 60)))"
    "rtc_read 0x00 tsc freq r = from_bcd (to_bcd (ucast (sw mod 86400 mod 60)))"
    using freq date by (simp_all add: rtc_read_def read_register_with_tsc_def Let_def sw_def dw_def)
  ultimately show ?thesis
    using date D(1,2) y by (simp add: dw dw' from_bcd_to_bcd unat_ucast_mod unat_div unat_mod sw
        mod_mod_cancel)
qed

text \<open>C14. The CMOS clock tells the emulated time: for every base time and every
  emulated counter value up to the year 9892, the Unix time stamp computed from
  the BCD date and time registers is the base time plus the emulated counter
  divided by its frequency.\<close>

theorem rtc_registers_roundtrip:
  assumes "freq \<noteq> 0" and "unat (base_time r) + unat tsc div unat freq < 250 * 10 ^ 9"
  shows "rtc_timestamp tsc freq r = unat (base_time r) + unat tsc div unat freq"
proof -
  define secs where "secs = unat (base_time r) + unat tsc div unat freq"
  obtain y :: u32 and m d :: u8 where R: "unat y < 10000"
    "rtc_read 0x32 tsc freq r = unat y div 100" "rtc_read 0x09 tsc freq r = unat y mod 100"
    "rtc_read 0x08 tsc freq r = unat m" "rtc_read 0x07 tsc freq r = unat d"
    "rtc_read 0x04 tsc freq r = secs mod 86400 div 3600"
    "rtc_read 0x02 tsc freq r = secs mod 3600 div 60" "rtc_read 0x00 tsc freq r = secs mod 60"
    "civil_days (unat y) (unat m) (unat d) = secs div 86400"
    using rtc_registers [OF assms(1) secs_def] assms(2) unfolding secs_def by blast
  have "secs mod 3600 = secs mod 86400 mod 3600" "secs mod 60 = secs mod 3600 mod 60"
    by (simp_all add: mod_mod_cancel)
  then have "secs div 86400 * 86400 + secs mod 86400 div 3600 * 3600 + secs mod 3600 div 60 * 60 + secs mod 60 = secs"
    by (metis div_mult_mod_eq add.assoc)
  then show ?thesis
    unfolding secs_def [symmetric] rtc_timestamp_def R(2-8) by (simp only: mult.commute [of 100] div_mult_mod_eq R(9))
qed

theorem rtc_registers_roundtrip_witness:
  "rtc_timestamp 5990400000 2995200000 rtc_default = 1704067202"
  using rtc_registers_roundtrip [of 2995200000 rtc_default 5990400000] by (simp add: rtc_default_def)

end
