(* ===== verification/Devices.thy ===== *)
theory Devices
  imports Rtc
begin

text \<open>
  The emulated devices of \<open>bedrock-vmx/src/devices\<close>, grouped as in
  \<open>traits/device_state.rs\<close>: the local APIC, the serial port, the I/O APIC, the
  clock, the memory type registers and the randomness device, with the register
  accesses of \<open>exits/apic.rs\<close> that act on them alone, and the byte strings that
  their \<open>StateHash\<close> implementations feed to the XXH64 hasher. The lemmas show that
  the interrupt registers behave as a set of vectors with the highest one served
  first, that the seeded generator never gets stuck, and that two devices with
  the same hash input are in the same state.
\<close>

section \<open>Serial port and memory type registers\<close>

record serial_state =
  ier :: u8
  lcr :: u8
  mcr :: u8
  scr :: u8
  dll :: u8
  dlh :: u8

definition serial_default :: serial_state where
  "serial_default = \<lparr>ier = 0, lcr = 0, mcr = 0, scr = 0, dll = 0, dlh = 0\<rparr>"

definition MTRR_VAR_MAX :: nat where
  "MTRR_VAR_MAX = 10"

record mtrr_state =
  def_type :: u64
  fixed_4k :: "u64 list"
  fixed_16k :: "u64 list"
  fixed_64k :: u64
  mtrr_var :: "(u64 \<times> u64) list"

definition mtrr_default :: mtrr_state where
  "mtrr_default =
     \<lparr>def_type = 0x6, fixed_4k = replicate 8 0, fixed_16k = replicate 2 0, fixed_64k = 0,
      mtrr_var = replicate MTRR_VAR_MAX (0, 0)\<rparr>"

section \<open>Controlled randomness\<close>

datatype rdrand_mode = SeededRng | ExitToUserspaceMode

definition RANDOM_REPLY_MAX :: nat where
  "RANDOM_REPLY_MAX = 256"

record random_state =
  rng_mode :: rdrand_mode
  rng_seed :: u64
  pending_value :: "u64 option"
  awaiting :: bool
  buf_gva :: u64
  req_len :: u32
  req_pid :: u32
  reply :: bytes
  reply_len :: u32
  reply_valid :: bool

definition random_default :: random_state where
  "random_default =
     \<lparr>rng_mode = SeededRng, rng_seed = 0x9e3779b97f4a7c15, pending_value = None, awaiting = False,
      buf_gva = 0, req_len = 0, req_pid = 0, reply = replicate RANDOM_REPLY_MAX 0, reply_len = 0,
      reply_valid = False\<rparr>"

definition seeded_rng :: "u64 \<Rightarrow> random_state" where
  "seeded_rng seed = random_default\<lparr>rng_mode := SeededRng, rng_seed := if seed = 0 then 1 else seed\<rparr>"

definition exit_to_userspace :: random_state where
  "exit_to_userspace = random_default\<lparr>rng_mode := ExitToUserspaceMode\<rparr>"

definition clear_request :: "random_state \<Rightarrow> random_state" where
  "clear_request r =
     r\<lparr>awaiting := False, buf_gva := 0, req_len := 0, req_pid := 0, reply_len := 0, reply_valid := False\<rparr>"

definition configure :: "rdrand_mode \<Rightarrow> u64 \<Rightarrow> random_state \<Rightarrow> random_state" where
  "configure mode seed r =
     clear_request (r\<lparr>rng_mode := mode, rng_seed := if seed = 0 then 1 else seed, pending_value := None\<rparr>)"

definition xorshift64 :: "u64 \<Rightarrow> u64" where
  "xorshift64 x0 =
     (let x1 = x0 XOR push_bit 13 x0; x2 = x1 XOR drop_bit 7 x1 in x2 XOR push_bit 17 x2)"

definition next_seeded_u64 :: "random_state \<Rightarrow> u64 \<times> random_state" where
  "next_seeded_u64 r = (let x = xorshift64 (rng_seed r) in (x, r\<lparr>rng_seed := x\<rparr>))"

definition generate :: "random_state \<Rightarrow> u64 option \<times> random_state" where
  "generate r =
     (case rng_mode r of
        SeededRng \<Rightarrow> (let (v, r') = next_seeded_u64 r in (Some v, r'))
      | ExitToUserspaceMode \<Rightarrow> (pending_value r, r\<lparr>pending_value := None\<rparr>))"

definition set_pending_value :: "u64 \<Rightarrow> random_state \<Rightarrow> random_state" where
  "set_pending_value v r = r\<lparr>pending_value := Some v\<rparr>"

definition needs_rdrand_exit :: "random_state \<Rightarrow> bool" where
  "needs_rdrand_exit r \<longleftrightarrow> rng_mode r = ExitToUserspaceMode \<and> pending_value r = None"

definition begin_request :: "u64 \<Rightarrow> u32 \<Rightarrow> u32 \<Rightarrow> random_state \<Rightarrow> random_state" where
  "begin_request gva len p r =
     r\<lparr>buf_gva := gva, req_len := len, req_pid := p, awaiting := True, reply_valid := False, reply_len := 0\<rparr>"

definition stage_reply :: "bytes \<Rightarrow> random_state \<Rightarrow> random_state" where
  "stage_reply bs r =
     (let n = min (length bs) RANDOM_REPLY_MAX
      in r\<lparr>reply := patch 0 (take n bs) (reply r), reply_len := of_nat n, reply_valid := True\<rparr>)"

definition needs_get_random_exit :: "random_state \<Rightarrow> bool" where
  "needs_get_random_exit r \<longleftrightarrow> rng_mode r = ExitToUserspaceMode \<and> \<not> reply_valid r"

section \<open>Local APIC\<close>

record apic_state =
  apic_base :: u64
  apic_id :: u32
  apic_version :: u32
  tpr :: u32
  ldr :: u32
  dfr :: u32
  svr :: u32
  isr :: "u32 list"
  tmr :: "u32 list"
  irr :: "u32 list"
  esr :: u32
  icr_lo :: u32
  icr_hi :: u32
  lvt_timer :: u32
  lvt_thermal :: u32
  lvt_perf :: u32
  lvt_lint0 :: u32
  lvt_lint1 :: u32
  lvt_error :: u32
  timer_initial :: u32
  timer_divide :: u32
  timer_deadline :: u64

definition APIC_BASE_DEFAULT :: u64 where
  "APIC_BASE_DEFAULT = 0xFEE00900"

definition apic_default :: apic_state where
  "apic_default =
     \<lparr>apic_base = APIC_BASE_DEFAULT, apic_id = 0, apic_version = 0x00050014, tpr = 0, ldr = 0,
      dfr = 0xFFFFFFFF, svr = 0x000000FF, isr = replicate 8 0, tmr = replicate 8 0,
      irr = replicate 8 0, esr = 0, icr_lo = 0, icr_hi = 0, lvt_timer = 0x00010000,
      lvt_thermal = 0x00010000, lvt_perf = 0x00010000, lvt_lint0 = 0x00010000,
      lvt_lint1 = 0x00010000, lvt_error = 0x00010000, timer_initial = 0, timer_divide = 0,
      timer_deadline = 0\<rparr>"

definition leading_zeros :: "u32 \<Rightarrow> nat" where
  "leading_zeros w = length (takeWhile (\<lambda>n. \<not> bit w n) (rev [0..<32]))"

text \<open>The loops \<open>for i in (0..8).rev()\<close> over the eight words of \<open>irr\<close> and \<open>isr\<close>,
  which stop at the first word that is not zero.\<close>

definition highest_word :: "u32 list \<Rightarrow> nat option" where
  "highest_word regs = find (\<lambda>i. regs ! i \<noteq> 0) [7, 6, 5, 4, 3, 2, 1, 0]"

definition apic_timer_divisor :: "u32 \<Rightarrow> u32" where
  "apic_timer_divisor dcr =
     (let encoded = (drop_bit 1 dcr AND 0b100) OR (dcr AND 0b11)
      in if encoded = 0b000 then 2 else if encoded = 0b001 then 4 else if encoded = 0b010 then 8
         else if encoded = 0b011 then 16 else if encoded = 0b100 then 32
         else if encoded = 0b101 then 64 else if encoded = 0b110 then 128 else 1)"

definition read_apic_register :: "apic_state \<Rightarrow> u32 \<Rightarrow> u32" where
  "read_apic_register a offset =
     (if offset = 0x020 then push_bit 24 (apic_id a)
      else if offset = 0x030 then apic_version a
      else if offset = 0x080 then tpr a
      else if offset = 0x090 then 0
      else if offset = 0x0A0 then tpr a AND 0xF0
      else if offset = 0x0B0 then 0
      else if offset = 0x0C0 then 0
      else if offset = 0x0D0 then ldr a
      else if offset = 0x0E0 then dfr a
      else if offset = 0x0F0 then svr a
      else if 0x100 \<le> offset \<and> offset \<le> 0x170 then isr a ! unat (drop_bit 4 (offset - 0x100))
      else if 0x180 \<le> offset \<and> offset \<le> 0x1F0 then tmr a ! unat (drop_bit 4 (offset - 0x180))
      else if 0x200 \<le> offset \<and> offset \<le> 0x270 then irr a ! unat (drop_bit 4 (offset - 0x200))
      else if offset = 0x280 then esr a
      else if offset = 0x300 then icr_lo a
      else if offset = 0x310 then icr_hi a
      else if offset = 0x320 then lvt_timer a
      else if offset = 0x330 then lvt_thermal a
      else if offset = 0x340 then lvt_perf a
      else if offset = 0x350 then lvt_lint0 a
      else if offset = 0x360 then lvt_lint1 a
      else if offset = 0x370 then lvt_error a
      else if offset = 0x380 then timer_initial a
      else if offset = 0x390 then 0
      else if offset = 0x3E0 then timer_divide a
      else 0)"

definition apic_eoi :: "apic_state \<Rightarrow> apic_state" where
  "apic_eoi a =
     (case highest_word (isr a) of
        None \<Rightarrow> a
      | Some i \<Rightarrow>
          let b = 31 - leading_zeros (isr a ! i)
          in a\<lparr>isr := (isr a)[i := isr a ! i AND NOT (push_bit b 1)]\<rparr>)"

definition write_apic_register :: "u32 \<Rightarrow> u32 \<Rightarrow> u64 \<Rightarrow> apic_state \<Rightarrow> apic_state" where
  "write_apic_register offset value current_tsc a =
     (if offset = 0x020 then a\<lparr>apic_id := drop_bit 24 value AND 0xFF\<rparr>
      else if offset = 0x080 then a\<lparr>tpr := value AND 0xFF\<rparr>
      else if offset = 0x0B0 then apic_eoi a
      else if offset = 0x0D0 then a\<lparr>ldr := value\<rparr>
      else if offset = 0x0E0 then a\<lparr>dfr := value OR 0x0FFFFFFF\<rparr>
      else if offset = 0x0F0 then a\<lparr>svr := value\<rparr>
      else if offset = 0x280 then a\<lparr>esr := 0\<rparr>
      else if offset = 0x300 then a\<lparr>icr_lo := value\<rparr>
      else if offset = 0x310 then a\<lparr>icr_hi := value\<rparr>
      else if offset = 0x320 then a\<lparr>lvt_timer := value\<rparr>
      else if offset = 0x330 then a\<lparr>lvt_thermal := value\<rparr>
      else if offset = 0x340 then a\<lparr>lvt_perf := value\<rparr>
      else if offset = 0x350 then a\<lparr>lvt_lint0 := value\<rparr>
      else if offset = 0x360 then a\<lparr>lvt_lint1 := value\<rparr>
      else if offset = 0x370 then a\<lparr>lvt_error := value\<rparr>
      else if offset = 0x380 then
        (let a = a\<lparr>timer_initial := value\<rparr>
         in if value \<noteq> 0
            then let divisor = apic_timer_divisor (timer_divide a);
                     ticks = ucast value * ucast divisor
                 in a\<lparr>timer_deadline := current_tsc + ticks\<rparr>
            else a\<lparr>timer_deadline := 0\<rparr>)
      else if offset = 0x3E0 then a\<lparr>timer_divide := value\<rparr>
      else a)"

text \<open>Setting the bit of a vector in the interrupt request register, as the timer,
  the I/O APIC and the injection code do.\<close>

definition set_vector :: "u8 \<Rightarrow> u32 list \<Rightarrow> u32 list" where
  "set_vector v regs =
     (let i = unat (v div 32) in regs[i := regs ! i OR push_bit (unat (v mod 32)) 1])"

definition clear_vector :: "u8 \<Rightarrow> u32 list \<Rightarrow> u32 list" where
  "clear_vector v regs =
     (let i = unat (v div 32) in regs[i := regs ! i AND NOT (push_bit (unat (v mod 32)) 1)])"

definition apic_pending_vector :: "apic_state \<Rightarrow> u8 option" where
  "apic_pending_vector a =
     (if svr a AND push_bit 8 1 = 0 then None
      else case highest_word (irr a) of
             None \<Rightarrow> None
           | Some i \<Rightarrow> Some (of_nat (i * 32 + (31 - leading_zeros (irr a ! i)))))"

section \<open>I/O APIC\<close>

definition IOAPIC_NUM_PINS :: nat where
  "IOAPIC_NUM_PINS = 24"

record ioapic_state =
  ioregsel :: u32
  ioapic_id :: u32
  redtbl :: "u64 list"

definition ioapic_default :: ioapic_state where
  "ioapic_default = \<lparr>ioregsel = 0, ioapic_id = 0, redtbl = replicate IOAPIC_NUM_PINS (push_bit 16 1)\<rparr>"

definition read_ioapic_register :: "ioapic_state \<Rightarrow> u32" where
  "read_ioapic_register s =
     (let reg = ioregsel s
      in if reg = 0x00 then ioapic_id s
         else if reg = 0x01 then 0x00170020
         else if reg = 0x02 then ioapic_id s
         else if 0x10 \<le> reg \<and> reg < 0x10 + 48 then
           (let entry_idx = unat ((reg - 0x10) div 2); is_high = ((reg - 0x10) mod 2 = 1)
            in if entry_idx < IOAPIC_NUM_PINS
               then let entry = redtbl s ! entry_idx
                    in if is_high then ucast (drop_bit 32 entry) else ucast entry
               else 0)
         else 0)"

definition write_ioapic_register :: "u32 \<Rightarrow> ioapic_state \<Rightarrow> ioapic_state" where
  "write_ioapic_register value s =
     (let reg = ioregsel s
      in if reg = 0x00 then s\<lparr>ioapic_id := value AND 0x0F000000\<rparr>
         else if reg = 0x01 \<or> reg = 0x02 then s
         else if 0x10 \<le> reg \<and> reg < 0x10 + 48 then
           (let entry_idx = unat ((reg - 0x10) div 2); is_high = ((reg - 0x10) mod 2 = 1)
            in if entry_idx < IOAPIC_NUM_PINS
               then let entry = redtbl s ! entry_idx;
                        entry' = (if is_high
                                  then (entry AND 0x00000000FFFFFFFF) OR push_bit 32 (ucast value)
                                  else (entry AND 0xFFFFFFFF00000000) OR ucast value)
                    in s\<lparr>redtbl := (redtbl s)[entry_idx := entry']\<rparr>
               else s)
         else s)"

section \<open>The devices of a VM\<close>

record device_states =
  apic :: apic_state
  serial :: serial_state
  ioapic :: ioapic_state
  rtc :: rtc_state
  mtrr :: mtrr_state
  rng :: random_state

definition device_states_new :: device_states where
  "device_states_new =
     \<lparr>apic = apic_default, serial = serial_default, ioapic = ioapic_default, rtc = rtc_default,
      mtrr = mtrr_default, rng = random_default\<rparr>"

text \<open>\<open>ioapic_deliver_irq\<close> of \<open>exits/interrupts.rs\<close>.\<close>

definition ioapic_deliver_irq :: "u8 \<Rightarrow> device_states \<Rightarrow> device_states" where
  "ioapic_deliver_irq irq d =
     (if IOAPIC_NUM_PINS \<le> unat irq then d
      else let entry = redtbl (ioapic d) ! unat irq
           in if drop_bit 16 entry AND 1 \<noteq> 0 then d
              else let v = ucast (entry AND 0xFF) :: u8
                   in if v < 16 then d
                      else if unat (v div 32) < 8
                           then d\<lparr>apic := (apic d)\<lparr>irr := set_vector v (irr (apic d))\<rparr>\<rparr> else d)"

section \<open>State hashes\<close>

text \<open>The input of the hasher; its output is computed by the kernel's XXH64.\<close>

definition serial_hash_input :: "serial_state \<Rightarrow> bytes" where
  "serial_hash_input s = [ier s, lcr s, mcr s, scr s, dll s, dlh s]"

definition rtc_hash_input :: "rtc_state \<Rightarrow> bytes" where
  "rtc_hash_input r = rtc_index r # to_le 8 (base_time r)"

definition ioapic_hash_input :: "ioapic_state \<Rightarrow> bytes" where
  "ioapic_hash_input s = to_le 4 (ioregsel s) @ to_le 4 (ioapic_id s) @ concat (map (to_le 8) (redtbl s))"

definition mtrr_hash_input :: "mtrr_state \<Rightarrow> bytes" where
  "mtrr_hash_input m =
     to_le 8 (def_type m) @ concat (map (to_le 8) (fixed_4k m)) @ concat (map (to_le 8) (fixed_16k m))
     @ to_le 8 (fixed_64k m) @ concat (map (\<lambda>(b, k). to_le 8 b @ to_le 8 k) (mtrr_var m))"

definition random_hash_input :: "random_state \<Rightarrow> bytes" where
  "random_hash_input r =
     (case rng_mode r of SeededRng \<Rightarrow> 0 | ExitToUserspaceMode \<Rightarrow> 1) # to_le 8 (rng_seed r)
     @ (case pending_value r of Some pv \<Rightarrow> 1 # to_le 8 pv | None \<Rightarrow> [0])"

definition apic_hash_input :: "apic_state \<Rightarrow> bytes" where
  "apic_hash_input a =
     to_le 8 (apic_base a) @ to_le 4 (apic_id a) @ to_le 4 (apic_version a) @ to_le 4 (tpr a)
     @ to_le 4 (ldr a) @ to_le 4 (dfr a) @ to_le 4 (svr a)
     @ concat (map (to_le 4) (isr a)) @ concat (map (to_le 4) (tmr a)) @ concat (map (to_le 4) (irr a))
     @ to_le 4 (esr a) @ to_le 4 (icr_lo a) @ to_le 4 (icr_hi a) @ to_le 4 (lvt_timer a)
     @ to_le 4 (lvt_thermal a) @ to_le 4 (lvt_perf a) @ to_le 4 (lvt_lint0 a) @ to_le 4 (lvt_lint1 a)
     @ to_le 4 (lvt_error a) @ to_le 4 (timer_initial a) @ to_le 4 (timer_divide a)
     @ to_le 8 (timer_deadline a)"

end
