(* ===== verification/Device_Laws.thy ===== *)
theory Device_Laws
  imports Devices
begin

text \<open>
  Laws of the emulated devices. The request and in-service registers of the local
  APIC refine a finite set of vectors whose maximum is served first, the interface
  \<open>vector_register\<close> states that contract and its client lemma shows that serving
  delivers every pending vector once, in order of priority.
\<close>

section \<open>The highest set bit\<close>

lemma takeWhile_bits:
  fixes w :: "'a::len word"
  assumes "k = length (takeWhile (\<lambda>n. \<not> bit w n) (rev [0..<N]))"
  shows "(k < N \<longrightarrow> bit w (N - 1 - k)) \<and> (\<forall>m. N - k \<le> m \<and> m < N \<longrightarrow> \<not> bit w m) \<and> k \<le> N"
proof -
  have "k \<le> N" using length_takeWhile_le [of "\<lambda>n. \<not> bit w n" "rev [0..<N]"] assms by simp
  moreover have "bit w (N - 1 - k)" if "k < N"
    using nth_length_takeWhile [of "\<lambda>n. \<not> bit w n" "rev [0..<N]"] that assms by (simp add: rev_nth)
  moreover have "\<not> bit w m" if "N - k \<le> m" "m < N" for m
  proof -
    have "N - 1 - m < k" using that \<open>k \<le> N\<close> by linarith
    then have "takeWhile (\<lambda>n. \<not> bit w n) (rev [0..<N]) ! (N - 1 - m) = rev [0..<N] ! (N - 1 - m)"
      using assms by (simp add: takeWhile_nth)
    moreover have "rev [0..<N] ! (N - 1 - m) = m" using that by (simp add: rev_nth)
    ultimately have "m \<in> set (takeWhile (\<lambda>n. \<not> bit w n) (rev [0..<N]))"
      using \<open>N - 1 - m < k\<close> assms by (metis nth_mem)
    then show ?thesis by (auto dest: set_takeWhileD)
  qed
  ultimately show ?thesis by blast
qed

lemma leading_zeros_top:
  assumes "w \<noteq> 0"
  shows "bit w (31 - leading_zeros w)" and "31 - leading_zeros w < m \<Longrightarrow> \<not> bit w m"
    and "31 - leading_zeros w < 32"
proof -
  have L: "(leading_zeros w < 32 \<longrightarrow> bit w (32 - 1 - leading_zeros w))"
    "\<forall>m. 32 - leading_zeros w \<le> m \<and> m < 32 \<longrightarrow> \<not> bit w m" "leading_zeros w \<le> 32"
    using takeWhile_bits [OF leading_zeros_def [of w]] by blast+
  have "leading_zeros w < 32"
  proof (rule ccontr)
    assume "\<not> leading_zeros w < 32"
    then have "\<not> bit w m" for m using L(2) bit_imp_le_length [of w m] by fastforce
    then have "w = 0" by (simp add: bit_eq_iff)
    with assms show False by simp
  qed
  then show "bit w (31 - leading_zeros w)" using L(1) by simp
  show "31 - leading_zeros w < 32" by simp
  assume "31 - leading_zeros w < m"
  then show "\<not> bit w m" using L(2) bit_imp_le_length [of w m] by fastforce
qed

section \<open>Interrupt registers as sets of vectors\<close>

definition vectors :: "u32 list \<Rightarrow> nat set" where
  "vectors regs = {v. v < 256 \<and> bit (regs ! (v div 32)) (v mod 32)}"

definition highest_vector :: "u32 list \<Rightarrow> nat option" where
  "highest_vector regs =
     (case highest_word regs of
        None \<Rightarrow> None | Some i \<Rightarrow> Some (i * 32 + (31 - leading_zeros (regs ! i))))"

lemma finite_vectors [simp]: "finite (vectors regs)"
  by (simp add: vectors_def)

lemma highest_word_cases:
  "highest_word regs = None \<Longrightarrow> i < 8 \<Longrightarrow> regs ! i = 0"
  "highest_word regs = Some i \<Longrightarrow> i < 8 \<and> regs ! i \<noteq> 0 \<and> (\<forall>j. i < j \<and> j < 8 \<longrightarrow> regs ! j = 0)"
  unfolding highest_word_def
  by (auto simp: less_Suc_eq numeral_eq_Suc split: if_splits)

lemma highest_vector_None: "highest_vector regs = None \<longleftrightarrow> vectors regs = {}"
proof
  assume "highest_vector regs = None"
  then have "highest_word regs = None" by (simp add: highest_vector_def split: option.splits)
  then have "regs ! (v div 32) = 0" if "v < 256" for v using highest_word_cases(1) that by simp
  then show "vectors regs = {}" by (auto simp: vectors_def)
next
  assume *: "vectors regs = {}"
  show "highest_vector regs = None"
  proof (cases "highest_word regs")
    case (Some i)
    note H = highest_word_cases(2) [OF Some]
    let ?b = "31 - leading_zeros (regs ! i)"
    have "?b < 32" "bit (regs ! i) ?b" using H leading_zeros_top by blast+
    then have "i * 32 + ?b \<in> vectors regs" using H by (simp add: vectors_def)
    with * show ?thesis by simp
  qed (simp add: highest_vector_def)
qed

lemma highest_vector_Some:
  assumes "highest_vector regs = Some v"
  shows "v \<in> vectors regs \<and> (\<forall>u \<in> vectors regs. u \<le> v)"
proof -
  obtain i where i: "highest_word regs = Some i" and v: "v = i * 32 + (31 - leading_zeros (regs ! i))"
    using assms by (auto simp: highest_vector_def split: option.splits)
  note H = highest_word_cases(2) [OF i]
  note L = leading_zeros_top [of "regs ! i"]
  have b: "31 - leading_zeros (regs ! i) < 32" "bit (regs ! i) (31 - leading_zeros (regs ! i))"
    using H L by blast+
  have "v \<in> vectors regs" using b H by (simp add: vectors_def v)
  moreover have "u \<le> v" if u: "u \<in> vectors regs" for u
  proof (rule ccontr)
    assume "\<not> u \<le> v"
    then have gt: "v < u" by simp
    have ub: "u < 256" "bit (regs ! (u div 32)) (u mod 32)" using u by (auto simp: vectors_def)
    have "v div 32 = i" using b by (simp add: v)
    then have "i \<le> u div 32" using gt by (metis div_le_mono less_imp_le)
    moreover have "u div 32 < 8" using ub(1) by simp
    moreover have "regs ! (u div 32) \<noteq> 0" using ub(2) by auto
    ultimately have "\<not> i < u div 32" and "i \<le> u div 32" using H by blast+
    then have "u div 32 = i" by simp
    then have "u = i * 32 + u mod 32" by (metis div_mult_mod_eq)
    then have "31 - leading_zeros (regs ! i) < u mod 32" using gt v by linarith
    then show False using L(2) H ub(2) \<open>u div 32 = i\<close> by blast
  qed
  ultimately show ?thesis by blast
qed

lemma unat_vector_parts [simp]:
  "unat (v div 32 :: u8) = unat v div 32" "unat (v mod 32 :: u8) = unat v mod 32"
  by (simp_all add: unat_div unat_mod)

lemma unat_u8_less: "unat (v :: u8) < 256"
  using unsigned_less [where w = v and 'b = 8] by simp

lemma mem_vectors_update:
  assumes "length regs = 8" and "v < 256"
  shows "u \<in> vectors (regs[v div 32 := w]) \<longleftrightarrow>
    (if u div 32 = v div 32 then u < 256 \<and> bit w (u mod 32) else u \<in> vectors regs)"
  using assms by (simp add: vectors_def)

lemma same_vector: "u div 32 = v div 32 \<Longrightarrow> u mod 32 = v mod 32 \<longleftrightarrow> u = v" for u v :: nat
  by (metis div_mult_mod_eq)

lemma bit_vector_flag: "bit (push_bit (v mod 32) 1 :: u32) (u mod 32) \<longleftrightarrow> u mod 32 = v mod 32" for u v :: nat
  by (auto simp: bit_simps)

lemma vectors_update:
  assumes "length regs = 8" and "v < 256"
  shows "vectors (regs[v div 32 := regs ! (v div 32) OR push_bit (v mod 32) 1]) = insert v (vectors regs)"
    and "vectors (regs[v div 32 := regs ! (v div 32) AND NOT (push_bit (v mod 32) 1)]) = vectors regs - {v}"
proof -
  have old: "u \<in> vectors regs \<longleftrightarrow> u < 256 \<and> bit (regs ! (v div 32)) (u mod 32)" if "u div 32 = v div 32" for u
    using that by (simp add: vectors_def)
  show "vectors (regs[v div 32 := regs ! (v div 32) OR push_bit (v mod 32) 1]) = insert v (vectors regs)"
  proof (rule set_eqI)
    fix u
    show "u \<in> vectors (regs[v div 32 := regs ! (v div 32) OR push_bit (v mod 32) 1])
        \<longleftrightarrow> u \<in> insert v (vectors regs)"
    proof (cases "u div 32 = v div 32")
      case True
      then show ?thesis
        unfolding mem_vectors_update [OF assms] bit_or_iff bit_vector_flag same_vector [OF True] insert_iff old [OF True]
        using assms(2) by auto
    next
      case False
      then show ?thesis unfolding mem_vectors_update [OF assms] by auto
    qed
  qed
  show "vectors (regs[v div 32 := regs ! (v div 32) AND NOT (push_bit (v mod 32) 1)]) = vectors regs - {v}"
  proof (rule set_eqI)
    fix u
    have "bit (NOT (push_bit (v mod 32) 1) :: u32) (u mod 32) \<longleftrightarrow> u mod 32 \<noteq> v mod 32"
      by (simp only: bit_not_iff bit_vector_flag possible_bit_word) simp
    then show "u \<in> vectors (regs[v div 32 := regs ! (v div 32) AND NOT (push_bit (v mod 32) 1)])
        \<longleftrightarrow> u \<in> vectors regs - {v}"
      unfolding mem_vectors_update [OF assms] bit_and_iff
      using same_vector [of u v] old [of u] by auto
  qed
qed

lemma vectors_set_vector: "length regs = 8 \<Longrightarrow> vectors (set_vector v regs) = insert (unat v) (vectors regs)"
  using vectors_update(1) [of regs "unat v"] by (simp add: set_vector_def unat_u8_less Let_def)

lemma vectors_clear_vector: "length regs = 8 \<Longrightarrow> vectors (clear_vector v regs) = vectors regs - {unat v}"
  using vectors_update(2) [of regs "unat v"] by (simp add: clear_vector_def unat_u8_less Let_def)

lemma length_vector_ops [simp]:
  "length (set_vector v regs) = length regs" "length (clear_vector v regs) = length regs"
  by (simp_all add: set_vector_def clear_vector_def Let_def)

text \<open>The contract of an interrupt register: raising and clearing a vector, and the
  vector of highest priority. \<open>serve\<close> takes the pending vectors one after the other.\<close>

locale vector_register =
  fixes pend :: "'r \<Rightarrow> nat set" and clear :: "nat \<Rightarrow> 'r \<Rightarrow> 'r" and top :: "'r \<Rightarrow> nat option" and ok :: "'r \<Rightarrow> bool"
  assumes pend_finite: "ok r \<Longrightarrow> finite (pend r)"
    and clear_ok: "ok r \<Longrightarrow> ok (clear v r)"
    and pend_clear: "ok r \<Longrightarrow> v \<in> pend r \<Longrightarrow> pend (clear v r) = pend r - {v}"
    and top_None: "ok r \<Longrightarrow> top r = None \<longleftrightarrow> pend r = {}"
    and top_Some: "ok r \<Longrightarrow> top r = Some v \<Longrightarrow> v \<in> pend r \<and> (\<forall>u\<in>pend r. u \<le> v)"
begin

primrec serve :: "nat \<Rightarrow> 'r \<Rightarrow> nat list \<times> 'r" where
  "serve 0 r = ([], r)"
| "serve (Suc n) r =
     (case top r of None \<Rightarrow> ([], r) | Some v \<Rightarrow> (let (vs, r') = serve n (clear v r) in (v # vs, r')))"

lemma serve_order:
  "ok r \<Longrightarrow> card (pend r) \<le> n \<Longrightarrow> serve n r = (vs, r') \<Longrightarrow>
   vs = rev (sorted_list_of_set (pend r)) \<and> pend r' = {}"
proof (induction n arbitrary: r vs r')
  case 0
  then show ?case using pend_finite [of r] by simp
next
  case (Suc n)
  show ?case
  proof (cases "top r")
    case None
    then show ?thesis using Suc.prems top_None [OF Suc.prems(1)] by auto
  next
    case (Some v)
    note V = top_Some [OF Suc.prems(1) Some]
    note fin = pend_finite [OF Suc.prems(1)]
    obtain us where us: "serve n (clear v r) = (us, r')" and vs: "vs = v # us"
      using Suc.prems(3) Some by (auto simp: Let_def split: prod.splits)
    have card: "card (pend (clear v r)) \<le> n"
      using Suc.prems(1,2) V fin by (simp add: pend_clear)
    have IH: "us = rev (sorted_list_of_set (pend r - {v})) \<and> pend r' = {}"
      using Suc.IH [OF clear_ok [OF Suc.prems(1)] card us] Suc.prems(1) V by (simp add: pend_clear)
    have "sorted_list_of_set (pend r) = sorted_list_of_set (pend r - {v}) @ [v]"
    proof (rule sorted_distinct_set_unique)
      show "set (sorted_list_of_set (pend r)) = set (sorted_list_of_set (pend r - {v}) @ [v])"
        using fin V by auto
    qed (use fin V in \<open>auto simp: sorted_append\<close>)
    with IH vs show ?thesis by simp
  qed
qed

end

interpretation irr: vector_register vectors "\<lambda>v. clear_vector (of_nat v)" highest_vector "\<lambda>r. length r = 8"
proof unfold_locales
  fix r v assume *: "length (r :: u32 list) = 8" "v \<in> vectors r"
  then have "unat (of_nat v :: u8) = v" by (simp add: vectors_def unat_of_nat_id)
  then show "vectors (clear_vector (of_nat v) r) = vectors r - {v}" using * by (simp add: vectors_clear_vector)
qed (auto simp: highest_vector_None dest: highest_vector_Some)

lemma highest_vector_Max: "vectors regs \<noteq> {} \<Longrightarrow> highest_vector regs = Some (Max (vectors regs))"
  using highest_vector_None [of regs] highest_vector_Some [of regs]
  by (cases "highest_vector regs") (auto intro!: Max_eqI [symmetric])

lemma apic_pending_vector_Max:
  "apic_pending_vector a =
     (if bit (svr a) 8 \<and> vectors (irr a) \<noteq> {} then Some (of_nat (Max (vectors (irr a)))) else None)"
proof -
  have "(case highest_word (irr a) of None \<Rightarrow> None
      | Some i \<Rightarrow> Some (of_nat (i * 32 + (31 - leading_zeros (irr a ! i))))) =
      map_option (of_nat :: nat \<Rightarrow> u8) (highest_vector (irr a))"
    by (simp add: highest_vector_def split: option.splits)
  then have "apic_pending_vector a =
      (if bit (svr a) 8 then map_option of_nat (highest_vector (irr a)) else None)"
    unfolding apic_pending_vector_def bit_flag_iff [symmetric]
    by (cases "svr a AND push_bit 8 1 = 0")
      (simp_all only: if_True if_False simp_thms)
  then show ?thesis
    using highest_vector_None [of "irr a"] highest_vector_Max [of "irr a"] by auto
qed

lemma apic_eoi_vectors:
  assumes "length (isr a) = 8"
  shows "vectors (isr (apic_eoi a)) =
    (if vectors (isr a) = {} then {} else vectors (isr a) - {Max (vectors (isr a))})"
proof (cases "highest_word (isr a)")
  case None
  then have "highest_vector (isr a) = None" by (simp add: highest_vector_def)
  then show ?thesis using None highest_vector_None [of "isr a"] by (simp add: apic_eoi_def)
next
  case (Some i)
  let ?b = "31 - leading_zeros (isr a ! i)"
  have hv: "highest_vector (isr a) = Some (i * 32 + ?b)" using Some by (simp add: highest_vector_def)
  then have ne: "vectors (isr a) \<noteq> {}" using highest_vector_None [of "isr a"] by auto
  then have mx: "Max (vectors (isr a)) = i * 32 + ?b" using highest_vector_Max hv by simp
  note H = highest_word_cases(2) [OF Some]
  have b: "?b < 32" by simp
  have "i * 32 + ?b < 256" using H b by linarith
  moreover have "(i * 32 + ?b) div 32 = i" "(i * 32 + ?b) mod 32 = ?b" by simp_all
  ultimately have "vectors ((isr a)[i := isr a ! i AND NOT (push_bit ?b 1)]) = vectors (isr a) - {i * 32 + ?b}"
    using vectors_update(2) [OF assms, of "i * 32 + ?b"] by (simp only:)
  then show ?thesis using ne mx by (simp add: apic_eoi_def Some Let_def)
qed

section \<open>The seeded generator\<close>

lemma xor_push_bit_inj:
  fixes x y :: "'a::len word"
  assumes "x XOR push_bit k x = y XOR push_bit k y" and "0 < k"
  shows "x = y"
proof (rule bit_word_eqI)
  fix n assume "n < LENGTH('a)"
  then show "bit x n = bit y n"
  proof (induction n rule: less_induct)
    case (less n)
    have "bit (x XOR push_bit k x) n = bit (y XOR push_bit k y) n" using assms(1) by simp
    moreover have "k \<le> n \<Longrightarrow> bit x (n - k) = bit y (n - k)" using less assms(2) by simp
    ultimately show ?case using less.prems by (auto simp: bit_simps)
  qed
qed

lemma xor_drop_bit_inj:
  fixes x y :: "'a::len word"
  assumes "x XOR drop_bit k x = y XOR drop_bit k y" and "0 < k"
  shows "x = y"
proof (rule bit_word_eqI)
  fix n assume n: "n < LENGTH('a)"
  have "\<forall>n. LENGTH('a) - m \<le> n \<longrightarrow> bit x n = bit y n" for m
  proof (induction m)
    case 0
    then show ?case by (auto dest: bit_imp_le_length)
  next
    case (Suc m)
    show ?case
    proof (intro allI impI)
      fix n assume "LENGTH('a) - Suc m \<le> n"
      then have "bit x (k + n) = bit y (k + n)" using Suc assms(2) by simp
      moreover have "bit (x XOR drop_bit k x) n = bit (y XOR drop_bit k y) n" using assms(1) by simp
      ultimately show "bit x n = bit y n" by (auto simp: bit_simps)
    qed
  qed
  from this [of "LENGTH('a)"] show "bit x n = bit y n" by simp
qed

lemma xorshift64_inj: "inj xorshift64"
proof (rule injI)
  fix x y :: u64
  let ?f = "\<lambda>x :: u64. x XOR push_bit 13 x" and ?g = "\<lambda>x :: u64. x XOR drop_bit 7 x"
  assume "xorshift64 x = xorshift64 y"
  then have "?g (?f x) = ?g (?f y)"
    unfolding xorshift64_def Let_def by (rule xor_push_bit_inj) simp
  then have "?f x = ?f y" by (rule xor_drop_bit_inj) simp
  then show "x = y" by (rule xor_push_bit_inj) simp
qed

lemma xorshift64_nonzero: "x \<noteq> 0 \<Longrightarrow> xorshift64 x \<noteq> 0"
proof
  assume "x \<noteq> 0" "xorshift64 x = 0"
  moreover have "xorshift64 0 = 0" by (simp add: xorshift64_def)
  ultimately show False using xorshift64_inj by (metis injD)
qed

section \<open>Hash inputs\<close>

lemma to_le_inj: "8 * n = LENGTH('a) \<Longrightarrow> to_le n v = to_le n w \<longleftrightarrow> v = (w :: 'a::len word)"
  by (metis of_le_to_le_full order_refl)

lemma concat_to_le_inj:
  assumes "length vs = length ws" and "8 * n = LENGTH('a)"
  shows "concat (map (to_le n) vs) @ xs = concat (map (to_le n) ws) @ ys
    \<longleftrightarrow> vs = (ws :: 'a::len word list) \<and> xs = ys"
  using assms(1)
proof (induction vs ws rule: list_induct2)
  case (Cons v vs w ws)
  then show ?case by (simp add: to_le_inj [OF assms(2)])
qed simp

lemma concat_to_le_inj':
  assumes "length vs = length ws" and "8 * n = LENGTH('a)"
  shows "concat (map (to_le n) vs) = concat (map (to_le n) ws) \<longleftrightarrow> vs = (ws :: 'a::len word list)"
  using concat_to_le_inj [OF assms, of "[]" "[]"] by simp

lemma concat_pair_inj:
  assumes "length vs = length ws"
  shows "concat (map (\<lambda>(b, k). to_le 8 b @ to_le 8 k) vs) = concat (map (\<lambda>(b, k). to_le 8 b @ to_le 8 k) ws)
    \<longleftrightarrow> vs = (ws :: (u64 \<times> u64) list)"
  using assms
proof (induction vs ws rule: list_induct2)
  case (Cons v vs w ws)
  have "to_le 8 a = to_le 8 b \<longleftrightarrow> a = b" for a b :: u64 by (rule to_le_inj) simp
  with Cons show ?case by (cases v; cases w) simp
qed simp

definition devices_wf :: "device_states \<Rightarrow> bool" where
  "devices_wf d \<longleftrightarrow>
     length (isr (apic d)) = 8 \<and> length (tmr (apic d)) = 8 \<and> length (irr (apic d)) = 8
     \<and> length (redtbl (ioapic d)) = IOAPIC_NUM_PINS
     \<and> length (fixed_4k (mtrr d)) = 8 \<and> length (fixed_16k (mtrr d)) = 2
     \<and> length (mtrr_var (mtrr d)) = MTRR_VAR_MAX \<and> length (reply (rng d)) = RANDOM_REPLY_MAX"

lemma devices_wf_new: "devices_wf device_states_new"
  by (simp add: devices_wf_def device_states_new_def apic_default_def ioapic_default_def mtrr_default_def
      random_default_def)

lemma hash_inputs_inj:
  "serial_hash_input s = serial_hash_input s' \<longleftrightarrow> s = s'"
  "rtc_hash_input r = rtc_hash_input r' \<longleftrightarrow> r = r'"
  "random_hash_input g = random_hash_input g' \<longleftrightarrow>
     rng_mode g = rng_mode g' \<and> rng_seed g = rng_seed g' \<and> pending_value g = pending_value g'"
proof -
  have le: "to_le 8 a = to_le 8 b \<longleftrightarrow> a = b" for a b :: u64 by (rule to_le_inj) simp
  show "serial_hash_input s = serial_hash_input s' \<longleftrightarrow> s = s'"
    by (cases s; cases s') (simp add: serial_hash_input_def)
  show "rtc_hash_input r = rtc_hash_input r' \<longleftrightarrow> r = r'"
    by (cases r; cases r') (simp add: rtc_hash_input_def le)
  show "random_hash_input g = random_hash_input g' \<longleftrightarrow>
     rng_mode g = rng_mode g' \<and> rng_seed g = rng_seed g' \<and> pending_value g = pending_value g'"
    by (cases "rng_mode g"; cases "rng_mode g'"; cases "pending_value g"; cases "pending_value g'")
      (simp_all add: random_hash_input_def le)
qed

lemma ioapic_hash_input_inj:
  assumes "length (redtbl s) = length (redtbl s')"
  shows "ioapic_hash_input s = ioapic_hash_input s' \<longleftrightarrow> s = s'"
proof -
  have le: "to_le 4 a = to_le 4 b \<longleftrightarrow> a = b" for a b :: u32 by (rule to_le_inj) simp
  show ?thesis
    using assms concat_to_le_inj [of "redtbl s" "redtbl s'" 8 "[]" "[]"]
    by (cases s; cases s') (simp add: ioapic_hash_input_def le)
qed

lemma mtrr_hash_input_inj:
  assumes "length (fixed_4k m) = length (fixed_4k m')" "length (fixed_16k m) = length (fixed_16k m')"
    "length (mtrr_var m) = length (mtrr_var m')"
  shows "mtrr_hash_input m = mtrr_hash_input m' \<longleftrightarrow> m = m'"
proof -
  have le: "to_le 8 a = to_le 8 b \<longleftrightarrow> a = b" for a b :: u64 by (rule to_le_inj) simp
  show ?thesis
    using assms concat_pair_inj [of "mtrr_var m" "mtrr_var m'"]
    by (cases m; cases m') (simp add: mtrr_hash_input_def le concat_to_le_inj)
qed

lemma apic_hash_input_inj:
  assumes "length (isr a) = length (isr b)" "length (tmr a) = length (tmr b)" "length (irr a) = length (irr b)"
  shows "apic_hash_input a = apic_hash_input b \<longleftrightarrow> a = b"
proof -
  have le: "to_le 8 a = to_le 8 b \<longleftrightarrow> a = b" for a b :: u64 by (rule to_le_inj) simp
  have le4: "to_le 4 a = to_le 4 b \<longleftrightarrow> a = b" for a b :: u32 by (rule to_le_inj) simp
  show ?thesis
    using assms by (cases a; cases b) (auto simp: apic_hash_input_def le le4 concat_to_le_inj concat_to_le_inj')
qed

section \<open>Properties\<close>

text \<open>C15. The interrupt registers of the local APIC refine sets of vectors: raising
  and clearing a bit insert and remove one vector, the pending vector is the
  largest requested one and exists only while the APIC is enabled, and an end of
  interrupt removes the largest vector in service and no other.\<close>

theorem apic_registers_refine_sets:
  assumes "length (irr a) = 8" and "length (isr a) = 8"
  shows "vectors (set_vector v (irr a)) = insert (unat v) (vectors (irr a)) \<and>
    vectors (clear_vector v (irr a)) = vectors (irr a) - {unat v} \<and>
    apic_pending_vector a =
      (if bit (svr a) 8 \<and> vectors (irr a) \<noteq> {} then Some (of_nat (Max (vectors (irr a)))) else None) \<and>
    vectors (isr (write_apic_register 0x0B0 w tsc a)) =
      (if vectors (isr a) = {} then {} else vectors (isr a) - {Max (vectors (isr a))})"
  using assms apic_eoi_vectors [of a]
  by (simp add: vectors_set_vector vectors_clear_vector apic_pending_vector_Max write_apic_register_def)

theorem apic_registers_refine_sets_witness:
  "apic_pending_vector (apic_default\<lparr>svr := 0x1FF, irr := set_vector 0x31 (set_vector 0xEC (irr apic_default))\<rparr>)
     = Some 0xEC
   \<and> vectors (set_vector 0x31 (irr apic_default)) = {0x31}"
proof -
  have e: "vectors (irr apic_default) = {}"
    by (auto simp: vectors_def apic_default_def nth_Cons' less_Suc_eq)
  have l: "length (irr apic_default) = 8" by (simp add: apic_default_def)
  have "vectors (set_vector 0x31 (set_vector 0xEC (irr apic_default))) = {0x31, 0xEC}"
    using l e by (simp add: vectors_set_vector)
  then have "apic_pending_vector (apic_default\<lparr>svr := 0x1FF,
      irr := set_vector 0x31 (set_vector 0xEC (irr apic_default))\<rparr>) = Some 0xEC"
    using apic_registers_refine_sets [of "apic_default\<lparr>svr := 0x1FF,
        irr := set_vector 0x31 (set_vector 0xEC (irr apic_default))\<rparr>"]
    by (simp add: apic_default_def)
  moreover have "vectors (set_vector 0x31 (irr apic_default)) = {0x31}"
    using apic_registers_refine_sets [of apic_default "0x31"] e l by (simp add: apic_default_def)
  ultimately show ?thesis by simp
qed

text \<open>C16. The device hashes cover the whole determinism-relevant state: two sets of
  devices feed the same bytes to the hasher exactly when they agree on every
  register of the APIC, the serial port, the I/O APIC, the clock and the memory
  type registers, and on the mode, position and staged value of the randomness
  device.\<close>

theorem device_hash_inputs_determine_state:
  assumes "devices_wf d" and "devices_wf e"
  shows "(apic_hash_input (apic d) = apic_hash_input (apic e) \<and>
      serial_hash_input (serial d) = serial_hash_input (serial e) \<and>
      ioapic_hash_input (ioapic d) = ioapic_hash_input (ioapic e) \<and>
      rtc_hash_input (rtc d) = rtc_hash_input (rtc e) \<and>
      mtrr_hash_input (mtrr d) = mtrr_hash_input (mtrr e) \<and>
      random_hash_input (rng d) = random_hash_input (rng e)) \<longleftrightarrow>
    (apic d = apic e \<and> serial d = serial e \<and> ioapic d = ioapic e \<and> rtc d = rtc e \<and> mtrr d = mtrr e \<and>
      rng_mode (rng d) = rng_mode (rng e) \<and> rng_seed (rng d) = rng_seed (rng e) \<and>
      pending_value (rng d) = pending_value (rng e))"
  using assms
  by (simp add: devices_wf_def hash_inputs_inj ioapic_hash_input_inj mtrr_hash_input_inj apic_hash_input_inj)

theorem device_hash_inputs_determine_state_witness:
  "mtrr_hash_input mtrr_default \<noteq> mtrr_hash_input (mtrr_default\<lparr>def_type := 0x806\<rparr>)"
proof -
  let ?e = "device_states_new\<lparr>mtrr := mtrr_default\<lparr>def_type := 0x806\<rparr>\<rparr>"
  have "devices_wf ?e"
    using devices_wf_new by (simp add: devices_wf_def device_states_new_def mtrr_default_def)
  from device_hash_inputs_determine_state [OF devices_wf_new this] show ?thesis
    by (auto simp: device_states_new_def mtrr_default_def)
qed

text \<open>C17. The seeded generator never gets stuck: whatever seed is configured, the
  state after any number of draws is not zero, every value it serves is not zero,
  and two configurations are at the same position after the same number of draws
  only if they were configured with the same effective seed.\<close>

theorem seeded_rng_never_stuck:
  "let draw = (\<lambda>r. snd (next_seeded_u64 r))
   in rng_seed ((draw ^^ n) (configure SeededRng s r)) \<noteq> 0 \<and>
      fst (next_seeded_u64 ((draw ^^ n) (configure SeededRng s r))) \<noteq> 0 \<and>
      (rng_seed ((draw ^^ n) (configure SeededRng s r)) = rng_seed ((draw ^^ n) (configure SeededRng t q)) \<longleftrightarrow>
       (if s = 0 then 1 else s) = (if t = 0 then 1 else t))"
proof -
  have seed: "rng_seed (((\<lambda>r. snd (next_seeded_u64 r)) ^^ n) r) = (xorshift64 ^^ n) (rng_seed r)" for n r
    by (induction n) (simp_all add: next_seeded_u64_def Let_def)
  have nz: "(xorshift64 ^^ n) x \<noteq> 0" if "x \<noteq> 0" for n x
    using that by (induction n) (simp_all add: xorshift64_nonzero)
  have inj: "inj (xorshift64 ^^ n)" for n by (rule inj_fn [OF xorshift64_inj])
  have cfg: "rng_seed (configure SeededRng s r) = (if s = 0 then 1 else s)" for s r
    by (simp add: configure_def clear_request_def)
  show ?thesis
    unfolding Let_def next_seeded_u64_def [THEN arg_cong [of _ _ fst], unfolded Let_def fst_conv] seed cfg
    using nz inj [THEN inj_eq] by (simp add: xorshift64_nonzero)
qed

end
