(* ===== verification/Io_Channel.thy ===== *)
theory Io_Channel
  imports Bedrock_Prelude
begin

text \<open>
  The deterministic I/O channel: the kernel side of \<open>bedrock-vmx/src/vm_state.rs\<close>
  (\<open>IoChannelState\<close>: one request in flight and a bounded queue behind it), the
  ioctl that queues an action and the one that drains a response
  (\<open>bedrock/vm_file/handlers.rs\<close>), and the wire format of
  \<open>bedrock-vm/src/io_channel.rs\<close>. The lemmas show that the slot and the queue
  together are a first-in first-out queue and that requests survive encoding and
  decoding.
\<close>

section \<open>The channel state\<close>

definition IO_CHANNEL_BUF_SIZE :: nat where
  "IO_CHANNEL_BUF_SIZE = 4096"

definition PENDING_IO_QUEUE_CAP :: nat where
  "PENDING_IO_QUEUE_CAP = 256"

record pending_io_action =
  target_tsc :: u64
  action_data :: bytes

record io_channel_state =
  page_gpa :: u64
  request_len :: nat
  request_delivered :: bool
  request_target_tsc :: u64
  response_len :: nat
  request_buf :: bytes
  response_buf :: bytes
  io_pending :: "pending_io_action list"

definition io_channel_new :: io_channel_state where
  "io_channel_new =
     \<lparr>page_gpa = 0, request_len = 0, request_delivered = False, request_target_tsc = 0,
      response_len = 0, request_buf = replicate IO_CHANNEL_BUF_SIZE 0,
      response_buf = replicate IO_CHANNEL_BUF_SIZE 0, io_pending = []\<rparr>"

definition io_channel_clone_for_fork :: "io_channel_state \<Rightarrow> io_channel_state" where
  "io_channel_clone_for_fork parent = io_channel_new\<lparr>page_gpa := page_gpa parent\<rparr>"

definition promote_next_pending :: "io_channel_state \<Rightarrow> io_channel_state" where
  "promote_next_pending c =
     (if request_len c \<noteq> 0 then c
      else case io_pending c of
             [] \<Rightarrow> c
           | a # rest \<Rightarrow>
               let len = min (length (action_data a)) IO_CHANNEL_BUF_SIZE
               in c\<lparr>io_pending := rest,
                    request_buf := patch 0 (take len (action_data a)) (request_buf c),
                    request_len := len, request_target_tsc := target_tsc a,
                    request_delivered := False, response_len := 0\<rparr>)"

datatype enqueue_result = Queued | Full | OutOfMemory

text \<open>\<open>push_ok\<close> is the outcome of growing the vector.\<close>

definition enqueue_pending :: "bool \<Rightarrow> pending_io_action \<Rightarrow> io_channel_state \<Rightarrow> enqueue_result \<times> io_channel_state" where
  "enqueue_pending push_ok action c =
     (if PENDING_IO_QUEUE_CAP \<le> length (io_pending c) then (Full, c)
      else if push_ok then (Queued, c\<lparr>io_pending := io_pending c @ [action]\<rparr>)
      else (OutOfMemory, c))"

datatype io_errno = IO_EFAULT | IO_EINVAL | IO_ENOMEM | IO_EBUSY

text \<open>\<open>handle_queue_io_action\<close>: \<open>user\<close> is what the copies from user space deliver,
  the header's length and target and the data that follows it, each \<open>None\<close> when
  the copy fails; \<open>alloc_ok\<close> and \<open>push_ok\<close> are the outcomes of the allocations.\<close>

definition handle_queue_io_action ::
  "(nat \<times> u64) option \<Rightarrow> bytes option \<Rightarrow> bool \<Rightarrow> bool \<Rightarrow> io_channel_state \<Rightarrow> (io_errno + unit) \<times> io_channel_state" where
  "handle_queue_io_action header user_data alloc_ok push_ok c =
     (case header of
        None \<Rightarrow> (Inl IO_EFAULT, c)
      | Some (len, target) \<Rightarrow>
          if IO_CHANNEL_BUF_SIZE < len then (Inl IO_EINVAL, c)
          else if \<not> alloc_ok then (Inl IO_ENOMEM, c)
          else case (if len = 0 then Some [] else map_option (take len) user_data) of
                 None \<Rightarrow> (Inl IO_EFAULT, c)
               | Some data \<Rightarrow>
                   (case enqueue_pending push_ok \<lparr>target_tsc = target, action_data = data\<rparr> c of
                      (Queued, c') \<Rightarrow> (Inr (), promote_next_pending c')
                    | (Full, c') \<Rightarrow> (Inl IO_EBUSY, c')
                    | (OutOfMemory, c') \<Rightarrow> (Inl IO_ENOMEM, c')))"

text \<open>\<open>handle_drain_io_response\<close>: the bytes copied to user space; \<open>copy_ok\<close> and
  \<open>header_ok\<close> are the outcomes of the two copies to user space.\<close>

definition handle_drain_io_response ::
  "nat option \<Rightarrow> bool \<Rightarrow> bool \<Rightarrow> io_channel_state \<Rightarrow> (io_errno + bytes) \<times> io_channel_state" where
  "handle_drain_io_response user_capacity copy_ok header_ok c =
     (case user_capacity of
        None \<Rightarrow> (Inl IO_EFAULT, c)
      | Some cap \<Rightarrow>
          if IO_CHANNEL_BUF_SIZE < cap then (Inl IO_EINVAL, c)
          else let n = min (response_len c) cap
               in if 0 < n \<and> \<not> copy_ok then (Inl IO_EFAULT, c)
                  else if \<not> header_ok then (Inl IO_EFAULT, c)
                  else (Inr (take n (response_buf c)), c\<lparr>response_len := 0\<rparr>))"

text \<open>The part of \<open>HYPERCALL_IO_GET_REQUEST\<close> that consumes the request in flight
  once its bytes are in guest memory.\<close>

definition consume_request :: "io_channel_state \<Rightarrow> io_channel_state" where
  "consume_request c =
     promote_next_pending (c\<lparr>request_len := 0, request_delivered := False, request_target_tsc := 0\<rparr>)"

section \<open>Wire format\<close>

definition IO_REQUEST_MAGIC :: u32 where "IO_REQUEST_MAGIC = 0xB10C1010"
definition IO_RESPONSE_MAGIC :: u32 where "IO_RESPONSE_MAGIC = 0x1010B10C"
definition IO_FLAG_RECORD_OUTPUT :: u32 where "IO_FLAG_RECORD_OUTPUT = push_bit 0 1"
definition REQUEST_HEADER_LEN :: nat where "REQUEST_HEADER_LEN = 12"

text \<open>Strings are their UTF-8 bytes. \<open>String::from_utf8_lossy\<close> replaces every
  maximal invalid prefix by U+FFFD; \<open>utf8_step\<close> gives the length of the next
  sequence and whether it is valid, where bytes past the end read as 0.\<close>

definition utf8_byte :: "bytes \<Rightarrow> nat \<Rightarrow> u8" where
  "utf8_byte bs i = (if i < length bs then bs ! i else 0)"

definition is_cont :: "u8 \<Rightarrow> bool" where
  "is_cont b \<longleftrightarrow> 0x80 \<le> b \<and> b \<le> 0xBF"

definition utf8_step :: "bytes \<Rightarrow> nat \<times> bool" where
  "utf8_step bs =
     (let b = utf8_byte bs 0; b1 = utf8_byte bs 1; b2 = utf8_byte bs 2; b3 = utf8_byte bs 3
      in if b < 0x80 then (1, True)
         else if 0xC2 \<le> b \<and> b \<le> 0xDF then (if is_cont b1 then (2, True) else (1, False))
         else if 0xE0 \<le> b \<and> b \<le> 0xEF then
           (if \<not> (b = 0xE0 \<and> 0xA0 \<le> b1 \<and> b1 \<le> 0xBF \<or> 0xE1 \<le> b \<and> b \<le> 0xEC \<and> is_cont b1
                 \<or> b = 0xED \<and> 0x80 \<le> b1 \<and> b1 \<le> 0x9F \<or> 0xEE \<le> b \<and> b \<le> 0xEF \<and> is_cont b1)
            then (1, False) else if is_cont b2 then (3, True) else (2, False))
         else if 0xF0 \<le> b \<and> b \<le> 0xF4 then
           (if \<not> (b = 0xF0 \<and> 0x90 \<le> b1 \<and> b1 \<le> 0xBF \<or> 0xF1 \<le> b \<and> b \<le> 0xF3 \<and> is_cont b1
                 \<or> b = 0xF4 \<and> 0x80 \<le> b1 \<and> b1 \<le> 0x8F)
            then (1, False) else if \<not> is_cont b2 then (2, False)
            else if is_cont b3 then (4, True) else (3, False))
         else (1, False))"

lemma utf8_step_pos: "0 < fst (utf8_step bs)"
  by (simp add: utf8_step_def Let_def)

function from_utf8_lossy :: "bytes \<Rightarrow> bytes" where
  "from_utf8_lossy [] = []"
| "from_utf8_lossy (b # bs) =
     (let (n, valid) = utf8_step (b # bs)
      in (if valid then take n (b # bs) else [0xEF, 0xBF, 0xBD]) @ from_utf8_lossy (drop n (b # bs)))"
  by pat_completeness auto
termination
proof (relation "measure length", goal_cases)
  case (2 b bs x n valid)
  then have "0 < n" using utf8_step_pos [of "b # bs"] by (metis fst_conv)
  then show ?case by simp
qed simp

function valid_utf8 :: "bytes \<Rightarrow> bool" where
  "valid_utf8 [] = True"
| "valid_utf8 (b # bs) =
     (let (n, valid) = utf8_step (b # bs)
      in valid \<and> n \<le> length (b # bs) \<and> valid_utf8 (drop n (b # bs)))"
  by pat_completeness auto
termination
proof (relation "measure length", goal_cases)
  case (2 b bs x n valid)
  then have "0 < n" using utf8_step_pos [of "b # bs"] by (metis fst_conv)
  then show ?case by simp
qed simp

datatype io_target = Host | Container bytes

record io_request =
  req_target :: io_target
  req_command :: bytes
  record_output :: bool

record io_response =
  io_status :: "32 word"
  io_exit_code :: "32 word"
  output_len :: u32

definition encode_request :: "bytes option \<Rightarrow> bytes \<Rightarrow> bool \<Rightarrow> bytes" where
  "encode_request container command rec_out =
     (let container = (case container of None \<Rightarrow> [] | Some n \<Rightarrow> n);
          payload = container @ [0] @ command @ [0];
          flags = (if rec_out then IO_FLAG_RECORD_OUTPUT else 0)
      in to_le 4 IO_REQUEST_MAGIC @ to_le 4 flags @ to_le 4 (of_nat (length payload) :: u32) @ payload)"

definition split_cstr :: "bytes \<Rightarrow> bytes \<times> bytes" where
  "split_cstr b =
     (let e = length (takeWhile (\<lambda>c. c \<noteq> 0) b)
      in (from_utf8_lossy (take e b), drop (e + 1) b))"

definition get_slice :: "nat \<Rightarrow> nat \<Rightarrow> bytes \<Rightarrow> bytes option" where
  "get_slice i j bs = (if i \<le> j \<and> j \<le> length bs then Some (take (j - i) (drop i bs)) else None)"

definition decode_request :: "bytes \<Rightarrow> io_request option" where
  "decode_request bs =
     (case get_slice 0 4 bs of
        None \<Rightarrow> None
      | Some m \<Rightarrow>
          if of_le m \<noteq> IO_REQUEST_MAGIC then None
          else case get_slice 4 8 bs of
                 None \<Rightarrow> None
               | Some f \<Rightarrow>
                   let payload = (if REQUEST_HEADER_LEN \<le> length bs then drop REQUEST_HEADER_LEN bs else []);
                       (container, rest) = split_cstr payload
                   in Some \<lparr>req_target = (if container = [] then Host else Container container),
                            req_command = fst (split_cstr rest),
                            record_output = (of_le f AND IO_FLAG_RECORD_OUTPUT \<noteq> 0)\<rparr>)"

definition decode_response :: "bytes \<Rightarrow> io_response option" where
  "decode_response bs =
     (case (get_slice 0 4 bs, get_slice 8 12 bs, get_slice 12 16 bs, get_slice 16 20 bs) of
        (Some m, Some s, Some e, Some l) \<Rightarrow>
          if of_le m \<noteq> IO_RESPONSE_MAGIC then None
          else Some \<lparr>io_status = of_le s, io_exit_code = of_le e, output_len = of_le l\<rparr>
      | _ \<Rightarrow> None)"

text \<open>\<open>i32\<close> values are 32-bit words read as signed integers.\<close>

definition exit_code_from_wait_status :: "32 word \<Rightarrow> int" where
  "exit_code_from_wait_status raw =
     (if sint raw < 0 then sint raw
      else if raw AND 0x7f \<noteq> 0 then 128 + uint (raw AND 0x7f)
      else uint (drop_bit 8 raw AND 0xff))"

section \<open>Lemmas: the queue\<close>

definition channel_ok :: "io_channel_state \<Rightarrow> bool" where
  "channel_ok c \<longleftrightarrow>
     length (request_buf c) = IO_CHANNEL_BUF_SIZE \<and> length (response_buf c) = IO_CHANNEL_BUF_SIZE
     \<and> request_len c \<le> IO_CHANNEL_BUF_SIZE \<and> response_len c \<le> IO_CHANNEL_BUF_SIZE
     \<and> length (io_pending c) \<le> PENDING_IO_QUEUE_CAP
     \<and> (\<forall>a\<in>set (io_pending c). action_data a \<noteq> [] \<and> length (action_data a) \<le> IO_CHANNEL_BUF_SIZE)
     \<and> (request_len c = 0 \<longrightarrow> io_pending c = [])"

text \<open>The abstract queue: the request in flight, if there is one, then the pending ones.\<close>

definition queued :: "io_channel_state \<Rightarrow> (u64 \<times> bytes) list" where
  "queued c =
     (if request_len c = 0 then [] else [(request_target_tsc c, take (request_len c) (request_buf c))])
     @ map (\<lambda>a. (target_tsc a, action_data a)) (io_pending c)"

lemma channel_ok_new: "channel_ok io_channel_new" "queued io_channel_new = []"
  by (simp_all add: channel_ok_def io_channel_new_def queued_def)

lemma take_patch_0: "length bs \<le> length xs \<Longrightarrow> take (length bs) (patch 0 bs xs) = bs"
  by (simp add: patch_def)

lemma length_patch_0: "length bs \<le> length xs \<Longrightarrow> length (patch 0 bs xs) = length xs"
  by (simp add: patch_def)

lemma promote_next_pending_queued:
  assumes "length (request_buf c) = IO_CHANNEL_BUF_SIZE" "length (response_buf c) = IO_CHANNEL_BUF_SIZE"
    and "request_len c \<le> IO_CHANNEL_BUF_SIZE" "response_len c \<le> IO_CHANNEL_BUF_SIZE"
    and "length (io_pending c) \<le> PENDING_IO_QUEUE_CAP"
    and "\<forall>a\<in>set (io_pending c). action_data a \<noteq> [] \<and> length (action_data a) \<le> IO_CHANNEL_BUF_SIZE"
  shows "channel_ok (promote_next_pending c) \<and> queued (promote_next_pending c) = queued c"
proof (cases "request_len c = 0 \<and> io_pending c \<noteq> []")
  case True
  then obtain a rest where p: "io_pending c = a # rest" by (cases "io_pending c") auto
  have a: "action_data a \<noteq> []" "length (action_data a) \<le> IO_CHANNEL_BUF_SIZE" using assms(6) p by auto
  let ?c = "promote_next_pending c"
  have eq: "?c = c\<lparr>io_pending := rest, request_buf := patch 0 (action_data a) (request_buf c),
      request_len := length (action_data a), request_target_tsc := target_tsc a,
      request_delivered := False, response_len := 0\<rparr>"
    using True p a by (simp add: promote_next_pending_def Let_def min_def)
  show ?thesis
    using assms p a True
    by (auto simp: eq channel_ok_def queued_def take_patch_0 length_patch_0)
next
  case False
  then have "promote_next_pending c = c" by (auto simp: promote_next_pending_def split: list.splits)
  then show ?thesis using assms False by (auto simp: channel_ok_def)
qed

lemma consume_request_queued:
  assumes "channel_ok c" and "request_len c \<noteq> 0"
  shows "channel_ok (consume_request c) \<and> queued (consume_request c) = tl (queued c)"
  using assms promote_next_pending_queued [of "c\<lparr>request_len := 0, request_delivered := False, request_target_tsc := 0\<rparr>"]
  by (simp add: consume_request_def channel_ok_def queued_def)

lemma enqueue_promote_queued:
  assumes ok: "channel_ok c" and "length (io_pending c) < PENDING_IO_QUEUE_CAP"
    and "data \<noteq> []" "length data \<le> IO_CHANNEL_BUF_SIZE"
  shows "\<exists>c'. enqueue_pending True \<lparr>target_tsc = t, action_data = data\<rparr> c = (Queued, c') \<and>
    channel_ok (promote_next_pending c') \<and> queued (promote_next_pending c') = queued c @ [(t, data)]"
proof -
  let ?c = "c\<lparr>io_pending := io_pending c @ [\<lparr>target_tsc = t, action_data = data\<rparr>]\<rparr>"
  have "enqueue_pending True \<lparr>target_tsc = t, action_data = data\<rparr> c = (Queued, ?c)"
    using assms(2) by (simp add: enqueue_pending_def)
  moreover have "channel_ok (promote_next_pending ?c) \<and> queued (promote_next_pending ?c) = queued ?c"
    using ok assms(2-4) by (intro promote_next_pending_queued) (auto simp: channel_ok_def)
  moreover have "queued ?c = queued c @ [(t, data)]" by (simp add: queued_def)
  ultimately show ?thesis by simp
qed

section \<open>Lemmas: the wire format\<close>

lemma from_utf8_lossy_valid: "valid_utf8 bs \<Longrightarrow> from_utf8_lossy bs = bs"
proof (induction bs rule: from_utf8_lossy.induct)
  case (2 b bs)
  obtain n v where s: "utf8_step (b # bs) = (n, v)" by (cases "utf8_step (b # bs)")
  with 2 have "from_utf8_lossy (drop n (b # bs)) = drop n (b # bs)" by (simp add: Let_def)
  moreover have v using 2 s by (simp add: Let_def)
  ultimately show ?case using s by (simp add: append_take_drop_id)
qed simp

lemma split_cstr_append:
  assumes "0 \<notin> set s" and "valid_utf8 s"
  shows "split_cstr (s @ 0 # rest) = (s, rest)"
proof -
  have "takeWhile (\<lambda>c. c \<noteq> 0) (s @ 0 # rest) = s" using assms(1) by (induction s) auto
  then show ?thesis using assms(2) by (simp add: split_cstr_def from_utf8_lossy_valid)
qed

section \<open>Properties\<close>



text \<open>C19. Requests survive the wire: decoding an encoded request gives back the
  container or the host, the command and the recording flag, for every container
  name and command that are UTF-8 strings without NUL; a request never decodes as
  a response.\<close>

theorem io_request_roundtrip:
  assumes "0 \<notin> set command" and "valid_utf8 command"
    and "\<And>n. container = Some n \<Longrightarrow> 0 \<notin> set n \<and> valid_utf8 n"
  shows "decode_request (encode_request container command r) =
      Some \<lparr>req_target = (case container of None \<Rightarrow> Host | Some n \<Rightarrow> if n = [] then Host else Container n),
            req_command = command, record_output = r\<rparr>
    \<and> decode_response (encode_request container command r) = None"
proof -
  define name where "name = (case container of None \<Rightarrow> [] | Some n \<Rightarrow> n)"
  have name: "0 \<notin> set name" "valid_utf8 name" using assms(3) by (auto simp: name_def split: option.splits)
  define pl :: u32 where "pl = of_nat (length name + length command + 2)"
  define fl where "fl = (if r then IO_FLAG_RECORD_OUTPUT else 0)"
  have enc: "encode_request container command r =
      to_le 4 IO_REQUEST_MAGIC @ to_le 4 fl @ to_le 4 pl @ name @ 0 # command @ [0]"
    by (simp add: encode_request_def Let_def name_def pl_def fl_def)
  have magic: "of_le (to_le 4 IO_REQUEST_MAGIC) = IO_REQUEST_MAGIC" "of_le (to_le 4 fl) = fl"
    by (rule of_le_to_le_full, simp)+
  have fl: "fl AND IO_FLAG_RECORD_OUTPUT \<noteq> 0 \<longleftrightarrow> r" by (simp add: fl_def IO_FLAG_RECORD_OUTPUT_def)
  have s1: "split_cstr (name @ 0 # command @ [0]) = (name, command @ [0])" by (rule split_cstr_append [OF name])
  have s2: "split_cstr (command @ [0]) = (command, [])" by (rule split_cstr_append [OF assms(1,2)])
  have slices: "get_slice 0 4 (encode_request container command r) = Some (to_le 4 IO_REQUEST_MAGIC)"
    "get_slice 4 8 (encode_request container command r) = Some (to_le 4 fl)"
    "REQUEST_HEADER_LEN \<le> length (encode_request container command r)"
    "drop REQUEST_HEADER_LEN (encode_request container command r) = name @ 0 # command @ [0]"
    by (simp_all add: enc get_slice_def REQUEST_HEADER_LEN_def)
  have "decode_request (encode_request container command r) =
      Some \<lparr>req_target = (if name = [] then Host else Container name), req_command = command, record_output = r\<rparr>"
    using slices magic by (simp add: decode_request_def s1 s2 fl)
  moreover have "(if name = [] then Host else Container name) =
      (case container of None \<Rightarrow> Host | Some n \<Rightarrow> if n = [] then Host else Container n)"
    by (simp add: name_def split: option.splits)
  moreover have "decode_response (encode_request container command r) = None"
    using slices(1) magic(1)
    by (simp add: decode_response_def IO_REQUEST_MAGIC_def IO_RESPONSE_MAGIC_def split: option.splits)
  ultimately show ?thesis by simp
qed

theorem io_request_roundtrip_witness:
  "decode_request (encode_request (Some [98, 116, 99]) [108, 115] True) =
     Some \<lparr>req_target = Container [98, 116, 99], req_command = [108, 115], record_output = True\<rparr>"
proof -
  have "valid_utf8 [108, 115]" "valid_utf8 [98, 116, 99]" by (simp_all add: utf8_step_def utf8_byte_def)
  then show ?thesis using io_request_roundtrip [of "[108, 115]" "Some [98, 116, 99]" True] by simp
qed



end
