(* ===== verification/Events.thy ===== *)
theory Events
  imports Io_Channel
begin

text \<open>
  The unified event stream: the wire format of \<open>bedrock-vmx/src/events/types.rs\<close>,
  the writer of \<open>bedrock-vmx/src/vm_state.rs\<close> (\<open>event_write\<close> and the emitters on
  top of it, staging of a record that does not fit, \<open>event_clear\<close>), and the
  reader of \<open>bedrock-vm/src/events.rs\<close>. The event buffer is the list of its
  bytes. The host time-stamp counter that the code reads with \<open>rdtsc\<close> is the
  argument \<open>now\<close>.
\<close>

section \<open>Wire format\<close>

definition EVENT_BUFFER_SIZE :: nat where "EVENT_BUFFER_SIZE = 1024 * 1024"
definition EVENT_HEADER_SIZE :: nat where "EVENT_HEADER_SIZE = 32"
definition EVENT_FLAG_DETERMINISTIC :: u16 where "EVENT_FLAG_DETERMINISTIC = push_bit 0 1"

text \<open>\<open>align_up\<close> as the code computes it; \<open>unat_align_up_usize\<close> relates it to the
  prelude's \<open>align_up\<close>, which the model of the writer uses.\<close>

definition align_up_usize :: "u64 \<Rightarrow> u64 \<Rightarrow> u64" where
  "align_up_usize n align = (n + align - 1) AND NOT (align - 1)"

record event_header =
  h_seq :: u64
  h_tsc :: u64
  h_real_tsc :: u64
  h_kind :: u16
  h_flags :: u16
  h_len :: u32

definition event_header_bytes :: "event_header \<Rightarrow> bytes" where
  "event_header_bytes h =
     to_le 8 (h_seq h) @ to_le 8 (h_tsc h) @ to_le 8 (h_real_tsc h)
     @ to_le 2 (h_kind h) @ to_le 2 (h_flags h) @ to_le 4 (h_len h)"

definition event_header_of_bytes :: "bytes \<Rightarrow> event_header" where
  "event_header_of_bytes bs =
     \<lparr>h_seq = of_le (subslice 0 8 bs), h_tsc = of_le (subslice 8 8 bs), h_real_tsc = of_le (subslice 16 8 bs),
      h_kind = of_le (subslice 24 2 bs), h_flags = of_le (subslice 26 2 bs), h_len = of_le (subslice 28 4 bs)\<rparr>"

datatype event_kind =
  EventKind_Exit | EventKind_Serial | EventKind_Inject | EventKind_Randomness
| EventKind_IoChannel | EventKind_Diagnostic

definition EventCategories_EXIT :: u32 where "EventCategories_EXIT = push_bit 0 1"
definition EventCategories_SERIAL :: u32 where "EventCategories_SERIAL = push_bit 1 1"
definition EventCategories_INJECT :: u32 where "EventCategories_INJECT = push_bit 2 1"
definition EventCategories_RANDOMNESS :: u32 where "EventCategories_RANDOMNESS = push_bit 3 1"
definition EventCategories_IO_CHANNEL :: u32 where "EventCategories_IO_CHANNEL = push_bit 4 1"
definition EventCategories_DIAGNOSTIC :: u32 where "EventCategories_DIAGNOSTIC = push_bit 5 1"

definition categories_contains :: "u32 \<Rightarrow> u32 \<Rightarrow> bool" where
  "categories_contains c other \<longleftrightarrow> c AND other = other"

definition categories_union :: "u32 \<Rightarrow> u32 \<Rightarrow> u32" where
  "categories_union c other = c OR other"

fun category :: "event_kind \<Rightarrow> u32" where
  "category EventKind_Exit = EventCategories_EXIT"
| "category EventKind_Serial = EventCategories_SERIAL"
| "category EventKind_Inject = EventCategories_INJECT"
| "category EventKind_Randomness = EventCategories_RANDOMNESS"
| "category EventKind_IoChannel = EventCategories_IO_CHANNEL"
| "category EventKind_Diagnostic = EventCategories_DIAGNOSTIC"

fun default_flags :: "event_kind \<Rightarrow> u16" where
  "default_flags EventKind_Diagnostic = 0"
| "default_flags _ = EVENT_FLAG_DETERMINISTIC"

fun as_u16 :: "event_kind \<Rightarrow> u16" where
  "as_u16 EventKind_Exit = 0"
| "as_u16 EventKind_Serial = 1"
| "as_u16 EventKind_Inject = 2"
| "as_u16 EventKind_Randomness = 3"
| "as_u16 EventKind_IoChannel = 4"
| "as_u16 EventKind_Diagnostic = 5"

record inject_payload =
  inj_vector :: u8
  inj_source :: u8
  inj_target_tsc :: u64

definition inject_payload_bytes :: "inject_payload \<Rightarrow> bytes" where
  "inject_payload_bytes p = inj_vector p # inj_source p # replicate 6 0 @ to_le 8 (inj_target_tsc p)"

datatype random_source = Source_Rdrand | Source_Rdseed | Source_GetRandom

fun random_source_as_u8 :: "random_source \<Rightarrow> u8" where
  "random_source_as_u8 Source_Rdrand = 0"
| "random_source_as_u8 Source_Rdseed = 1"
| "random_source_as_u8 Source_GetRandom = 2"

definition random_source_from_u8 :: "u8 \<Rightarrow> random_source" where
  "random_source_from_u8 v =
     (if v = random_source_as_u8 Source_Rdseed then Source_Rdseed
      else if v = random_source_as_u8 Source_GetRandom then Source_GetRandom
      else Source_Rdrand)"

record random_payload =
  rp_value :: u64
  rp_pid :: u32
  rp_source :: u8
  rp_width :: u8

definition random_payload_bytes :: "random_payload \<Rightarrow> bytes" where
  "random_payload_bytes p = to_le 8 (rp_value p) @ to_le 4 (rp_pid p) @ [rp_source p, rp_width p, 0, 0]"

definition IoChannelPhase_Request :: u8 where "IoChannelPhase_Request = 0"
definition IoChannelPhase_Response :: u8 where "IoChannelPhase_Response = 1"

record io_channel_payload =
  iop_phase :: u8
  iop_target_tsc :: u64

definition io_channel_payload_bytes :: "io_channel_payload \<Rightarrow> bytes" where
  "io_channel_payload_bytes p = iop_phase p # replicate 7 0 @ to_le 8 (iop_target_tsc p)"

section \<open>The writer\<close>

definition SERIAL_LINE_ACC_SIZE :: nat where "SERIAL_LINE_ACC_SIZE = 256"
definition SERIAL_CONSOLE_PAGE_SIZE :: nat where "SERIAL_CONSOLE_PAGE_SIZE = 4096"

record serial_console_state =
  console_page_gpa :: u64
  console_pending_buf :: bytes

definition serial_console_new :: serial_console_state where
  "serial_console_new = \<lparr>console_page_gpa = 0, console_pending_buf = replicate IO_CHANNEL_BUF_SIZE 0\<rparr>"

definition serial_console_clone_for_fork :: "serial_console_state \<Rightarrow> serial_console_state" where
  "serial_console_clone_for_fork parent =
     \<lparr>console_page_gpa = console_page_gpa parent, console_pending_buf = replicate IO_CHANNEL_BUF_SIZE 0\<rparr>"

datatype exit_loc = Loc_Buffer nat | Loc_Pending

text \<open>The fields of \<open>VmState\<close> that the event stream uses; the other fields of the
  structure extend this record. \<open>event_buffer\<close> is the memory behind
  \<open>event_buffer_ptr\<close>.\<close>

record event_state =
  emulated_tsc :: u64
  event_buffer :: "bytes option"
  event_len :: nat
  event_seq :: u64
  event_categories :: u32
  event_pending :: "event_kind option"
  event_pending_buf :: bytes
  event_pending_len :: nat
  event_pending_flags :: u16
  event_pending_tsc :: u64
  event_pending_real_tsc :: u64
  pending_exit_loc :: "exit_loc option"
  serial_line_buf :: bytes
  serial_line_len :: nat
  serial_line_tsc :: u64
  serial_line_real_tsc :: u64
  serial_console :: serial_console_state
  io_channel :: io_channel_state

definition set_event_buffer :: "bytes \<Rightarrow> 'a event_state_scheme \<Rightarrow> 'a event_state_scheme" where
  "set_event_buffer buf s = s\<lparr>event_buffer := Some buf\<rparr>"

definition clear_event_buffer_ptr :: "'a event_state_scheme \<Rightarrow> 'a event_state_scheme" where
  "clear_event_buffer_ptr s =
     s\<lparr>event_buffer := None, event_len := 0, event_pending := None, event_pending_len := 0\<rparr>"

definition event_buffer_full :: "'a event_state_scheme \<Rightarrow> bool" where
  "event_buffer_full s \<longleftrightarrow> event_pending s \<noteq> None"

definition event_category_enabled :: "event_kind \<Rightarrow> 'a event_state_scheme \<Rightarrow> bool" where
  "event_category_enabled kind s \<longleftrightarrow> categories_contains (event_categories s) (category kind)"

definition event_write ::
  "event_kind \<Rightarrow> u16 \<Rightarrow> u64 \<Rightarrow> u64 \<Rightarrow> bytes \<Rightarrow> bytes \<Rightarrow> 'a event_state_scheme \<Rightarrow> bool \<times> 'a event_state_scheme" where
  "event_write kind flags tsc real_tsc head tail s =
     (if \<not> categories_contains (event_categories s) (category kind) then (True, s)
      else case event_buffer s of
        None \<Rightarrow> (True, s)
      | Some base \<Rightarrow>
          let len = length head + length tail;
              need = EVENT_HEADER_SIZE + align_up len 8
          in if EVENT_BUFFER_SIZE < event_len s + need then
               (False,
                if event_pending s = None then
                  let cap = IO_CHANNEL_BUF_SIZE;
                      head_copy = min (length head) cap;
                      tail_copy = min (length tail) (cap - head_copy)
                  in s\<lparr>event_pending_buf := patch 0 (take head_copy head @ take tail_copy tail) (event_pending_buf s),
                       event_pending := Some kind, event_pending_len := head_copy + tail_copy,
                       event_pending_flags := flags, event_pending_tsc := tsc, event_pending_real_tsc := real_tsc\<rparr>
                else s)
             else
               let header = \<lparr>h_seq = event_seq s, h_tsc = tsc, h_real_tsc = real_tsc, h_kind = as_u16 kind,
                             h_flags = flags, h_len = of_nat len\<rparr>;
                   padded = align_up len 8
               in (True, s\<lparr>event_buffer := Some (patch (event_len s)
                             (event_header_bytes header @ head @ tail @ replicate (padded - len) 0) base),
                           event_seq := event_seq s + 1, event_len := event_len s + need\<rparr>))"

definition event_append :: "event_kind \<Rightarrow> bytes \<Rightarrow> u64 \<Rightarrow> 'a event_state_scheme \<Rightarrow> bool \<times> 'a event_state_scheme" where
  "event_append kind payload now s =
     (if \<not> categories_contains (event_categories s) (category kind) then (True, s)
      else event_write kind (default_flags kind) (emulated_tsc s) now payload [] s)"

definition event_append_at ::
  "event_kind \<Rightarrow> bytes \<Rightarrow> u64 \<Rightarrow> u64 \<Rightarrow> 'a event_state_scheme \<Rightarrow> bool \<times> 'a event_state_scheme" where
  "event_append_at kind payload tsc real_tsc s = event_write kind (default_flags kind) tsc real_tsc payload [] s"

text \<open>The payload offset of the record just written. The subtraction of machine
  integers is checked: \<open>None\<close> when it underflows.\<close>

definition event_len_at_last_record :: "'a event_state_scheme \<Rightarrow> nat option" where
  "event_len_at_last_record s =
     (let total = EVENT_HEADER_SIZE + align_up (event_pending_len s) 8
      in if total \<le> event_len s then Some (event_len s - total + EVENT_HEADER_SIZE) else None)"

text \<open>\<open>event_clear\<close>; \<open>None\<close> is the underflow above.\<close>

definition event_clear :: "'a event_state_scheme \<Rightarrow> 'a event_state_scheme option" where
  "event_clear s =
     (let s0 = s\<lparr>event_len := 0\<rparr>
      in case event_pending s0 of
           None \<Rightarrow> Some s0
         | Some kind \<Rightarrow>
             let s1 = s0\<lparr>event_pending := None\<rparr>;
                 (_, s2) = event_write kind (event_pending_flags s1) (event_pending_tsc s1) (event_pending_real_tsc s1)
                             (take (event_pending_len s1) (event_pending_buf s1)) [] s1
             in if kind = EventKind_Exit \<and> pending_exit_loc s2 = Some Loc_Pending
                then map_option (\<lambda>off. s2\<lparr>pending_exit_loc := Some (Loc_Buffer off), event_pending_len := 0\<rparr>)
                       (event_len_at_last_record s2)
                else Some (s2\<lparr>event_pending_len := 0\<rparr>))"

definition event_flush_serial_line :: "'a event_state_scheme \<Rightarrow> bool \<times> 'a event_state_scheme" where
  "event_flush_serial_line s =
     (if serial_line_len s = 0 then (True, s)
      else event_append_at EventKind_Serial (take (serial_line_len s) (serial_line_buf s))
             (serial_line_tsc s) (serial_line_real_tsc s) (s\<lparr>serial_line_len := 0\<rparr>))"

definition event_serial_byte :: "u8 \<Rightarrow> u64 \<Rightarrow> 'a event_state_scheme \<Rightarrow> bool \<times> 'a event_state_scheme" where
  "event_serial_byte byte now s =
     (if \<not> categories_contains (event_categories s) EventCategories_SERIAL then (True, s)
      else
        let s = (if serial_line_len s = 0
                 then s\<lparr>serial_line_tsc := emulated_tsc s, serial_line_real_tsc := now\<rparr> else s);
            s = (if serial_line_len s < SERIAL_LINE_ACC_SIZE
                 then s\<lparr>serial_line_buf := (serial_line_buf s)[serial_line_len s := byte],
                        serial_line_len := serial_line_len s + 1\<rparr> else s)
        in if byte = 10 \<or> serial_line_len s = SERIAL_LINE_ACC_SIZE
           then event_flush_serial_line s else (True, s))"

definition event_emit_console :: "nat \<Rightarrow> u64 \<Rightarrow> 'a event_state_scheme \<Rightarrow> bool \<times> 'a event_state_scheme" where
  "event_emit_console len now s =
     (if \<not> categories_contains (event_categories s) EventCategories_SERIAL then (True, s)
      else event_write EventKind_Serial (default_flags EventKind_Serial) (emulated_tsc s) now
             (take (min len SERIAL_CONSOLE_PAGE_SIZE) (console_pending_buf (serial_console s))) [] s)"

definition event_emit_io_channel ::
  "io_channel_payload \<Rightarrow> u64 \<Rightarrow> 'a event_state_scheme \<Rightarrow> bool \<times> 'a event_state_scheme" where
  "event_emit_io_channel payload now s =
     (if \<not> categories_contains (event_categories s) EventCategories_IO_CHANNEL then (True, s)
      else
        let is_response = (iop_phase payload = IoChannelPhase_Response);
            (data, data_len) = (if is_response then (response_buf (io_channel s), response_len (io_channel s))
                                else (request_buf (io_channel s), request_len (io_channel s)));
            flags = (if is_response then 0 else EVENT_FLAG_DETERMINISTIC)
        in event_write EventKind_IoChannel flags (emulated_tsc s) now (io_channel_payload_bytes payload)
             (take (min data_len IO_CHANNEL_BUF_SIZE) data) s)"

definition emit_exit_event :: "bytes \<Rightarrow> bool \<Rightarrow> u64 \<Rightarrow> 'a event_state_scheme \<Rightarrow> 'a event_state_scheme" where
  "emit_exit_event payload deterministic now s =
     (let s = s\<lparr>pending_exit_loc := None\<rparr>
      in if event_buffer s = None \<or> \<not> categories_contains (event_categories s) EventCategories_EXIT then s
         else
           let flags = (if deterministic then EVENT_FLAG_DETERMINISTIC else 0);
               payload_off = event_len s + EVENT_HEADER_SIZE;
               (fit, s) = event_write EventKind_Exit flags (emulated_tsc s) now payload [] s
           in s\<lparr>pending_exit_loc := Some (if fit then Loc_Buffer payload_off else Loc_Pending)\<rparr>)"

text \<open>The offsets of \<open>memory_hash\<close> and \<open>cow_page_count\<close> in an \<open>ExitRecord\<close>.\<close>

definition MEMORY_HASH_OFFSET :: nat where "MEMORY_HASH_OFFSET = 216"
definition COW_PAGE_COUNT_OFFSET :: nat where "COW_PAGE_COUNT_OFFSET = 300"

definition patch_exit_payload :: "nat \<Rightarrow> u64 \<Rightarrow> u32 \<Rightarrow> bytes \<Rightarrow> bytes" where
  "patch_exit_payload base memory_hash cow_page_count buf =
     patch (base + COW_PAGE_COUNT_OFFSET) (to_le 4 cow_page_count)
       (patch (base + MEMORY_HASH_OFFSET) (to_le 8 memory_hash) buf)"

definition finalize_exit_memory_hash :: "u64 \<Rightarrow> u32 \<Rightarrow> 'a event_state_scheme \<Rightarrow> 'a event_state_scheme" where
  "finalize_exit_memory_hash memory_hash cow_page_count s =
     (case pending_exit_loc s of
        None \<Rightarrow> s
      | Some loc \<Rightarrow>
          let s = s\<lparr>pending_exit_loc := None\<rparr>
          in case loc of
               Loc_Buffer off \<Rightarrow>
                 (case event_buffer s of
                    None \<Rightarrow> s
                  | Some base \<Rightarrow> s\<lparr>event_buffer := Some (patch_exit_payload off memory_hash cow_page_count base)\<rparr>)
             | Loc_Pending \<Rightarrow>
                 s\<lparr>event_pending_buf := patch_exit_payload 0 memory_hash cow_page_count (event_pending_buf s)\<rparr>)"

section \<open>The reader\<close>

record event_record =
  er_header :: event_header
  er_payload :: bytes

text \<open>\<open>EventStream::next\<close> on the buffer \<open>buf\<close> that starts at address \<open>addr\<close>: the
  cast of a header checks that it is complete and 8-byte aligned.\<close>

definition event_stream_next :: "nat \<Rightarrow> bytes \<Rightarrow> nat \<Rightarrow> (event_record \<times> nat) option" where
  "event_stream_next addr buf off =
     (if length buf < off then None
      else let rest = drop off buf
           in if length rest < EVENT_HEADER_SIZE \<or> (addr + off) mod 8 \<noteq> 0 then None
              else let header = event_header_of_bytes (take EVENT_HEADER_SIZE rest);
                       after = drop EVENT_HEADER_SIZE rest;
                       len = unat (h_len header)
                   in if length after < len then None
                      else Some (\<lparr>er_header = header, er_payload = take len after\<rparr>,
                                 align_up (off + EVENT_HEADER_SIZE + len) 8))"

lemma event_stream_next_advances:
  assumes "event_stream_next addr buf off = Some (r, off')"
  shows "off < off' \<and> off < length buf"
proof -
  have e: "EVENT_HEADER_SIZE = 32" by (simp add: EVENT_HEADER_SIZE_def)
  have "off' = align_up (off + 32 + unat (h_len (er_header r))) 8" "32 \<le> length (drop off buf)"
    using assms by (auto simp: event_stream_next_def e Let_def split: if_splits)
  moreover have "off + 32 + n \<le> align_up (off + 32 + n) 8" for n by (rule align_up_ge) simp
  ultimately have "off + 32 + unat (h_len (er_header r)) \<le> off'" "32 \<le> length buf - off" by simp_all
  then show ?thesis by linarith
qed

text \<open>All records that iterating over the stream yields.\<close>

function event_stream :: "nat \<Rightarrow> bytes \<Rightarrow> nat \<Rightarrow> event_record list" where
  "event_stream addr buf off =
     (case event_stream_next addr buf off of
        None \<Rightarrow> []
      | Some (r, off') \<Rightarrow> r # event_stream addr buf off')"
  by pat_completeness auto
termination
  by (relation "measure (\<lambda>(addr, buf, off). length buf - off)")
    (auto dest!: event_stream_next_advances)

declare event_stream.simps [simp del]

definition category_of :: "u16 \<Rightarrow> u32" where
  "category_of kind =
     (if kind = as_u16 EventKind_Exit then EventCategories_EXIT
      else if kind = as_u16 EventKind_Serial then EventCategories_SERIAL
      else if kind = as_u16 EventKind_Inject then EventCategories_INJECT
      else if kind = as_u16 EventKind_Randomness then EventCategories_RANDOMNESS
      else if kind = as_u16 EventKind_IoChannel then EventCategories_IO_CHANNEL
      else if kind = as_u16 EventKind_Diagnostic then EventCategories_DIAGNOSTIC
      else 0)"

end
