(* ===== verification/Event_Laws.thy ===== *)
theory Event_Laws
  imports Events
begin

text \<open>
  Laws of the event stream. \<open>event_log\<close> is the contract between the writer and the
  code that drains it: accepted events are appended to the log, the first refused
  one is staged. It is interpreted on \<open>event_write\<close>, and the reader is shown to
  return the log.
\<close>

section \<open>The contract of a log with one staged event\<close>

primrec emit_all :: "('e \<Rightarrow> 's \<Rightarrow> bool \<times> 's) \<Rightarrow> 'e list \<Rightarrow> 's \<Rightarrow> bool list \<times> 's" where
  "emit_all emit [] s = ([], s)"
| "emit_all emit (e # es) s =
     (let (b, s1) = emit e s; (bs, s2) = emit_all emit es s1 in (b # bs, s2))"

definition accepted :: "'e list \<Rightarrow> bool list \<Rightarrow> 'e list" where
  "accepted es bs = map fst (filter snd (zip es bs))"

definition first_refused :: "'e list \<Rightarrow> bool list \<Rightarrow> 'e option" where
  "first_refused es bs = map_option fst (find (\<lambda>p. \<not> snd p) (zip es bs))"

locale event_log =
  fixes enabled :: "'s \<Rightarrow> 'e set" and emit :: "'e \<Rightarrow> 's \<Rightarrow> bool \<times> 's"
    and log :: "'e list \<Rightarrow> 's \<Rightarrow> bool" and staged :: "'s \<Rightarrow> 'e option" and cut :: "'e \<Rightarrow> 'e"
  assumes emit_accepted: "log es s \<Longrightarrow> e \<in> enabled s \<Longrightarrow> emit e s = (True, s') \<Longrightarrow>
      log (es @ [e]) s' \<and> staged s' = staged s"
    and emit_refused: "log es s \<Longrightarrow> e \<in> enabled s \<Longrightarrow> emit e s = (False, s') \<Longrightarrow>
      log es s' \<and> staged s' = (case staged s of None \<Rightarrow> Some (cut e) | Some x \<Rightarrow> Some x)"
    and emit_enabled: "emit e s = (b, s') \<Longrightarrow> enabled s' = enabled s"
begin

lemma emit_all_log:
  assumes "log es s" and "set xs \<subseteq> enabled s" and "emit_all emit xs s = (bs, s')"
  shows "log (es @ accepted xs bs) s' \<and>
    staged s' = (case staged s of None \<Rightarrow> map_option cut (first_refused xs bs) | Some x \<Rightarrow> Some x)"
  using assms
proof (induction xs arbitrary: es s bs)
  case Nil
  then show ?case by (auto simp: accepted_def first_refused_def split: option.splits)
next
  case (Cons x xs)
  obtain b s1 where e: "emit x s = (b, s1)" by fastforce
  obtain cs where cs: "emit_all emit xs s1 = (cs, s')" and bs: "bs = b # cs"
    using Cons.prems(3) e by (auto simp: Let_def split: prod.splits)
  have en: "set xs \<subseteq> enabled s1" "x \<in> enabled s" using Cons.prems(2) emit_enabled [OF e] by auto
  show ?case
  proof (cases b)
    case True
    with emit_accepted [OF Cons.prems(1) en(2)] e
    have "log (es @ [x]) s1" "staged s1 = staged s" by auto
    with Cons.IH [OF this(1) en(1) cs] show ?thesis
      using True bs by (simp add: accepted_def first_refused_def split: option.splits)
  next
    case False
    with emit_refused [OF Cons.prems(1) en(2)] e
    have "log es s1" "staged s1 = (case staged s of None \<Rightarrow> Some (cut x) | Some y \<Rightarrow> Some y)" by auto
    with Cons.IH [OF this(1) en(1) cs] show ?thesis
      using False bs by (auto simp: accepted_def first_refused_def split: option.splits)
  qed
qed

end

section \<open>Records and their bytes\<close>

type_synonym event_item = "event_kind \<times> u16 \<times> u64 \<times> u64 \<times> bytes"

fun item_record :: "u64 \<Rightarrow> event_item \<Rightarrow> event_record" where
  "item_record seq (kind, flags, tsc, real_tsc, payload) =
     \<lparr>er_header = \<lparr>h_seq = seq, h_tsc = tsc, h_real_tsc = real_tsc, h_kind = as_u16 kind, h_flags = flags,
                   h_len = of_nat (length payload)\<rparr>, er_payload = payload\<rparr>"

primrec numbered :: "u64 \<Rightarrow> event_item list \<Rightarrow> event_record list" where
  "numbered seq [] = []"
| "numbered seq (e # es) = item_record seq e # numbered (seq + 1) es"

definition record_bytes :: "event_record \<Rightarrow> bytes" where
  "record_bytes r =
     (let len = length (er_payload r)
      in event_header_bytes (er_header r) @ er_payload r @ replicate (align_up len 8 - len) 0)"

definition record_ok :: "event_record \<Rightarrow> bool" where
  "record_ok r \<longleftrightarrow> unat (h_len (er_header r)) = length (er_payload r)"

lemma length_event_header_bytes [simp]: "length (event_header_bytes h) = EVENT_HEADER_SIZE"
  by (simp add: event_header_bytes_def EVENT_HEADER_SIZE_def)

lemma event_header_roundtrip [simp]: "event_header_of_bytes (event_header_bytes h) = h"
  by (simp add: event_header_of_bytes_def event_header_bytes_def subslice_def)

lemma align_up_add: "0 < a \<Longrightarrow> a dvd m \<Longrightarrow> align_up (m + n) a = m + align_up n a"
proof -
  assume "0 < a" "a dvd m"
  then obtain k where m: "m = a * k" by (elim dvdE)
  have "(m + n + (a - 1)) div a = k + (n + (a - 1)) div a"
    using div_mult_self4 [of a k "n + (a - 1)"] \<open>0 < a\<close> unfolding m add.assoc by simp
  then show ?thesis by (simp add: align_up_def m algebra_simps)
qed

lemma length_record_bytes:
  "length (record_bytes r) = EVENT_HEADER_SIZE + align_up (length (er_payload r)) 8"
  using align_up_ge [of 8 "length (er_payload r)"] by (simp add: record_bytes_def Let_def)

lemma record_bytes_dvd: "8 dvd length (record_bytes r)"
  by (simp add: length_record_bytes EVENT_HEADER_SIZE_def)

lemma stream_bytes_dvd: "8 dvd length (concat (map record_bytes rs))"
  by (induction rs) (auto simp: record_bytes_dvd)

lemma event_stream_next_record:
  assumes "8 dvd addr" and "8 dvd length pre" and "record_ok r"
  shows "event_stream_next addr (pre @ record_bytes r @ post) (length pre) = Some (r, length (pre @ record_bytes r))"
proof -
  let ?n = "length (er_payload r)"
  have al: "(addr + length pre) mod 8 = 0" using assms by (simp add: mod_add_eq dvd_imp_mod_0)
  have n: "unat (h_len (er_header r)) = ?n" using assms(3) by (simp add: record_ok_def)
  have dr: "drop (length pre) (pre @ record_bytes r @ post) = record_bytes r @ post" by simp
  have th: "take EVENT_HEADER_SIZE (record_bytes r @ post) = event_header_bytes (er_header r)"
    by (simp add: record_bytes_def Let_def)
  have da: "drop EVENT_HEADER_SIZE (record_bytes r @ post) =
      er_payload r @ replicate (align_up ?n 8 - ?n) 0 @ post"
    by (simp add: record_bytes_def Let_def)
  have "8 dvd length pre + EVENT_HEADER_SIZE" using assms(2) by (simp add: EVENT_HEADER_SIZE_def)
  then have off: "align_up (length pre + EVENT_HEADER_SIZE + ?n) 8 = length (pre @ record_bytes r)"
    by (simp add: align_up_add length_record_bytes)
  have len: "\<not> length (record_bytes r @ post) < EVENT_HEADER_SIZE" by (simp add: length_record_bytes)
  show ?thesis
    unfolding event_stream_next_def dr th da Let_def event_header_roundtrip n using al len off by simp
qed

lemma event_stream_records:
  assumes "8 dvd addr" and "8 dvd length pre" and "\<forall>r\<in>set rs. record_ok r"
  shows "event_stream addr (pre @ concat (map record_bytes rs)) (length pre) = rs"
  using assms(2,3)
proof (induction rs arbitrary: pre)
  case Nil
  have "event_stream_next addr pre (length pre) = None"
    by (simp add: event_stream_next_def EVENT_HEADER_SIZE_def)
  then show ?case by (simp add: event_stream.simps)
next
  case (Cons r rs)
  have "event_stream_next addr (pre @ concat (map record_bytes (r # rs))) (length pre) =
      Some (r, length (pre @ record_bytes r))"
    using event_stream_next_record [OF assms(1) Cons.prems(1)] Cons.prems(2) by simp
  moreover have "event_stream addr ((pre @ record_bytes r) @ concat (map record_bytes rs)) (length (pre @ record_bytes r)) = rs"
    using Cons.prems record_bytes_dvd by (intro Cons.IH) auto
  ultimately show ?case by (subst event_stream.simps) simp
qed

section \<open>Alignment\<close>

lemma and_not_low_bits: "w AND NOT (mask k) = push_bit k (drop_bit k w)" for w :: "'a::len word"
  by (rule bit_word_eqI) (auto simp: bit_simps)

text \<open>The mask arithmetic of the code rounds up to the next multiple.\<close>

lemma unat_align_up_usize:
  assumes "unat n + 7 < 2 ^ 64"
  shows "unat (align_up_usize n 8) = align_up (unat n) 8"
proof -
  have "align_up_usize n 8 = push_bit 3 (drop_bit 3 (n + 7))"
    using and_not_low_bits [of "n + 7" 3] by (simp add: align_up_usize_def mask_eq_exp_minus_1 add.commute)
  also have "\<dots> = (n + 7) div 8 * 8" by (simp add: push_bit_eq_mult drop_bit_eq_div)
  also have "unat \<dots> = (unat n + 7) div 8 * 8" using assms by (simp add: unat_word_ariths unat_div)
  finally show ?thesis by (simp add: align_up_def)
qed

section \<open>The writer implements the contract\<close>

fun emit :: "event_item \<Rightarrow> 'a event_state_scheme \<Rightarrow> bool \<times> 'a event_state_scheme" where
  "emit (kind, flags, tsc, real_tsc, payload) s = event_write kind flags tsc real_tsc payload [] s"

fun cut_item :: "event_item \<Rightarrow> event_item" where
  "cut_item (kind, flags, tsc, real_tsc, payload) = (kind, flags, tsc, real_tsc, take IO_CHANNEL_BUF_SIZE payload)"

definition enabled_items :: "'a event_state_scheme \<Rightarrow> event_item set" where
  "enabled_items s = {e. event_category_enabled (fst e) s}"

definition staged_item :: "'a event_state_scheme \<Rightarrow> event_item option" where
  "staged_item s =
     map_option (\<lambda>k. (k, event_pending_flags s, event_pending_tsc s, event_pending_real_tsc s,
                      take (event_pending_len s) (event_pending_buf s))) (event_pending s)"

text \<open>Invariant of the writer, and what it means that the buffer holds the items \<open>es\<close>
  numbered from \<open>seq\<close>.\<close>

definition writer_ok :: "'a event_state_scheme \<Rightarrow> bool" where
  "writer_ok s \<longleftrightarrow>
     (\<exists>b. event_buffer s = Some b \<and> length b = EVENT_BUFFER_SIZE) \<and> event_len s \<le> EVENT_BUFFER_SIZE
     \<and> length (event_pending_buf s) = IO_CHANNEL_BUF_SIZE \<and> event_pending_len s \<le> IO_CHANNEL_BUF_SIZE"

definition holds_items :: "u64 \<Rightarrow> event_item list \<Rightarrow> 'a event_state_scheme \<Rightarrow> bool" where
  "holds_items seq es s \<longleftrightarrow> writer_ok s \<and> event_seq s = seq + of_nat (length es)
     \<and> (\<forall>r\<in>set (numbered seq es). record_ok r)
     \<and> take (event_len s) (the (event_buffer s)) = concat (map record_bytes (numbered seq es))"

lemma numbered_append: "numbered seq (xs @ ys) = numbered seq xs @ numbered (seq + of_nat (length xs)) ys"
  by (induction xs arbitrary: seq) (simp_all add: algebra_simps)

lemma take_min_length: "take (min (length xs) c) xs = take c xs"
  by (simp add: min_def)

lemma event_write_joins:
  "event_write kind flags tsc real_tsc head tail s = event_write kind flags tsc real_tsc (head @ tail) [] s"
proof -
  have 1: "take (min (length head) c) head @ take (min (length tail) (c - min (length head) c)) tail = take c (head @ tail)" for c
    by (cases "length head \<le> c") (simp_all add: min_absorb1 min_absorb2 take_min_length)
  have 2: "min (length head) c + min (length tail) (c - min (length head) c) = min (length head + length tail) c" for c
    by linarith
  have 3: "take (min (length head + length tail) c) (head @ tail) @ take (min 0 d) [] = take c (head @ tail)" for c d
    by (cases "length head + length tail \<le> c") (simp_all add: min_absorb1 min_absorb2)
  have 4: "min (length head + length tail) c + min 0 d = min (length head + length tail) c" for c d :: nat
    by simp
  show ?thesis
    unfolding event_write_def Let_def length_append list.size(3) add_0_right append_Nil append_assoc 1 2 3 4
    by (rule refl)
qed

text \<open>The two outcomes of writing an event whose category is enabled.\<close>

lemma emit_cases [consumes 2, case_names fits staged dropped]:
  assumes "writer_ok s" and "e \<in> enabled_items s"
  obtains (fits) b where "event_buffer s = Some b" "length b = EVENT_BUFFER_SIZE"
      "event_len s + length (record_bytes (item_record (event_seq s) e)) \<le> EVENT_BUFFER_SIZE"
      "emit e s = (True, s\<lparr>event_buffer := Some (patch (event_len s) (record_bytes (item_record (event_seq s) e)) b),
        event_seq := event_seq s + 1, event_len := event_len s + length (record_bytes (item_record (event_seq s) e))\<rparr>)"
  | (staged) "EVENT_BUFFER_SIZE < event_len s + length (record_bytes (item_record (event_seq s) e))"
      "event_pending s = None"
      "emit e s = (False, s\<lparr>event_pending_buf := patch 0 (take IO_CHANNEL_BUF_SIZE (snd (snd (snd (snd e))))) (event_pending_buf s),
        event_pending := Some (fst e), event_pending_len := min (length (snd (snd (snd (snd e))))) IO_CHANNEL_BUF_SIZE,
        event_pending_flags := fst (snd e), event_pending_tsc := fst (snd (snd e)),
        event_pending_real_tsc := fst (snd (snd (snd e)))\<rparr>)"
  | (dropped) "EVENT_BUFFER_SIZE < event_len s + length (record_bytes (item_record (event_seq s) e))"
      "event_pending s \<noteq> None" "emit e s = (False, s)"
proof -
  obtain kind flags tsc real_tsc payload where e: "e = (kind, flags, tsc, real_tsc, payload)" by (cases e) auto
  obtain b where b: "event_buffer s = Some b" "length b = EVENT_BUFFER_SIZE" using assms(1) by (auto simp: writer_ok_def)
  have c: "categories_contains (event_categories s) (category kind)"
    using assms(2) by (simp add: enabled_items_def event_category_enabled_def e)
  have len: "length (record_bytes (item_record (event_seq s) e)) = EVENT_HEADER_SIZE + align_up (length payload) 8"
    by (simp add: length_record_bytes e)
  show thesis
  proof (cases "EVENT_BUFFER_SIZE < event_len s + (EVENT_HEADER_SIZE + align_up (length payload) 8)")
    case False
    then show thesis using b c len
      by (intro fits [of b]) (simp_all add: e event_write_def Let_def record_bytes_def)
  next
    case True
    show thesis
    proof (cases "event_pending s = None")
      case none: True
      then show thesis using True b c len
        by (intro staged) (simp_all add: e event_write_def Let_def take_min_length)
    next
      case some: False
      then obtain k where "event_pending s = Some k" by auto
      then show thesis using True b c len by (intro dropped) (simp_all add: e event_write_def Let_def)
    qed
  qed
qed

lemma emit_writer_ok:
  assumes "writer_ok s" and "e \<in> enabled_items s" and "emit e s = (r, s')"
  shows "writer_ok s'"
  using assms(1,2)
proof (cases rule: emit_cases)
  case (fits b)
  then show ?thesis using assms(1,3) by (auto simp: writer_ok_def)
next
  case staged
  then show ?thesis using assms(1,3) by (auto simp: writer_ok_def)
next
  case dropped
  then show ?thesis using assms by auto
qed

lemma take_patch_end:
  "off + length bs \<le> length xs \<Longrightarrow> take (off + length bs) (patch off bs xs) = take off xs @ bs"
  by (simp add: patch_def)

lemma record_ok_fits:
  assumes "length (record_bytes (item_record seq e)) \<le> EVENT_BUFFER_SIZE"
  shows "record_ok (item_record seq e)"
proof -
  obtain kind flags tsc real_tsc payload where e: "e = (kind, flags, tsc, real_tsc, payload)" by (cases e) auto
  have "length payload \<le> align_up (length payload) 8" by (rule align_up_ge) simp
  then have "length payload \<le> 1048576"
    using assms by (simp add: e length_record_bytes EVENT_BUFFER_SIZE_def)
  then show ?thesis by (simp add: record_ok_def e unat_of_nat_id)
qed

lemma emit_accepted_log:
  assumes h: "holds_items seq es s" and "e \<in> enabled_items s" and "emit e s = (True, s')"
  shows "holds_items seq (es @ [e]) s' \<and> staged_item s' = staged_item s"
proof -
  have w: "writer_ok s" using h by (simp add: holds_items_def)
  show ?thesis
    using w assms(2)
  proof (cases rule: emit_cases)
    case (fits b)
    let ?r = "item_record (event_seq s) e"
    have s': "s' = s\<lparr>event_buffer := Some (patch (event_len s) (record_bytes ?r) b), event_seq := event_seq s + 1,
        event_len := event_len s + length (record_bytes ?r)\<rparr>" using fits assms(3) by simp
    have num: "numbered seq (es @ [e]) = numbered seq es @ [?r]"
      using h by (simp add: holds_items_def numbered_append)
    have "record_ok ?r" using fits by (intro record_ok_fits) simp
    moreover have "take (event_len s') (the (event_buffer s')) = take (event_len s) b @ record_bytes ?r"
      using fits by (simp add: s' take_patch_end)
    ultimately have "holds_items seq (es @ [e]) s'"
      unfolding holds_items_def num
      using h s' fits emit_writer_ok [OF w assms(2,3)] by (auto simp: holds_items_def)
    then show ?thesis by (simp add: s' staged_item_def)
  qed (use assms(3) in simp_all)
qed

lemma emit_refused_log:
  assumes h: "holds_items seq es s" and "e \<in> enabled_items s" and "emit e s = (False, s')"
  shows "holds_items seq es s' \<and>
    staged_item s' = (case staged_item s of None \<Rightarrow> Some (cut_item e) | Some x \<Rightarrow> Some x)"
proof -
  have w: "writer_ok s" using h by (simp add: holds_items_def)
  show ?thesis
    using w assms(2)
  proof (cases rule: emit_cases)
    case staged
    obtain kind flags tsc real_tsc payload where e: "e = (kind, flags, tsc, real_tsc, payload)" by (cases e) auto
    have "take (min (length payload) IO_CHANNEL_BUF_SIZE) (patch 0 (take IO_CHANNEL_BUF_SIZE payload) (event_pending_buf s))
        = take IO_CHANNEL_BUF_SIZE payload"
      using w by (simp add: patch_def writer_ok_def take_min_length)
    then show ?thesis using staged assms(3) h emit_writer_ok [OF w assms(2,3)]
      by (auto simp: e holds_items_def staged_item_def)
  next
    case dropped
    then show ?thesis using assms(3) h by (auto simp: staged_item_def)
  qed (use assms(3) in simp)
qed

lemma emit_keeps_enabled:
  assumes "emit e s = (r, s')"
  shows "enabled_items s' = enabled_items s"
proof -
  obtain kind flags tsc real_tsc payload where e: "e = (kind, flags, tsc, real_tsc, payload)" by (cases e) auto
  have "event_categories (snd (emit e s)) = event_categories s"
    by (simp add: e event_write_def Let_def split: option.splits)
  then show ?thesis using assms by (simp add: enabled_items_def event_category_enabled_def)
qed

interpretation ev: event_log enabled_items emit "holds_items seq" staged_item cut_item for seq
  by unfold_locales (use emit_accepted_log emit_refused_log emit_keeps_enabled in blast)+

section \<open>Draining\<close>

lemma staged_fits:
  "n \<le> IO_CHANNEL_BUF_SIZE \<Longrightarrow> EVENT_HEADER_SIZE + align_up n 8 \<le> EVENT_BUFFER_SIZE"
  using align_up_less [of 8 n] by (simp add: IO_CHANNEL_BUF_SIZE_def EVENT_HEADER_SIZE_def EVENT_BUFFER_SIZE_def)

text \<open>After a drain the buffer holds the staged event and nothing else.\<close>

lemma holds_no_items: "writer_ok s \<Longrightarrow> event_len s = 0 \<Longrightarrow> holds_items (event_seq s) [] s"
  by (simp add: holds_items_def)

lemma event_clear_log:
  assumes "writer_ok s" and "pending_exit_loc s \<noteq> Some Loc_Pending"
    and "\<And>e. staged_item s = Some e \<Longrightarrow> e \<in> enabled_items s"
  shows "\<exists>s'. event_clear s = Some s' \<and> event_pending s' = None
    \<and> holds_items (event_seq s) (case staged_item s of None \<Rightarrow> [] | Some e \<Rightarrow> [e]) s'"
proof (cases "event_pending s")
  case None
  then show ?thesis using assms(1) by (simp add: event_clear_def staged_item_def holds_items_def writer_ok_def)
next
  case (Some kind)
  define s1 where "s1 = s\<lparr>event_len := 0, event_pending := None\<rparr>"
  define e where "e = (kind, event_pending_flags s, event_pending_tsc s, event_pending_real_tsc s,
    take (event_pending_len s) (event_pending_buf s))"
  have st: "staged_item s = Some e" by (simp add: staged_item_def Some e_def)
  have s1: "holds_items (event_seq s) [] s1" "e \<in> enabled_items s1" "event_pending s1 = None" "staged_item s1 = None"
    using assms st by (auto simp: holds_items_def writer_ok_def s1_def enabled_items_def event_category_enabled_def staged_item_def)
  have len: "length (record_bytes (item_record (event_seq s1) e)) \<le> EVENT_BUFFER_SIZE"
    using assms(1) staged_fits [of "event_pending_len s"]
    by (simp add: e_def length_record_bytes writer_ok_def)
  have w1: "writer_ok s1" using s1(1) by (simp add: holds_items_def)
  obtain s2 where s2: "emit e s1 = (True, s2)" "pending_exit_loc s2 = pending_exit_loc s"
    using w1 s1(2) len by (cases rule: emit_cases) (auto simp: s1_def)
  have l: "holds_items (event_seq s) [e] s2" "staged_item s2 = None" using emit_accepted_log [OF s1(1,2) s2(1)] s1(4) by auto
  have "event_clear s = Some (s2\<lparr>event_pending_len := 0\<rparr>)"
    using s2 assms(2) by (simp add: event_clear_def Some Let_def s1_def [symmetric] e_def) (simp add: s1_def)
  moreover have "holds_items (event_seq s) [e] (s2\<lparr>event_pending_len := 0\<rparr>)" using l by (simp add: holds_items_def writer_ok_def)
  moreover have "event_pending s2 = None" using l(2) by (simp add: staged_item_def)
  ultimately show ?thesis by (simp add: st)
qed

lemma event_stream_holds:
  assumes "holds_items seq es s" and "8 dvd addr"
  shows "event_stream addr (take (event_len s) (the (event_buffer s))) 0 = numbered seq es"
  using event_stream_records [OF assms(2), of "[]" "numbered seq es"] assms(1)
  by (simp add: holds_items_def)

lemma staged_item_pending: "staged_item s = None \<longleftrightarrow> event_pending s = None"
  by (simp add: staged_item_def)

lemma first_refused_in: "first_refused es bs = Some x \<Longrightarrow> x \<in> set es"
proof -
  assume "first_refused es bs = Some x"
  then obtain p where "find (\<lambda>p. \<not> snd p) (zip es bs) = Some p" "x = fst p"
    by (auto simp: first_refused_def)
  then have "p \<in> set (zip es bs)" by (metis find_Some_iff nth_mem)
  then show ?thesis using \<open>x = fst p\<close> set_zip_leftD [of x "snd p" es bs] by simp
qed

lemma emit_all_frame:
  assumes "emit_all emit es s = (bs, s')"
  shows "pending_exit_loc s' = pending_exit_loc s \<and> enabled_items s' = enabled_items s"
  using assms
proof (induction es arbitrary: s bs)
  case (Cons e es)
  obtain r s1 where e: "emit e s = (r, s1)" by fastforce
  have "pending_exit_loc s1 = pending_exit_loc s"
    using e by (cases e) (auto simp: event_write_def Let_def split: option.splits if_splits)
  moreover obtain cs where "emit_all emit es s1 = (cs, s')" using Cons.prems e by (auto simp: Let_def split: prod.splits)
  ultimately show ?case using Cons.IH emit_keeps_enabled [OF e] by simp
qed simp

section \<open>Properties\<close>

text \<open>C21. What the guest's exits emit is what user space reads: after a drain, for
  every sequence of events of enabled categories, iterating over the bytes up to
  the cursor yields exactly the accepted events, in order and with consecutive
  sequence numbers; the first refused event is staged, cut to one page; and the
  next drain empties the buffer and puts the staged event first.\<close>

theorem event_stream_delivers:
  assumes "writer_ok s" and "event_len s = 0" and "event_pending s = None" and "pending_exit_loc s = None"
    and "\<forall>e\<in>set es. event_category_enabled (fst e) s" and "8 dvd addr"
    and "emit_all emit es s = (bs, s')"
  shows "event_stream addr (take (event_len s') (the (event_buffer s'))) 0 = numbered (event_seq s) (accepted es bs)
    \<and> staged_item s' = map_option cut_item (first_refused es bs)
    \<and> (\<exists>s''. event_clear s' = Some s'' \<and> event_pending s'' = None \<and>
        event_stream addr (take (event_len s'') (the (event_buffer s''))) 0 =
          numbered (event_seq s + of_nat (length (accepted es bs)))
            (case first_refused es bs of None \<Rightarrow> [] | Some e \<Rightarrow> [cut_item e]))"
proof -
  have en: "set es \<subseteq> enabled_items s" using assms(5) by (auto simp: enabled_items_def)
  have sn: "staged_item s = None" using assms(3) by (simp add: staged_item_def)
  have l: "holds_items (event_seq s) (accepted es bs) s'" "staged_item s' = map_option cut_item (first_refused es bs)"
    using ev.emit_all_log [OF holds_no_items [OF assms(1,2)] en assms(7)] sn by simp_all
  have fr: "pending_exit_loc s' = None" "enabled_items s' = enabled_items s" using emit_all_frame [OF assms(7)] assms(4) by auto
  have "e \<in> enabled_items s'" if "staged_item s' = Some e" for e
  proof -
    have "map_option cut_item (first_refused es bs) = Some e" using that l(2) by simp
    then obtain x where x: "first_refused es bs = Some x" "e = cut_item x" by (cases "first_refused es bs") simp_all
    have "x \<in> enabled_items s" using en first_refused_in [OF x(1)] by (rule subsetD)
    then show ?thesis using x(2) fr(2) by (cases x) (simp add: enabled_items_def)
  qed
  then obtain s'' where s'': "event_clear s' = Some s''" "event_pending s'' = None"
      "holds_items (event_seq s') (case staged_item s' of None \<Rightarrow> [] | Some e \<Rightarrow> [e]) s''"
    using event_clear_log [of s'] l(1) fr(1) by (auto simp: holds_items_def)
  have "(case staged_item s' of None \<Rightarrow> [] | Some e \<Rightarrow> [e]) =
      (case first_refused es bs of None \<Rightarrow> [] | Some e \<Rightarrow> [cut_item e])"
    by (simp add: l(2) split: option.splits)
  moreover have "event_seq s' = event_seq s + of_nat (length (accepted es bs))" using l(1) by (simp add: holds_items_def)
  ultimately show ?thesis
    using event_stream_holds [OF l(1) assms(6)] event_stream_holds [OF s''(3) assms(6)] l(2) s'' by simp
qed

theorem event_stream_delivers_witness:
  "\<exists>s :: event_state. \<exists>bs s'. emit_all emit [(EventKind_Serial, 1, 5, 6, [72, 105])] s = (bs, s') \<and>
     event_stream 0 (take (event_len s') (the (event_buffer s'))) 0 = numbered 0 [(EventKind_Serial, 1, 5, 6, [72, 105])]"
proof -
  define s :: event_state where
    "s = \<lparr>emulated_tsc = 0, event_buffer = Some (replicate EVENT_BUFFER_SIZE 0), event_len = 0, event_seq = 0,
      event_categories = EventCategories_SERIAL, event_pending = None, event_pending_buf = replicate IO_CHANNEL_BUF_SIZE 0,
      event_pending_len = 0, event_pending_flags = 0, event_pending_tsc = 0, event_pending_real_tsc = 0,
      pending_exit_loc = None, serial_line_buf = [], serial_line_len = 0, serial_line_tsc = 0, serial_line_real_tsc = 0,
      serial_console = serial_console_new, io_channel = io_channel_new\<rparr>"
  let ?es = "[(EventKind_Serial, 1, 5, 6, [72, 105])] :: event_item list"
  obtain bs s' where r: "emit_all emit ?es s = (bs, s')" by fastforce
  have "bs = [True]"
    using r by (auto simp: s_def event_write_def categories_contains_def EVENT_BUFFER_SIZE_def EVENT_HEADER_SIZE_def
        align_up_def Let_def split: prod.splits)
  moreover have "writer_ok s" by (simp add: s_def writer_ok_def)
  ultimately show ?thesis
    using event_stream_delivers [of s ?es 0 bs s', OF _ _ _ _ _ _ r] r
    by (auto simp: s_def event_category_enabled_def categories_contains_def accepted_def)
qed


text \<open>C22. A memory hash can land in another event: when an event is already staged
  and the exit record of the same exit does not fit either, the record is dropped
  but counted as staged, and finalising it overwrites bytes 216 to 223 and 300 to
  303 of the staged event's payload.\<close>

theorem memory_hash_overwrites_staged_event:
  assumes "writer_ok s" and "event_pending s = Some kind" and "event_category_enabled EventKind_Exit s"
    and "length record = 512" and "EVENT_BUFFER_SIZE < event_len s + 544"
    and "s' = finalize_exit_memory_hash hash pages (emit_exit_event record det now s)"
  shows "event_pending s' = Some kind \<and> event_len s' = event_len s
    \<and> subslice 216 8 (event_pending_buf s') = to_le 8 hash \<and> subslice 300 4 (event_pending_buf s') = to_le 4 pages"
proof -
  obtain b where b: "event_buffer s = Some b" using assms(1) by (auto simp: writer_ok_def)
  have len: "length (event_pending_buf s) = 4096" using assms(1) by (simp add: writer_ok_def IO_CHANNEL_BUF_SIZE_def)
  have c: "categories_contains (event_categories s) EventCategories_EXIT"
    using assms(3) by (simp add: event_category_enabled_def)
  have need: "EVENT_BUFFER_SIZE < event_len s + (EVENT_HEADER_SIZE + align_up 512 8)"
    using assms(5) by (simp add: EVENT_HEADER_SIZE_def align_up_def)
  have "emit_exit_event record det now s = s\<lparr>pending_exit_loc := Some Loc_Pending\<rparr>"
    using b c need assms(2,4) by (simp add: emit_exit_event_def event_write_def Let_def)
  then have "s' = s\<lparr>pending_exit_loc := None,
      event_pending_buf := patch 300 (to_le 4 pages) (patch 216 (to_le 8 hash) (event_pending_buf s))\<rparr>"
    using assms(6) by (simp add: finalize_exit_memory_hash_def patch_exit_payload_def MEMORY_HASH_OFFSET_def COW_PAGE_COUNT_OFFSET_def)
  then show ?thesis using assms(2) len by (simp add: subslice_patch_other)
qed

theorem memory_hash_overwrites_staged_event_witness:
  "\<exists>s :: event_state. event_pending s = Some EventKind_Serial \<and>
     subslice 216 8 (event_pending_buf (finalize_exit_memory_hash 7 0 (emit_exit_event (replicate 512 0) True 0 s))) = to_le 8 (7 :: u64)"
proof -
  define s :: event_state where
    "s = \<lparr>emulated_tsc = 0, event_buffer = Some (replicate EVENT_BUFFER_SIZE 0), event_len = EVENT_BUFFER_SIZE, event_seq = 0,
      event_categories = EventCategories_EXIT, event_pending = Some EventKind_Serial,
      event_pending_buf = replicate IO_CHANNEL_BUF_SIZE 0, event_pending_len = 4096, event_pending_flags = 0,
      event_pending_tsc = 0, event_pending_real_tsc = 0, pending_exit_loc = None, serial_line_buf = [],
      serial_line_len = 0, serial_line_tsc = 0, serial_line_real_tsc = 0,
      serial_console = serial_console_new, io_channel = io_channel_new\<rparr>"
  have w: "writer_ok s" by (simp add: s_def writer_ok_def IO_CHANNEL_BUF_SIZE_def)
  have "event_category_enabled EventKind_Exit s"
    by (simp add: s_def event_category_enabled_def categories_contains_def)
  moreover have "EVENT_BUFFER_SIZE < event_len s + 544" "event_pending s = Some EventKind_Serial" by (simp_all add: s_def)
  ultimately show ?thesis
    using memory_hash_overwrites_staged_event [OF w, of EventKind_Serial "replicate 512 0" _ 7 0 True 0] by auto
qed

text \<open>C23. Draining with an exit record still staged for its hash underflows when the
  exit category has been switched off in between: the record is not re-appended,
  and the offset of the record that was not written is computed as 0 minus its
  size.\<close>

theorem event_clear_underflow:
  assumes "event_pending s = Some EventKind_Exit" and "pending_exit_loc s = Some Loc_Pending"
    and "\<not> event_category_enabled EventKind_Exit s"
  shows "event_clear s = None"
  using assms
  by (simp add: event_clear_def event_write_def event_category_enabled_def event_len_at_last_record_def
      EVENT_HEADER_SIZE_def)

theorem event_clear_underflow_witness:
  "\<exists>s :: event_state. event_pending s = Some EventKind_Exit \<and> event_clear s = None"
proof -
  define s :: event_state where
    "s = \<lparr>emulated_tsc = 0, event_buffer = Some [], event_len = 0, event_seq = 0,
      event_categories = 0, event_pending = Some EventKind_Exit, event_pending_buf = [], event_pending_len = 512,
      event_pending_flags = 0, event_pending_tsc = 0, event_pending_real_tsc = 0, pending_exit_loc = Some Loc_Pending,
      serial_line_buf = [], serial_line_len = 0, serial_line_tsc = 0, serial_line_real_tsc = 0,
      serial_console = serial_console_new, io_channel = io_channel_new\<rparr>"
  have "\<not> event_category_enabled EventKind_Exit s"
    by (simp add: s_def event_category_enabled_def categories_contains_def EventCategories_EXIT_def)
  moreover have "event_pending s = Some EventKind_Exit" "pending_exit_loc s = Some Loc_Pending" by (simp_all add: s_def)
  ultimately show ?thesis using event_clear_underflow by blast
qed

end
