(* ===== verification/Vmx_Regs.thy ===== *)
theory Vmx_Regs
  imports Exit_Types
begin

text \<open>
  Names of the processor interface: the encodings of the control-structure fields
  (\<open>bedrock-vmx/src/fields.rs\<close>), the model-specific registers
  (\<open>registers/msr_defs.rs\<close>), the control bits (\<open>traits/controls.rs\<close>) and the
  register structures of \<open>registers/\<close>. The enumerations are their codes, with one
  name per variant.
\<close>

section \<open>Fields of the control structure\<close>

type_synonym vmcs_field16 = u32

abbreviation (input) VirtualProcessorId :: vmcs_field16 where "VirtualProcessorId \<equiv> 0x0000"
abbreviation (input) PmlIndex :: vmcs_field16 where "PmlIndex \<equiv> 0x0812"
abbreviation (input) GuestEsSelector :: vmcs_field16 where "GuestEsSelector \<equiv> 0x0800"
abbreviation (input) GuestCsSelector :: vmcs_field16 where "GuestCsSelector \<equiv> 0x0802"
abbreviation (input) GuestSsSelector :: vmcs_field16 where "GuestSsSelector \<equiv> 0x0804"
abbreviation (input) GuestDsSelector :: vmcs_field16 where "GuestDsSelector \<equiv> 0x0806"
abbreviation (input) GuestFsSelector :: vmcs_field16 where "GuestFsSelector \<equiv> 0x0808"
abbreviation (input) GuestGsSelector :: vmcs_field16 where "GuestGsSelector \<equiv> 0x080A"
abbreviation (input) GuestLdtrSelector :: vmcs_field16 where "GuestLdtrSelector \<equiv> 0x080C"
abbreviation (input) GuestTrSelector :: vmcs_field16 where "GuestTrSelector \<equiv> 0x080E"
abbreviation (input) HostEsSelector :: vmcs_field16 where "HostEsSelector \<equiv> 0x0C00"
abbreviation (input) HostCsSelector :: vmcs_field16 where "HostCsSelector \<equiv> 0x0C02"
abbreviation (input) HostSsSelector :: vmcs_field16 where "HostSsSelector \<equiv> 0x0C04"
abbreviation (input) HostDsSelector :: vmcs_field16 where "HostDsSelector \<equiv> 0x0C06"
abbreviation (input) HostFsSelector :: vmcs_field16 where "HostFsSelector \<equiv> 0x0C08"
abbreviation (input) HostGsSelector :: vmcs_field16 where "HostGsSelector \<equiv> 0x0C0A"
abbreviation (input) HostTrSelector :: vmcs_field16 where "HostTrSelector \<equiv> 0x0C0C"

type_synonym vmcs_field64 = u32

abbreviation (input) MsrBitmapAddr :: vmcs_field64 where "MsrBitmapAddr \<equiv> 0x2004"
abbreviation (input) VmExitMsrStoreAddr :: vmcs_field64 where "VmExitMsrStoreAddr \<equiv> 0x2006"
abbreviation (input) VmExitMsrLoadAddr :: vmcs_field64 where "VmExitMsrLoadAddr \<equiv> 0x2008"
abbreviation (input) VmEntryMsrLoadAddr :: vmcs_field64 where "VmEntryMsrLoadAddr \<equiv> 0x200A"
abbreviation (input) PmlAddress :: vmcs_field64 where "PmlAddress \<equiv> 0x200E"
abbreviation (input) EptPointer :: vmcs_field64 where "EptPointer \<equiv> 0x201A"
abbreviation (input) GuestPhysicalAddr :: vmcs_field64 where "GuestPhysicalAddr \<equiv> 0x2400"
abbreviation (input) VmcsLinkPointer :: vmcs_field64 where "VmcsLinkPointer \<equiv> 0x2800"
abbreviation (input) GuestIa32Debugctl :: vmcs_field64 where "GuestIa32Debugctl \<equiv> 0x2802"
abbreviation (input) GuestIa32Pat :: vmcs_field64 where "GuestIa32Pat \<equiv> 0x2804"
abbreviation (input) GuestIa32Efer :: vmcs_field64 where "GuestIa32Efer \<equiv> 0x2806"
abbreviation (input) GuestIa32PerfGlobalCtrl :: vmcs_field64 where "GuestIa32PerfGlobalCtrl \<equiv> 0x2808"
abbreviation (input) HostIa32Pat :: vmcs_field64 where "HostIa32Pat \<equiv> 0x2C00"
abbreviation (input) HostIa32Efer :: vmcs_field64 where "HostIa32Efer \<equiv> 0x2C02"
abbreviation (input) HostIa32PerfGlobalCtrl :: vmcs_field64 where "HostIa32PerfGlobalCtrl \<equiv> 0x2C04"

type_synonym vmcs_field32 = u32

abbreviation (input) PinBasedVmExecControls :: vmcs_field32 where "PinBasedVmExecControls \<equiv> 0x4000"
abbreviation (input) PrimaryProcBasedVmExecControls :: vmcs_field32 where "PrimaryProcBasedVmExecControls \<equiv> 0x4002"
abbreviation (input) ExceptionBitmap :: vmcs_field32 where "ExceptionBitmap \<equiv> 0x4004"
abbreviation (input) PageFaultErrorCodeMask :: vmcs_field32 where "PageFaultErrorCodeMask \<equiv> 0x4006"
abbreviation (input) PageFaultErrorCodeMatch :: vmcs_field32 where "PageFaultErrorCodeMatch \<equiv> 0x4008"
abbreviation (input) Cr3TargetCount :: vmcs_field32 where "Cr3TargetCount \<equiv> 0x400A"
abbreviation (input) PrimaryVmExitControls :: vmcs_field32 where "PrimaryVmExitControls \<equiv> 0x400C"
abbreviation (input) VmExitMsrStoreCount :: vmcs_field32 where "VmExitMsrStoreCount \<equiv> 0x400E"
abbreviation (input) VmExitMsrLoadCount :: vmcs_field32 where "VmExitMsrLoadCount \<equiv> 0x4010"
abbreviation (input) VmEntryControls :: vmcs_field32 where "VmEntryControls \<equiv> 0x4012"
abbreviation (input) VmEntryMsrLoadCount :: vmcs_field32 where "VmEntryMsrLoadCount \<equiv> 0x4014"
abbreviation (input) VmEntryInterruptionInfo :: vmcs_field32 where "VmEntryInterruptionInfo \<equiv> 0x4016"
abbreviation (input) VmEntryExceptionErrorCode :: vmcs_field32 where "VmEntryExceptionErrorCode \<equiv> 0x4018"
abbreviation (input) SecondaryProcBasedVmExecControls :: vmcs_field32 where "SecondaryProcBasedVmExecControls \<equiv> 0x401E"
abbreviation (input) VmInstructionError :: vmcs_field32 where "VmInstructionError \<equiv> 0x4400"
abbreviation (input) VmExitReason :: vmcs_field32 where "VmExitReason \<equiv> 0x4402"
abbreviation (input) VmExitInterruptionInfo :: vmcs_field32 where "VmExitInterruptionInfo \<equiv> 0x4404"
abbreviation (input) VmExitInterruptionErrorCode :: vmcs_field32 where "VmExitInterruptionErrorCode \<equiv> 0x4406"
abbreviation (input) IdtVectoringInfo :: vmcs_field32 where "IdtVectoringInfo \<equiv> 0x4408"
abbreviation (input) IdtVectoringErrorCode :: vmcs_field32 where "IdtVectoringErrorCode \<equiv> 0x440A"
abbreviation (input) VmExitInstructionLen :: vmcs_field32 where "VmExitInstructionLen \<equiv> 0x440C"
abbreviation (input) VmExitInstructionInfo :: vmcs_field32 where "VmExitInstructionInfo \<equiv> 0x440E"
abbreviation (input) GuestEsLimit :: vmcs_field32 where "GuestEsLimit \<equiv> 0x4800"
abbreviation (input) GuestCsLimit :: vmcs_field32 where "GuestCsLimit \<equiv> 0x4802"
abbreviation (input) GuestSsLimit :: vmcs_field32 where "GuestSsLimit \<equiv> 0x4804"
abbreviation (input) GuestDsLimit :: vmcs_field32 where "GuestDsLimit \<equiv> 0x4806"
abbreviation (input) GuestFsLimit :: vmcs_field32 where "GuestFsLimit \<equiv> 0x4808"
abbreviation (input) GuestGsLimit :: vmcs_field32 where "GuestGsLimit \<equiv> 0x480A"
abbreviation (input) GuestLdtrLimit :: vmcs_field32 where "GuestLdtrLimit \<equiv> 0x480C"
abbreviation (input) GuestTrLimit :: vmcs_field32 where "GuestTrLimit \<equiv> 0x480E"
abbreviation (input) GuestGdtrLimit :: vmcs_field32 where "GuestGdtrLimit \<equiv> 0x4810"
abbreviation (input) GuestIdtrLimit :: vmcs_field32 where "GuestIdtrLimit \<equiv> 0x4812"
abbreviation (input) GuestEsAccessRights :: vmcs_field32 where "GuestEsAccessRights \<equiv> 0x4814"
abbreviation (input) GuestCsAccessRights :: vmcs_field32 where "GuestCsAccessRights \<equiv> 0x4816"
abbreviation (input) GuestSsAccessRights :: vmcs_field32 where "GuestSsAccessRights \<equiv> 0x4818"
abbreviation (input) GuestDsAccessRights :: vmcs_field32 where "GuestDsAccessRights \<equiv> 0x481A"
abbreviation (input) GuestFsAccessRights :: vmcs_field32 where "GuestFsAccessRights \<equiv> 0x481C"
abbreviation (input) GuestGsAccessRights :: vmcs_field32 where "GuestGsAccessRights \<equiv> 0x481E"
abbreviation (input) GuestLdtrAccessRights :: vmcs_field32 where "GuestLdtrAccessRights \<equiv> 0x4820"
abbreviation (input) GuestTrAccessRights :: vmcs_field32 where "GuestTrAccessRights \<equiv> 0x4822"
abbreviation (input) GuestInterruptibilityState :: vmcs_field32 where "GuestInterruptibilityState \<equiv> 0x4824"
abbreviation (input) GuestActivityState :: vmcs_field32 where "GuestActivityState \<equiv> 0x4826"
abbreviation (input) GuestIa32SysenterCs :: vmcs_field32 where "GuestIa32SysenterCs \<equiv> 0x482A"
abbreviation (input) VmxPreemptionTimerValue :: vmcs_field32 where "VmxPreemptionTimerValue \<equiv> 0x482E"
abbreviation (input) HostIa32SysenterCs :: vmcs_field32 where "HostIa32SysenterCs \<equiv> 0x4C00"

type_synonym vmcs_field_natural = u32

abbreviation (input) Cr0GuestHostMask :: vmcs_field_natural where "Cr0GuestHostMask \<equiv> 0x6000"
abbreviation (input) Cr4GuestHostMask :: vmcs_field_natural where "Cr4GuestHostMask \<equiv> 0x6002"
abbreviation (input) Cr0ReadShadow :: vmcs_field_natural where "Cr0ReadShadow \<equiv> 0x6004"
abbreviation (input) Cr4ReadShadow :: vmcs_field_natural where "Cr4ReadShadow \<equiv> 0x6006"
abbreviation (input) ExitQualification :: vmcs_field_natural where "ExitQualification \<equiv> 0x6400"
abbreviation (input) GuestLinearAddr :: vmcs_field_natural where "GuestLinearAddr \<equiv> 0x640A"
abbreviation (input) GuestCr0 :: vmcs_field_natural where "GuestCr0 \<equiv> 0x6800"
abbreviation (input) GuestCr3 :: vmcs_field_natural where "GuestCr3 \<equiv> 0x6802"
abbreviation (input) GuestCr4 :: vmcs_field_natural where "GuestCr4 \<equiv> 0x6804"
abbreviation (input) GuestEsBase :: vmcs_field_natural where "GuestEsBase \<equiv> 0x6806"
abbreviation (input) GuestCsBase :: vmcs_field_natural where "GuestCsBase \<equiv> 0x6808"
abbreviation (input) GuestSsBase :: vmcs_field_natural where "GuestSsBase \<equiv> 0x680A"
abbreviation (input) GuestDsBase :: vmcs_field_natural where "GuestDsBase \<equiv> 0x680C"
abbreviation (input) GuestFsBase :: vmcs_field_natural where "GuestFsBase \<equiv> 0x680E"
abbreviation (input) GuestGsBase :: vmcs_field_natural where "GuestGsBase \<equiv> 0x6810"
abbreviation (input) GuestLdtrBase :: vmcs_field_natural where "GuestLdtrBase \<equiv> 0x6812"
abbreviation (input) GuestTrBase :: vmcs_field_natural where "GuestTrBase \<equiv> 0x6814"
abbreviation (input) GuestGdtrBase :: vmcs_field_natural where "GuestGdtrBase \<equiv> 0x6816"
abbreviation (input) GuestIdtrBase :: vmcs_field_natural where "GuestIdtrBase \<equiv> 0x6818"
abbreviation (input) GuestDr7 :: vmcs_field_natural where "GuestDr7 \<equiv> 0x681A"
abbreviation (input) GuestRsp :: vmcs_field_natural where "GuestRsp \<equiv> 0x681C"
abbreviation (input) GuestRip :: vmcs_field_natural where "GuestRip \<equiv> 0x681E"
abbreviation (input) GuestRflags :: vmcs_field_natural where "GuestRflags \<equiv> 0x6820"
abbreviation (input) GuestPendingDebugExceptions :: vmcs_field_natural where "GuestPendingDebugExceptions \<equiv> 0x6822"
abbreviation (input) GuestIa32SysenterEsp :: vmcs_field_natural where "GuestIa32SysenterEsp \<equiv> 0x6824"
abbreviation (input) GuestIa32SysenterEip :: vmcs_field_natural where "GuestIa32SysenterEip \<equiv> 0x6826"
abbreviation (input) HostCr0 :: vmcs_field_natural where "HostCr0 \<equiv> 0x6C00"
abbreviation (input) HostCr3 :: vmcs_field_natural where "HostCr3 \<equiv> 0x6C02"
abbreviation (input) HostCr4 :: vmcs_field_natural where "HostCr4 \<equiv> 0x6C04"
abbreviation (input) HostFsBase :: vmcs_field_natural where "HostFsBase \<equiv> 0x6C06"
abbreviation (input) HostGsBase :: vmcs_field_natural where "HostGsBase \<equiv> 0x6C08"
abbreviation (input) HostTrBase :: vmcs_field_natural where "HostTrBase \<equiv> 0x6C0A"
abbreviation (input) HostGdtrBase :: vmcs_field_natural where "HostGdtrBase \<equiv> 0x6C0C"
abbreviation (input) HostIdtrBase :: vmcs_field_natural where "HostIdtrBase \<equiv> 0x6C0E"
abbreviation (input) HostIa32SysenterEsp :: vmcs_field_natural where "HostIa32SysenterEsp \<equiv> 0x6C10"
abbreviation (input) HostIa32SysenterEip :: vmcs_field_natural where "HostIa32SysenterEip \<equiv> 0x6C12"
abbreviation (input) HostRsp :: vmcs_field_natural where "HostRsp \<equiv> 0x6C14"
abbreviation (input) HostRip :: vmcs_field_natural where "HostRip \<equiv> 0x6C16"

section \<open>Model-specific registers\<close>

type_synonym msr_number = u32

abbreviation (input) IA32_APIC_BASE :: msr_number where "IA32_APIC_BASE \<equiv> 0x1B"
abbreviation (input) IA32_FEATURE_CONTROL :: msr_number where "IA32_FEATURE_CONTROL \<equiv> 0x3A"
abbreviation (input) IA32_TSC_ADJUST :: msr_number where "IA32_TSC_ADJUST \<equiv> 0x3B"
abbreviation (input) IA32_SPEC_CTRL :: msr_number where "IA32_SPEC_CTRL \<equiv> 0x48"
abbreviation (input) IA32_PRED_CMD :: msr_number where "IA32_PRED_CMD \<equiv> 0x49"
abbreviation (input) IA32_PPIN_CTL :: msr_number where "IA32_PPIN_CTL \<equiv> 0x4E"
abbreviation (input) IA32_MKTME_KEYID_PARTITIONING :: msr_number where "IA32_MKTME_KEYID_PARTITIONING \<equiv> 0x87"
abbreviation (input) IA32_BIOS_SIGN_ID :: msr_number where "IA32_BIOS_SIGN_ID \<equiv> 0x8B"
abbreviation (input) IA32_PMC0 :: msr_number where "IA32_PMC0 \<equiv> 0xC1"
abbreviation (input) IA32_A_PMC0 :: msr_number where "IA32_A_PMC0 \<equiv> 0x4C1"
abbreviation (input) IA32_PMC1 :: msr_number where "IA32_PMC1 \<equiv> 0xC2"
abbreviation (input) IA32_PMC2 :: msr_number where "IA32_PMC2 \<equiv> 0xC3"
abbreviation (input) IA32_PMC3 :: msr_number where "IA32_PMC3 \<equiv> 0xC4"
abbreviation (input) IA32_PMC4 :: msr_number where "IA32_PMC4 \<equiv> 0xC5"
abbreviation (input) IA32_PMC5 :: msr_number where "IA32_PMC5 \<equiv> 0xC6"
abbreviation (input) IA32_PMC6 :: msr_number where "IA32_PMC6 \<equiv> 0xC7"
abbreviation (input) IA32_PMC7 :: msr_number where "IA32_PMC7 \<equiv> 0xC8"
abbreviation (input) IA32_MPERF :: msr_number where "IA32_MPERF \<equiv> 0xE7"
abbreviation (input) IA32_APERF :: msr_number where "IA32_APERF \<equiv> 0xE8"
abbreviation (input) IA32_PLATFORM_INFO :: msr_number where "IA32_PLATFORM_INFO \<equiv> 0xCE"
abbreviation (input) IA32_MTRRCAP :: msr_number where "IA32_MTRRCAP \<equiv> 0xFE"
abbreviation (input) IA32_MISC_FEATURES_ENABLES :: msr_number where "IA32_MISC_FEATURES_ENABLES \<equiv> 0x140"
abbreviation (input) IA32_MCG_CAP :: msr_number where "IA32_MCG_CAP \<equiv> 0x179"
abbreviation (input) IA32_MCG_STATUS :: msr_number where "IA32_MCG_STATUS \<equiv> 0x17A"
abbreviation (input) IA32_PERFEVTSEL0 :: msr_number where "IA32_PERFEVTSEL0 \<equiv> 0x186"
abbreviation (input) IA32_PERFEVTSEL1 :: msr_number where "IA32_PERFEVTSEL1 \<equiv> 0x187"
abbreviation (input) IA32_PERFEVTSEL2 :: msr_number where "IA32_PERFEVTSEL2 \<equiv> 0x188"
abbreviation (input) IA32_PERFEVTSEL3 :: msr_number where "IA32_PERFEVTSEL3 \<equiv> 0x189"
abbreviation (input) IA32_PERFEVTSEL4 :: msr_number where "IA32_PERFEVTSEL4 \<equiv> 0x18A"
abbreviation (input) IA32_PERFEVTSEL5 :: msr_number where "IA32_PERFEVTSEL5 \<equiv> 0x18B"
abbreviation (input) IA32_PERFEVTSEL6 :: msr_number where "IA32_PERFEVTSEL6 \<equiv> 0x18C"
abbreviation (input) IA32_PERFEVTSEL7 :: msr_number where "IA32_PERFEVTSEL7 \<equiv> 0x18D"
abbreviation (input) IA32_PERF_STATUS :: msr_number where "IA32_PERF_STATUS \<equiv> 0x198"
abbreviation (input) IA32_PERF_CTL :: msr_number where "IA32_PERF_CTL \<equiv> 0x199"
abbreviation (input) IA32_THERM_INTERRUPT :: msr_number where "IA32_THERM_INTERRUPT \<equiv> 0x19B"
abbreviation (input) IA32_THERM_STATUS :: msr_number where "IA32_THERM_STATUS \<equiv> 0x19C"
abbreviation (input) IA32_MISC_ENABLE :: msr_number where "IA32_MISC_ENABLE \<equiv> 0x1A0"
abbreviation (input) IA32_OFFCORE_RSP_0 :: msr_number where "IA32_OFFCORE_RSP_0 \<equiv> 0x1A6"
abbreviation (input) IA32_OFFCORE_RSP_1 :: msr_number where "IA32_OFFCORE_RSP_1 \<equiv> 0x1A7"
abbreviation (input) IA32_ENERGY_PERF_BIAS :: msr_number where "IA32_ENERGY_PERF_BIAS \<equiv> 0x1B0"
abbreviation (input) IA32_PACKAGE_THERM_STATUS :: msr_number where "IA32_PACKAGE_THERM_STATUS \<equiv> 0x1B1"
abbreviation (input) IA32_PACKAGE_THERM_INTERRUPT :: msr_number where "IA32_PACKAGE_THERM_INTERRUPT \<equiv> 0x1B2"
abbreviation (input) IA32_LBR_TOS :: msr_number where "IA32_LBR_TOS \<equiv> 0x1C9"
abbreviation (input) IA32_SYSENTER_CS :: msr_number where "IA32_SYSENTER_CS \<equiv> 0x174"
abbreviation (input) IA32_SYSENTER_ESP :: msr_number where "IA32_SYSENTER_ESP \<equiv> 0x175"
abbreviation (input) IA32_SYSENTER_EIP :: msr_number where "IA32_SYSENTER_EIP \<equiv> 0x176"
abbreviation (input) IA32_PAT :: msr_number where "IA32_PAT \<equiv> 0x277"
abbreviation (input) IA32_MTRR_DEF_TYPE :: msr_number where "IA32_MTRR_DEF_TYPE \<equiv> 0x2FF"
abbreviation (input) IA32_MTRR_PHYSBASE0 :: msr_number where "IA32_MTRR_PHYSBASE0 \<equiv> 0x200"
abbreviation (input) IA32_MTRR_PHYSMASK9 :: msr_number where "IA32_MTRR_PHYSMASK9 \<equiv> 0x213"
abbreviation (input) IA32_MTRR_FIX64K_00000 :: msr_number where "IA32_MTRR_FIX64K_00000 \<equiv> 0x250"
abbreviation (input) IA32_MTRR_FIX16K_80000 :: msr_number where "IA32_MTRR_FIX16K_80000 \<equiv> 0x258"
abbreviation (input) IA32_MTRR_FIX16K_A0000 :: msr_number where "IA32_MTRR_FIX16K_A0000 \<equiv> 0x259"
abbreviation (input) IA32_MTRR_FIX4K_C0000 :: msr_number where "IA32_MTRR_FIX4K_C0000 \<equiv> 0x268"
abbreviation (input) IA32_MTRR_FIX4K_F8000 :: msr_number where "IA32_MTRR_FIX4K_F8000 \<equiv> 0x26F"
abbreviation (input) IA32_PEBS_ENABLE :: msr_number where "IA32_PEBS_ENABLE \<equiv> 0x3F1"
abbreviation (input) MSR_PEBS_DATA_CFG :: msr_number where "MSR_PEBS_DATA_CFG \<equiv> 0x3F2"
abbreviation (input) IA32_PEBS_LD_LAT_THRESHOLD :: msr_number where "IA32_PEBS_LD_LAT_THRESHOLD \<equiv> 0x3F6"
abbreviation (input) IA32_PEBS_FRONTEND :: msr_number where "IA32_PEBS_FRONTEND \<equiv> 0x3F7"
abbreviation (input) IA32_DS_AREA :: msr_number where "IA32_DS_AREA \<equiv> 0x600"
abbreviation (input) MSR_ATOM_CORE_RATIOS :: msr_number where "MSR_ATOM_CORE_RATIOS \<equiv> 0x66A"
abbreviation (input) MSR_ATOM_CORE_VIDS :: msr_number where "MSR_ATOM_CORE_VIDS \<equiv> 0x66B"
abbreviation (input) MSR_ATOM_CORE_TURBO_RATIOS :: msr_number where "MSR_ATOM_CORE_TURBO_RATIOS \<equiv> 0x66C"
abbreviation (input) IA32_PERF_CAPABILITIES :: msr_number where "IA32_PERF_CAPABILITIES \<equiv> 0x345"
abbreviation (input) IA32_PERF_GLOBAL_STATUS :: msr_number where "IA32_PERF_GLOBAL_STATUS \<equiv> 0x38E"
abbreviation (input) IA32_PERF_GLOBAL_CTRL :: msr_number where "IA32_PERF_GLOBAL_CTRL \<equiv> 0x38F"
abbreviation (input) IA32_PERF_GLOBAL_STATUS_RESET :: msr_number where "IA32_PERF_GLOBAL_STATUS_RESET \<equiv> 0x390"
abbreviation (input) IA32_FIXED_CTR0 :: msr_number where "IA32_FIXED_CTR0 \<equiv> 0x309"
abbreviation (input) IA32_FIXED_CTR1 :: msr_number where "IA32_FIXED_CTR1 \<equiv> 0x30A"
abbreviation (input) IA32_FIXED_CTR2 :: msr_number where "IA32_FIXED_CTR2 \<equiv> 0x30B"
abbreviation (input) IA32_FIXED_CTR_CTRL :: msr_number where "IA32_FIXED_CTR_CTRL \<equiv> 0x38D"
abbreviation (input) IA32_TSC_DEADLINE :: msr_number where "IA32_TSC_DEADLINE \<equiv> 0x6E0"
abbreviation (input) IA32_EFER :: msr_number where "IA32_EFER \<equiv> 0xC0000080"
abbreviation (input) IA32_STAR :: msr_number where "IA32_STAR \<equiv> 0xC0000081"
abbreviation (input) IA32_LSTAR :: msr_number where "IA32_LSTAR \<equiv> 0xC0000082"
abbreviation (input) IA32_CSTAR :: msr_number where "IA32_CSTAR \<equiv> 0xC0000083"
abbreviation (input) IA32_FMASK :: msr_number where "IA32_FMASK \<equiv> 0xC0000084"
abbreviation (input) IA32_FS_BASE :: msr_number where "IA32_FS_BASE \<equiv> 0xC0000100"
abbreviation (input) IA32_GS_BASE :: msr_number where "IA32_GS_BASE \<equiv> 0xC0000101"
abbreviation (input) IA32_KERNEL_GS_BASE :: msr_number where "IA32_KERNEL_GS_BASE \<equiv> 0xC0000102"
abbreviation (input) IA32_TSC_AUX :: msr_number where "IA32_TSC_AUX \<equiv> 0xC0000103"
abbreviation (input) MSR_AMD64_DE_CFG :: msr_number where "MSR_AMD64_DE_CFG \<equiv> 0xC0011029"
abbreviation (input) IA32_VMX_BASIC :: msr_number where "IA32_VMX_BASIC \<equiv> 0x480"
abbreviation (input) IA32_VMX_PINBASED_CTLS :: msr_number where "IA32_VMX_PINBASED_CTLS \<equiv> 0x481"
abbreviation (input) IA32_VMX_PROCBASED_CTLS :: msr_number where "IA32_VMX_PROCBASED_CTLS \<equiv> 0x482"
abbreviation (input) IA32_VMX_EXIT_CTLS :: msr_number where "IA32_VMX_EXIT_CTLS \<equiv> 0x483"
abbreviation (input) IA32_VMX_ENTRY_CTLS :: msr_number where "IA32_VMX_ENTRY_CTLS \<equiv> 0x484"
abbreviation (input) IA32_VMX_CR0_FIXED0 :: msr_number where "IA32_VMX_CR0_FIXED0 \<equiv> 0x486"
abbreviation (input) IA32_VMX_CR0_FIXED1 :: msr_number where "IA32_VMX_CR0_FIXED1 \<equiv> 0x487"
abbreviation (input) IA32_VMX_CR4_FIXED0 :: msr_number where "IA32_VMX_CR4_FIXED0 \<equiv> 0x488"
abbreviation (input) IA32_VMX_CR4_FIXED1 :: msr_number where "IA32_VMX_CR4_FIXED1 \<equiv> 0x489"
abbreviation (input) IA32_VMX_PROCBASED_CTLS2 :: msr_number where "IA32_VMX_PROCBASED_CTLS2 \<equiv> 0x48B"
abbreviation (input) IA32_VMX_EPT_VPID_CAP :: msr_number where "IA32_VMX_EPT_VPID_CAP \<equiv> 0x48C"
abbreviation (input) MSR_PKG_CST_CONFIG_CONTROL :: msr_number where "MSR_PKG_CST_CONFIG_CONTROL \<equiv> 0xE2"
abbreviation (input) MSR_POWER_CTL :: msr_number where "MSR_POWER_CTL \<equiv> 0x1FC"
abbreviation (input) MSR_PPERF :: msr_number where "MSR_PPERF \<equiv> 0x64E"
abbreviation (input) MSR_OC_MAILBOX :: msr_number where "MSR_OC_MAILBOX \<equiv> 0x150"
abbreviation (input) MSR_SMI_COUNT :: msr_number where "MSR_SMI_COUNT \<equiv> 0x34"
abbreviation (input) MSR_MISC_PWR_MGMT :: msr_number where "MSR_MISC_PWR_MGMT \<equiv> 0x1AA"
abbreviation (input) IA32_PM_ENABLE :: msr_number where "IA32_PM_ENABLE \<equiv> 0x770"
abbreviation (input) IA32_HWP_CAPABILITIES :: msr_number where "IA32_HWP_CAPABILITIES \<equiv> 0x771"
abbreviation (input) IA32_HWP_INTERRUPT :: msr_number where "IA32_HWP_INTERRUPT \<equiv> 0x773"
abbreviation (input) IA32_HWP_REQUEST :: msr_number where "IA32_HWP_REQUEST \<equiv> 0x774"
abbreviation (input) IA32_HWP_STATUS :: msr_number where "IA32_HWP_STATUS \<equiv> 0x777"
abbreviation (input) IA32_RTIT_CTL :: msr_number where "IA32_RTIT_CTL \<equiv> 0x570"
abbreviation (input) MSR_RAPL_POWER_UNIT :: msr_number where "MSR_RAPL_POWER_UNIT \<equiv> 0x606"
abbreviation (input) MSR_PKG_POWER_LIMIT :: msr_number where "MSR_PKG_POWER_LIMIT \<equiv> 0x610"
abbreviation (input) MSR_PKG_ENERGY_STATUS :: msr_number where "MSR_PKG_ENERGY_STATUS \<equiv> 0x611"
abbreviation (input) MSR_PKG_POWER_INFO :: msr_number where "MSR_PKG_POWER_INFO \<equiv> 0x614"
abbreviation (input) MSR_DRAM_ENERGY_STATUS :: msr_number where "MSR_DRAM_ENERGY_STATUS \<equiv> 0x619"
abbreviation (input) MSR_DRAM_POWER_LIMIT :: msr_number where "MSR_DRAM_POWER_LIMIT \<equiv> 0x618"
abbreviation (input) MSR_DRAM_POWER_INFO :: msr_number where "MSR_DRAM_POWER_INFO \<equiv> 0x61C"
abbreviation (input) MSR_PP0_POWER_LIMIT :: msr_number where "MSR_PP0_POWER_LIMIT \<equiv> 0x638"
abbreviation (input) MSR_PP0_ENERGY_STATUS :: msr_number where "MSR_PP0_ENERGY_STATUS \<equiv> 0x639"
abbreviation (input) MSR_PP1_POWER_LIMIT :: msr_number where "MSR_PP1_POWER_LIMIT \<equiv> 0x640"
abbreviation (input) MSR_PP1_ENERGY_STATUS :: msr_number where "MSR_PP1_ENERGY_STATUS \<equiv> 0x641"

section \<open>Control bits\<close>

type_synonym vmx_control = u32

abbreviation (input) pin_based_EXT_INTR_EXITING :: vmx_control where "pin_based_EXT_INTR_EXITING \<equiv> push_bit 0 1"
abbreviation (input) pin_based_NMI_EXITING :: vmx_control where "pin_based_NMI_EXITING \<equiv> push_bit 3 1"
abbreviation (input) pin_based_PREEMPTION_TIMER :: vmx_control where "pin_based_PREEMPTION_TIMER \<equiv> push_bit 6 1"
abbreviation (input) cpu_based_INTR_WINDOW_EXITING :: vmx_control where "cpu_based_INTR_WINDOW_EXITING \<equiv> push_bit 2 1"
abbreviation (input) cpu_based_HLT_EXITING :: vmx_control where "cpu_based_HLT_EXITING \<equiv> push_bit 7 1"
abbreviation (input) cpu_based_MWAIT_EXITING :: vmx_control where "cpu_based_MWAIT_EXITING \<equiv> push_bit 10 1"
abbreviation (input) cpu_based_RDPMC_EXITING :: vmx_control where "cpu_based_RDPMC_EXITING \<equiv> push_bit 11 1"
abbreviation (input) cpu_based_RDTSC_EXITING :: vmx_control where "cpu_based_RDTSC_EXITING \<equiv> push_bit 12 1"
abbreviation (input) cpu_based_CR3_LOAD_EXITING :: vmx_control where "cpu_based_CR3_LOAD_EXITING \<equiv> push_bit 15 1"
abbreviation (input) cpu_based_CR3_STORE_EXITING :: vmx_control where "cpu_based_CR3_STORE_EXITING \<equiv> push_bit 16 1"
abbreviation (input) cpu_based_CR8_LOAD_EXITING :: vmx_control where "cpu_based_CR8_LOAD_EXITING \<equiv> push_bit 19 1"
abbreviation (input) cpu_based_CR8_STORE_EXITING :: vmx_control where "cpu_based_CR8_STORE_EXITING \<equiv> push_bit 20 1"
abbreviation (input) cpu_based_UNCOND_IO_EXITING :: vmx_control where "cpu_based_UNCOND_IO_EXITING \<equiv> push_bit 24 1"
abbreviation (input) cpu_based_MONITOR_TRAP_FLAG :: vmx_control where "cpu_based_MONITOR_TRAP_FLAG \<equiv> push_bit 27 1"
abbreviation (input) cpu_based_USE_MSR_BITMAPS :: vmx_control where "cpu_based_USE_MSR_BITMAPS \<equiv> push_bit 28 1"
abbreviation (input) cpu_based_MONITOR_EXITING :: vmx_control where "cpu_based_MONITOR_EXITING \<equiv> push_bit 29 1"
abbreviation (input) cpu_based_ACTIVATE_SECONDARY_CONTROLS :: vmx_control where "cpu_based_ACTIVATE_SECONDARY_CONTROLS \<equiv> push_bit 31 1"
abbreviation (input) secondary_exec_ENABLE_EPT :: vmx_control where "secondary_exec_ENABLE_EPT \<equiv> push_bit 1 1"
abbreviation (input) secondary_exec_ENABLE_RDTSCP :: vmx_control where "secondary_exec_ENABLE_RDTSCP \<equiv> push_bit 3 1"
abbreviation (input) secondary_exec_ENABLE_VPID :: vmx_control where "secondary_exec_ENABLE_VPID \<equiv> push_bit 5 1"
abbreviation (input) secondary_exec_UNRESTRICTED_GUEST :: vmx_control where "secondary_exec_UNRESTRICTED_GUEST \<equiv> push_bit 7 1"
abbreviation (input) secondary_exec_RDRAND_EXITING :: vmx_control where "secondary_exec_RDRAND_EXITING \<equiv> push_bit 11 1"
abbreviation (input) secondary_exec_ENABLE_INVPCID :: vmx_control where "secondary_exec_ENABLE_INVPCID \<equiv> push_bit 12 1"
abbreviation (input) secondary_exec_RDSEED_EXITING :: vmx_control where "secondary_exec_RDSEED_EXITING \<equiv> push_bit 16 1"
abbreviation (input) vm_exit_HOST_ADDR_SPACE_SIZE :: vmx_control where "vm_exit_HOST_ADDR_SPACE_SIZE \<equiv> push_bit 9 1"
abbreviation (input) vm_exit_LOAD_IA32_PERF_GLOBAL_CTRL :: vmx_control where "vm_exit_LOAD_IA32_PERF_GLOBAL_CTRL \<equiv> push_bit 12 1"
abbreviation (input) vm_exit_SAVE_IA32_EFER :: vmx_control where "vm_exit_SAVE_IA32_EFER \<equiv> push_bit 20 1"
abbreviation (input) vm_exit_LOAD_IA32_EFER :: vmx_control where "vm_exit_LOAD_IA32_EFER \<equiv> push_bit 21 1"
abbreviation (input) vm_entry_IA32E_MODE :: vmx_control where "vm_entry_IA32E_MODE \<equiv> push_bit 9 1"
abbreviation (input) vm_entry_LOAD_IA32_PERF_GLOBAL_CTRL :: vmx_control where "vm_entry_LOAD_IA32_PERF_GLOBAL_CTRL \<equiv> push_bit 13 1"
abbreviation (input) vm_entry_LOAD_IA32_EFER :: vmx_control where "vm_entry_LOAD_IA32_EFER \<equiv> push_bit 15 1"

end
