(* ===== verification/Vmcs.thy ===== *)
theory Vmcs
  imports Vmx_Regs Vpid
begin

text \<open>
  The virtual-machine control structure: VMREAD, VMWRITE, VMPTRLD and VMCLEAR as
  \<open>bedrock/vmcs.rs\<close> wraps them, the capabilities read at start-up and the set-up
  of host state and controls (\<open>bedrock-vmx/src/traits/vmx.rs\<close>, \<open>traits/vmcs.rs\<close>,
  \<open>host.rs\<close>), and the guest registers kept in it (\<open>traits/registers.rs\<close>). A
  control structure is its fields, a partial map from encodings to values (fields
  the processor does not have are absent), and whether it is the current one;
  the outcomes of VMPTRLD and VMCLEAR are arguments.
\<close>

section \<open>Reading and writing fields\<close>

record vmcs =
  vmcs_loaded :: bool
  vmcs_fields :: "u32 \<rightharpoonup> u64"

datatype vmcs_access_error = VmcsNotLoaded | InvalidField

definition vmread :: "u32 \<Rightarrow> vmcs \<Rightarrow> vmcs_access_error + u64" where
  "vmread field v =
     (if \<not> vmcs_loaded v then Inl VmcsNotLoaded
      else case vmcs_fields v field of None \<Rightarrow> Inl InvalidField | Some x \<Rightarrow> Inr x)"

definition vmwrite :: "u32 \<Rightarrow> u64 \<Rightarrow> (vmcs, vmcs_access_error, unit) fallible" where
  "vmwrite field x v =
     (if \<not> vmcs_loaded v then (Inl VmcsNotLoaded, v)
      else case vmcs_fields v field of
             None \<Rightarrow> (Inl InvalidField, v)
           | Some _ \<Rightarrow> (Inr (), v\<lparr>vmcs_fields := (vmcs_fields v)(field \<mapsto> x)\<rparr>))"

definition read16 :: "vmcs_field16 \<Rightarrow> vmcs \<Rightarrow> vmcs_access_error + u16" where
  "read16 field v = map_sum id ucast (vmread field v)"

definition read32 :: "vmcs_field32 \<Rightarrow> vmcs \<Rightarrow> vmcs_access_error + u32" where
  "read32 field v = map_sum id ucast (vmread field v)"

definition read64 :: "vmcs_field64 \<Rightarrow> vmcs \<Rightarrow> vmcs_access_error + u64" where
  "read64 field v = vmread field v"

definition read_natural :: "vmcs_field_natural \<Rightarrow> vmcs \<Rightarrow> vmcs_access_error + u64" where
  "read_natural field v = vmread field v"

definition write16 :: "vmcs_field16 \<Rightarrow> u16 \<Rightarrow> (vmcs, vmcs_access_error, unit) fallible" where
  "write16 field x v = vmwrite field (ucast x) v"

definition write32 :: "vmcs_field32 \<Rightarrow> u32 \<Rightarrow> (vmcs, vmcs_access_error, unit) fallible" where
  "write32 field x v = vmwrite field (ucast x) v"

definition write64 :: "vmcs_field64 \<Rightarrow> u64 \<Rightarrow> (vmcs, vmcs_access_error, unit) fallible" where
  "write64 field x v = vmwrite field x v"

definition write_natural :: "vmcs_field_natural \<Rightarrow> u64 \<Rightarrow> (vmcs, vmcs_access_error, unit) fallible" where
  "write_natural field x v = vmwrite field x v"

text \<open>VMCLEAR makes the structure not current; VMPTRLD makes it current. A failing
  instruction leaves it as it was.\<close>

definition vmcs_clear :: "bool \<Rightarrow> (vmcs, string, unit) fallible" where
  "vmcs_clear succeeds v =
     (if succeeds then (Inr (), v\<lparr>vmcs_loaded := False\<rparr>) else (Inl ''VMCLEAR failed'', v))"

definition vmcs_load :: "bool \<Rightarrow> (vmcs, string, unit) fallible" where
  "vmcs_load succeeds v =
     (if succeeds then (Inr (), v\<lparr>vmcs_loaded := True\<rparr>) else (Inl ''VMPTRLD failed'', v))"

text \<open>A sequence of VMWRITEs that stops at the first error, as the \<open>?\<close> operator
  chains them; each write is a field and the value as VMWRITE stores it.\<close>

definition write_fields :: "(u32 \<times> u64) list \<Rightarrow> (vmcs, vmcs_access_error, unit) fallible" where
  "write_fields ws = for_each ws (\<lambda>(field, x). vmwrite field x)"

section \<open>Capabilities\<close>

record vmx_capabilities =
  pin_based_exec_ctrl :: u32
  cpu_based_exec_ctrl :: u32
  cpu_based_exec_ctrl2 :: u32
  vmexit_ctrl :: u32
  vmentry_ctrl :: u32
  cr0_fixed0 :: u64
  cr0_fixed1 :: u64
  cr4_fixed0 :: u64
  cr4_fixed1 :: u64
  has_ept :: bool
  has_vpid :: bool
  pebs_format :: u8
  pebs_baseline :: bool
  pebs_trap :: bool

definition vmx_capabilities_default :: vmx_capabilities where
  "vmx_capabilities_default =
     \<lparr>pin_based_exec_ctrl = 0, cpu_based_exec_ctrl = 0, cpu_based_exec_ctrl2 = 0, vmexit_ctrl = 0, vmentry_ctrl = 0,
      cr0_fixed0 = 0, cr0_fixed1 = 0, cr4_fixed0 = 0, cr4_fixed1 = 0, has_ept = False, has_vpid = False,
      pebs_format = 0, pebs_baseline = False, pebs_trap = False\<rparr>"

definition supports_precise_pebs_exits :: "vmx_capabilities \<Rightarrow> bool" where
  "supports_precise_pebs_exits c \<longleftrightarrow> pebs_baseline c \<and> 4 \<le> pebs_format c"

record vmx_basic =
  vmcs_revision_id :: u32
  vmcs_size :: u16
  mem_type_wb :: bool
  io_exit_info :: bool
  vmx_flex_controls :: bool

definition vmx_load_basic_info :: "(msr_number \<Rightarrow> u64 option) \<Rightarrow> vmx_basic option" where
  "vmx_load_basic_info read_msr =
     map_option (\<lambda>m. \<lparr>vmcs_revision_id = ucast (m AND 0x7fffffff), vmcs_size = ucast (drop_bit 32 m AND 0x1fff),
        mem_type_wb = (drop_bit 50 m AND 1 \<noteq> 0), io_exit_info = (drop_bit 54 m AND 1 \<noteq> 0),
        vmx_flex_controls = (drop_bit 55 m AND 1 \<noteq> 0)\<rparr>) (read_msr IA32_VMX_BASIC)"

definition adjust_controls :: "u64 \<Rightarrow> u32 \<Rightarrow> u32" where
  "adjust_controls msr_value requested =
     (let allowed0 = ucast msr_value :: u32; allowed1 = ucast (drop_bit 32 msr_value) :: u32
      in (requested OR allowed0) AND allowed1)"

definition REQUESTED_PIN_BASED :: u32 where
  "REQUESTED_PIN_BASED = pin_based_EXT_INTR_EXITING OR pin_based_NMI_EXITING OR pin_based_PREEMPTION_TIMER"

definition REQUESTED_CPU_BASED :: u32 where
  "REQUESTED_CPU_BASED =
     cpu_based_HLT_EXITING OR cpu_based_MWAIT_EXITING OR cpu_based_MONITOR_EXITING OR cpu_based_RDPMC_EXITING
     OR cpu_based_RDTSC_EXITING OR cpu_based_USE_MSR_BITMAPS OR cpu_based_ACTIVATE_SECONDARY_CONTROLS
     OR cpu_based_UNCOND_IO_EXITING OR cpu_based_CR3_LOAD_EXITING OR cpu_based_CR3_STORE_EXITING
     OR cpu_based_CR8_LOAD_EXITING OR cpu_based_CR8_STORE_EXITING"

definition REQUESTED_SECONDARY :: u32 where
  "REQUESTED_SECONDARY =
     secondary_exec_ENABLE_EPT OR secondary_exec_ENABLE_VPID OR secondary_exec_UNRESTRICTED_GUEST
     OR secondary_exec_ENABLE_RDTSCP OR secondary_exec_ENABLE_INVPCID OR secondary_exec_RDRAND_EXITING
     OR secondary_exec_RDSEED_EXITING"

text \<open>\<open>read_capabilities\<close>: a register that cannot be read leaves its default.\<close>

definition read_capabilities :: "(msr_number \<Rightarrow> u64 option) \<Rightarrow> vmx_capabilities" where
  "read_capabilities read_msr =
     (let adjusted = (\<lambda>n requested. case read_msr n of None \<Rightarrow> 0 | Some m \<Rightarrow> adjust_controls m requested);
          value = (\<lambda>n. case read_msr n of None \<Rightarrow> 0 | Some m \<Rightarrow> m);
          cpu = adjusted IA32_VMX_PROCBASED_CTLS REQUESTED_CPU_BASED;
          secondary = (if cpu AND cpu_based_ACTIVATE_SECONDARY_CONTROLS \<noteq> 0
                       then adjusted IA32_VMX_PROCBASED_CTLS2 REQUESTED_SECONDARY else 0);
          perf = value IA32_PERF_CAPABILITIES
      in \<lparr>pin_based_exec_ctrl = adjusted IA32_VMX_PINBASED_CTLS REQUESTED_PIN_BASED,
          cpu_based_exec_ctrl = cpu,
          cpu_based_exec_ctrl2 = secondary,
          vmexit_ctrl = adjusted IA32_VMX_EXIT_CTLS
            (vm_exit_HOST_ADDR_SPACE_SIZE OR vm_exit_SAVE_IA32_EFER OR vm_exit_LOAD_IA32_EFER),
          vmentry_ctrl = adjusted IA32_VMX_ENTRY_CTLS (vm_entry_IA32E_MODE OR vm_entry_LOAD_IA32_EFER),
          cr0_fixed0 = value IA32_VMX_CR0_FIXED0, cr0_fixed1 = value IA32_VMX_CR0_FIXED1,
          cr4_fixed0 = value IA32_VMX_CR4_FIXED0, cr4_fixed1 = value IA32_VMX_CR4_FIXED1,
          has_ept = (secondary AND secondary_exec_ENABLE_EPT \<noteq> 0),
          has_vpid = (secondary AND secondary_exec_ENABLE_VPID \<noteq> 0),
          pebs_format = ucast (drop_bit 8 perf AND 0xF), pebs_baseline = (drop_bit 14 perf AND 1 \<noteq> 0),
          pebs_trap = (drop_bit 6 perf AND 1 \<noteq> 0)\<rparr>)"

datatype feature_control_error = Locked | MsrReadFailed | MsrWriteFailed

text \<open>\<open>configure_feature_control\<close> on the value of the register, \<open>None\<close> when it
  cannot be read; the result is the value written, if one is.\<close>

definition configure_feature_control :: "u64 option \<Rightarrow> bool \<Rightarrow> feature_control_error + u64 option" where
  "configure_feature_control read_value write_ok =
     (case read_value of
        None \<Rightarrow> Inl MsrReadFailed
      | Some fc \<Rightarrow>
          if fc AND push_bit 0 1 \<noteq> 0 \<and> fc AND push_bit 2 1 \<noteq> 0 then Inr None
          else if fc AND push_bit 0 1 \<noteq> 0 then Inl Locked
          else if write_ok then Inr (Some (fc OR push_bit 2 1 OR push_bit 0 1))
          else Inl MsrWriteFailed)"

definition fix_cr0 :: "u64 \<Rightarrow> vmx_capabilities \<Rightarrow> u64" where
  "fix_cr0 cr0 cap = (cr0 OR cr0_fixed0 cap) AND cr0_fixed1 cap"

definition fix_cr4 :: "u64 \<Rightarrow> vmx_capabilities \<Rightarrow> u64" where
  "fix_cr4 cr4 cap = (cr4 OR cr4_fixed0 cap) AND cr4_fixed1 cap"

section \<open>Host state\<close>

record syscall_msrs =
  star :: u64
  lstar :: u64
  cstar :: u64
  fmask :: u64

definition syscall_msrs_default :: syscall_msrs where
  "syscall_msrs_default = \<lparr>star = 0, lstar = 0, cstar = 0, fmask = 0\<rparr>"

definition or_zero :: "u64 option \<Rightarrow> u64" where
  "or_zero x = (case x of None \<Rightarrow> 0 | Some v \<Rightarrow> v)"

definition syscall_msrs_capture :: "(msr_number \<Rightarrow> u64 option) \<Rightarrow> syscall_msrs" where
  "syscall_msrs_capture read_msr =
     \<lparr>star = or_zero (read_msr IA32_STAR), lstar = or_zero (read_msr IA32_LSTAR),
      cstar = or_zero (read_msr IA32_CSTAR), fmask = or_zero (read_msr IA32_FMASK)\<rparr>"

text \<open>The registers of the processor, as a total map: writes that fault are ignored
  by the code, which discards their results.\<close>

type_synonym msr_file = "msr_number \<Rightarrow> u64"

definition syscall_msrs_load :: "syscall_msrs \<Rightarrow> msr_file \<Rightarrow> msr_file" where
  "syscall_msrs_load m hw =
     hw(IA32_STAR := star m, IA32_LSTAR := lstar m, IA32_CSTAR := cstar m, IA32_FMASK := fmask m)"

record host_state =
  h_cr0 :: u64
  h_cr3 :: u64
  h_cr4 :: u64
  cs_selector :: u16
  ss_selector :: u16
  ds_selector :: u16
  es_selector :: u16
  fs_selector :: u16
  gs_selector :: u16
  tr_selector :: u16
  h_fs_base :: u64
  h_gs_base :: u64
  h_tr_base :: u64
  gdtr_base :: u64
  idtr_base :: u64
  sysenter_cs :: u32
  sysenter_esp :: u64
  sysenter_eip :: u64
  h_efer :: u64
  h_pat :: u64
  misc_enable :: u64
  platform_info :: u64
  host_syscall_msrs :: syscall_msrs
  h_rsp :: u64
  h_rip :: u64

text \<open>\<open>capture\<close> reads the processor through four access traits, here one record of
  what they return (\<open>None\<close> for an error).\<close>

record cpu_access =
  read_cr0 :: "u64 option"
  read_cr3 :: "u64 option"
  read_cr4 :: "u64 option"
  read_msr :: "msr_number \<Rightarrow> u64 option"
  read_cs :: u16
  read_ss :: u16
  read_ds :: u16
  read_es :: u16
  read_fs :: u16
  read_gs :: u16
  read_tr :: u16
  read_gdtr_base :: u64
  read_idtr_base :: u64
  read_tr_base :: u64

definition host_state_capture :: "cpu_access \<Rightarrow> u64 \<Rightarrow> u64 \<Rightarrow> host_state" where
  "host_state_capture a rip rsp =
     \<lparr>h_cr0 = or_zero (read_cr0 a), h_cr3 = or_zero (read_cr3 a), h_cr4 = or_zero (read_cr4 a),
      cs_selector = read_cs a, ss_selector = read_ss a, ds_selector = read_ds a, es_selector = read_es a,
      fs_selector = read_fs a, gs_selector = read_gs a, tr_selector = read_tr a,
      h_fs_base = or_zero (read_msr a IA32_FS_BASE), h_gs_base = or_zero (read_msr a IA32_GS_BASE),
      h_tr_base = read_tr_base a, gdtr_base = read_gdtr_base a, idtr_base = read_idtr_base a,
      sysenter_cs = ucast (or_zero (read_msr a IA32_SYSENTER_CS)),
      sysenter_esp = or_zero (read_msr a IA32_SYSENTER_ESP), sysenter_eip = or_zero (read_msr a IA32_SYSENTER_EIP),
      h_efer = or_zero (read_msr a IA32_EFER), h_pat = or_zero (read_msr a IA32_PAT),
      misc_enable = or_zero (read_msr a IA32_MISC_ENABLE), platform_info = or_zero (read_msr a IA32_PLATFORM_INFO),
      host_syscall_msrs = syscall_msrs_capture (read_msr a), h_rsp = rsp, h_rip = rip\<rparr>"

definition setup_host_state :: "host_state \<Rightarrow> (vmcs, vmcs_access_error, unit) fallible" where
  "setup_host_state h = write_fields
     [(HostCr0, h_cr0 h), (HostCr3, h_cr3 h), (HostCr4, h_cr4 h),
      (HostCsSelector, ucast (cs_selector h)), (HostSsSelector, ucast (ss_selector h)),
      (HostDsSelector, ucast (ds_selector h)), (HostEsSelector, ucast (es_selector h)),
      (HostFsSelector, ucast (fs_selector h)), (HostGsSelector, ucast (gs_selector h)),
      (HostTrSelector, ucast (tr_selector h)),
      (HostFsBase, h_fs_base h), (HostGsBase, h_gs_base h), (HostTrBase, h_tr_base h),
      (HostGdtrBase, gdtr_base h), (HostIdtrBase, idtr_base h),
      (HostIa32SysenterCs, ucast (sysenter_cs h)), (HostIa32SysenterEsp, sysenter_esp h),
      (HostIa32SysenterEip, sysenter_eip h),
      (HostIa32Efer, h_efer h), (HostIa32Pat, h_pat h),
      (HostRsp, h_rsp h), (HostRip, h_rip h),
      (VmcsLinkPointer, NOT 0)]"

section \<open>Controls\<close>

definition ones_mask :: "u64 \<Rightarrow> u64 \<Rightarrow> u64" where
  "ones_mask fixed0 fixed1 = fixed0 AND fixed1"

definition zeros_mask :: "u64 \<Rightarrow> u64 \<Rightarrow> u64" where
  "zeros_mask fixed0 fixed1 = NOT fixed0 AND NOT fixed1"

text \<open>\<open>vpid\<close> is the identifier that \<open>allocate_vpid\<close> returns.\<close>

definition setup_controls :: "vmx_capabilities \<Rightarrow> u16 \<Rightarrow> u64 option \<Rightarrow> (vmcs, vmcs_access_error, unit) fallible" where
  "setup_controls caps vpid msr_bitmap_addr = write_fields
     ((case msr_bitmap_addr of
         Some addr \<Rightarrow> if cpu_based_exec_ctrl caps AND cpu_based_USE_MSR_BITMAPS \<noteq> 0 then [(MsrBitmapAddr, addr)] else []
       | None \<Rightarrow> [])
      @ [(PinBasedVmExecControls, ucast (pin_based_exec_ctrl caps))]
      @ (if pin_based_exec_ctrl caps AND pin_based_PREEMPTION_TIMER \<noteq> 0
         then [(VmxPreemptionTimerValue, 0x100000)] else [])
      @ [(PrimaryProcBasedVmExecControls, ucast (cpu_based_exec_ctrl caps))]
      @ (if cpu_based_exec_ctrl caps AND cpu_based_ACTIVATE_SECONDARY_CONTROLS \<noteq> 0
         then (SecondaryProcBasedVmExecControls, ucast (cpu_based_exec_ctrl2 caps))
              # (if cpu_based_exec_ctrl2 caps AND secondary_exec_ENABLE_VPID \<noteq> 0
                 then [(VirtualProcessorId, ucast vpid)] else [])
         else [])
      @ [(PrimaryVmExitControls, ucast (vmexit_ctrl caps)),
         (VmEntryControls, ucast (vmentry_ctrl caps)),
         (ExceptionBitmap, push_bit 18 1),
         (Cr0GuestHostMask, ones_mask (cr0_fixed0 caps) (cr0_fixed1 caps) OR zeros_mask (cr0_fixed0 caps) (cr0_fixed1 caps)),
         (Cr4GuestHostMask, ones_mask (cr4_fixed0 caps) (cr4_fixed1 caps) OR zeros_mask (cr4_fixed0 caps) (cr4_fixed1 caps)),
         (Cr0ReadShadow, 0), (Cr4ReadShadow, 0),
         (PageFaultErrorCodeMask, 0), (PageFaultErrorCodeMatch, 0),
         (Cr3TargetCount, 0), (VmEntryInterruptionInfo, 0)])"

datatype vmcs_setup_error =
  SetupClear string | SetupGuard string | SetupHostState vmcs_access_error
| SetupControls vmcs_access_error | SetupEptPointer vmcs_access_error

text \<open>\<open>setup\<close>: the guard's destructor clears the structure on every path out of the
  block; \<open>clear_ok\<close>, \<open>load_ok\<close> and \<open>drop_ok\<close> are the outcomes of the three
  instructions.\<close>

definition vmcs_setup ::
  "bool \<Rightarrow> bool \<Rightarrow> bool \<Rightarrow> u64 \<Rightarrow> u64 option \<Rightarrow> host_state \<Rightarrow> vmx_capabilities \<Rightarrow> u16 \<Rightarrow> (vmcs, vmcs_setup_error, unit) fallible" where
  "vmcs_setup clear_ok load_ok drop_ok ept_pointer msr_bitmap_addr host caps vpid v =
     (case vmcs_clear clear_ok v of
        (Inl e, v) \<Rightarrow> (Inl (SetupClear e), v)
      | (Inr _, v) \<Rightarrow>
          (case vmcs_load load_ok v of
             (Inl e, v) \<Rightarrow> (Inl (SetupGuard e), v)
           | (Inr _, v) \<Rightarrow>
               let (r, v) = (case setup_host_state host v of
                     (Inl e, v) \<Rightarrow> (Inl (SetupHostState e), v)
                   | (Inr _, v) \<Rightarrow>
                       (case setup_controls caps vpid msr_bitmap_addr v of
                          (Inl e, v) \<Rightarrow> (Inl (SetupControls e), v)
                        | (Inr _, v) \<Rightarrow>
                            (case vmwrite EptPointer ept_pointer v of
                               (Inl e, v) \<Rightarrow> (Inl (SetupEptPointer e), v)
                             | (Inr _, v) \<Rightarrow> (Inr (), v))))
               in (r, snd (vmcs_clear drop_ok v))))"

text \<open>How the constructor of a root VM obtains its processor identifier: it sets the
  structure up and then reads the field back, taking 0 when the read fails.\<close>

definition vm_new_vpid ::
  "bool \<Rightarrow> bool \<Rightarrow> bool \<Rightarrow> u64 \<Rightarrow> u64 option \<Rightarrow> host_state \<Rightarrow> vmx_capabilities \<Rightarrow> u16 \<Rightarrow> (vmcs, vmcs_setup_error, u16) fallible" where
  "vm_new_vpid clear_ok load_ok drop_ok ept_pointer msr_bitmap_addr host caps vpid v =
     (case vmcs_setup clear_ok load_ok drop_ok ept_pointer msr_bitmap_addr host caps vpid v of
        (Inl e, v) \<Rightarrow> (Inl e, v)
      | (Inr _, v) \<Rightarrow> (Inr (case read16 VirtualProcessorId v of Inl _ \<Rightarrow> 0 | Inr x \<Rightarrow> x), v))"

section \<open>Guest registers\<close>

record gprs =
  rax :: u64
  rcx :: u64
  rdx :: u64
  rbx :: u64
  rsp :: u64
  rbp :: u64
  rsi :: u64
  rdi :: u64
  r8 :: u64
  r9 :: u64
  r10 :: u64
  r11 :: u64
  r12 :: u64
  r13 :: u64
  r14 :: u64
  r15 :: u64

definition gprs_default :: gprs where
  "gprs_default = \<lparr>rax = 0, rcx = 0, rdx = 0, rbx = 0, rsp = 0, rbp = 0, rsi = 0, rdi = 0,
     r8 = 0, r9 = 0, r10 = 0, r11 = 0, r12 = 0, r13 = 0, r14 = 0, r15 = 0\<rparr>"

record control_registers =
  cr0 :: u64
  cr2 :: u64
  cr3 :: u64
  cr4 :: u64
  cr8 :: u64

definition cr8_new :: "u64 \<Rightarrow> u64" where
  "cr8_new value = value AND 0xF"

record debug_registers =
  dr0 :: u64
  dr1 :: u64
  dr2 :: u64
  dr3 :: u64
  dr6 :: u64
  dr7 :: u64

record segment_register =
  seg_selector :: u16
  access_rights :: u32
  seg_limit :: u32
  seg_base :: u64

record segment_registers =
  seg_cs :: segment_register
  seg_ds :: segment_register
  seg_es :: segment_register
  seg_fs :: segment_register
  seg_gs :: segment_register
  seg_ss :: segment_register
  seg_tr :: segment_register
  seg_ldtr :: segment_register

record descriptor_table =
  dt_limit :: u16
  dt_base :: u64

record guest_registers =
  g_gprs :: gprs
  g_control :: control_registers
  g_debug :: debug_registers
  g_segments :: segment_registers
  g_gdtr :: descriptor_table
  g_idtr :: descriptor_table
  g_efer :: u64
  g_rip :: u64
  g_rflags :: u64

text \<open>The fields that \<open>set_registers\<close> writes, in the order of the code, one definition
  per group of writes.\<close>

definition control_register_fields :: "vmx_capabilities \<Rightarrow> guest_registers \<Rightarrow> (u32 \<times> u64) list" where
  "control_register_fields caps r =
  [(GuestRsp, rsp (g_gprs r)), (GuestRip, g_rip r), (GuestRflags, g_rflags r),
   (GuestCr0, fix_cr0 (cr0 (g_control r)) caps), (GuestCr4, fix_cr4 (cr4 (g_control r)) caps),
   (GuestCr3, cr3 (g_control r)), (GuestDr7, dr7 (g_debug r))]"

definition selector_fields :: "segment_registers \<Rightarrow> (u32 \<times> u64) list" where
  "selector_fields g =
  [(GuestCsSelector, ucast (seg_selector (seg_cs g))),
   (GuestDsSelector, ucast (seg_selector (seg_ds g))),
   (GuestEsSelector, ucast (seg_selector (seg_es g))),
   (GuestFsSelector, ucast (seg_selector (seg_fs g))),
   (GuestGsSelector, ucast (seg_selector (seg_gs g))),
   (GuestSsSelector, ucast (seg_selector (seg_ss g))),
   (GuestLdtrSelector, ucast (seg_selector (seg_ldtr g))),
   (GuestTrSelector, ucast (seg_selector (seg_tr g)))]"

definition base_fields :: "segment_registers \<Rightarrow> (u32 \<times> u64) list" where
  "base_fields g =
  [(GuestCsBase, seg_base (seg_cs g)),
   (GuestDsBase, seg_base (seg_ds g)),
   (GuestEsBase, seg_base (seg_es g)),
   (GuestFsBase, seg_base (seg_fs g)),
   (GuestGsBase, seg_base (seg_gs g)),
   (GuestSsBase, seg_base (seg_ss g)),
   (GuestLdtrBase, seg_base (seg_ldtr g)),
   (GuestTrBase, seg_base (seg_tr g))]"

definition limit_fields :: "segment_registers \<Rightarrow> (u32 \<times> u64) list" where
  "limit_fields g =
  [(GuestCsLimit, ucast (seg_limit (seg_cs g))),
   (GuestDsLimit, ucast (seg_limit (seg_ds g))),
   (GuestEsLimit, ucast (seg_limit (seg_es g))),
   (GuestFsLimit, ucast (seg_limit (seg_fs g))),
   (GuestGsLimit, ucast (seg_limit (seg_gs g))),
   (GuestSsLimit, ucast (seg_limit (seg_ss g))),
   (GuestLdtrLimit, ucast (seg_limit (seg_ldtr g))),
   (GuestTrLimit, ucast (seg_limit (seg_tr g)))]"

definition access_rights_fields :: "segment_registers \<Rightarrow> (u32 \<times> u64) list" where
  "access_rights_fields g =
  [(GuestCsAccessRights, ucast (access_rights (seg_cs g))),
   (GuestDsAccessRights, ucast (access_rights (seg_ds g))),
   (GuestEsAccessRights, ucast (access_rights (seg_es g))),
   (GuestFsAccessRights, ucast (access_rights (seg_fs g))),
   (GuestGsAccessRights, ucast (access_rights (seg_gs g))),
   (GuestSsAccessRights, ucast (access_rights (seg_ss g))),
   (GuestLdtrAccessRights, ucast (access_rights (seg_ldtr g))),
   (GuestTrAccessRights, ucast (access_rights (seg_tr g)))]"

definition table_fields :: "guest_registers \<Rightarrow> (u32 \<times> u64) list" where
  "table_fields r =
  [(GuestGdtrBase, dt_base (g_gdtr r)), (GuestIdtrBase, dt_base (g_idtr r)),
   (GuestGdtrLimit, ucast (dt_limit (g_gdtr r))), (GuestIdtrLimit, ucast (dt_limit (g_idtr r))),
   (GuestIa32Efer, g_efer r)]"

definition initial_state_fields :: "(u32 \<times> u64) list" where
  "initial_state_fields =
  [(GuestIa32SysenterCs, 0), (GuestIa32SysenterEsp, 0), (GuestIa32SysenterEip, 0),
   (GuestIa32Debugctl, 0), (GuestIa32Pat, 0x0007040600070406),
   (GuestInterruptibilityState, 0), (GuestActivityState, 0), (GuestPendingDebugExceptions, 0)]"

definition register_fields :: "vmx_capabilities \<Rightarrow> guest_registers \<Rightarrow> (u32 \<times> u64) list" where
  "register_fields caps r =
     control_register_fields caps r @ selector_fields (g_segments r) @ base_fields (g_segments r)
     @ limit_fields (g_segments r) @ access_rights_fields (g_segments r) @ table_fields r @ initial_state_fields"

lemmas register_fields_defs =
  register_fields_def control_register_fields_def selector_fields_def base_fields_def limit_fields_def
  access_rights_fields_def table_fields_def initial_state_fields_def

text \<open>\<open>set_registers\<close> on the cached general-purpose registers and the structure.\<close>

definition set_registers :: "vmx_capabilities \<Rightarrow> guest_registers \<Rightarrow> gprs \<times> vmcs \<Rightarrow> (vmcs_access_error + unit) \<times> gprs \<times> vmcs" where
  "set_registers caps regs s =
     (case write_fields (register_fields caps regs) (snd s) of (r, v) \<Rightarrow> (r, g_gprs regs, v))"

definition read_segment :: "u32 \<Rightarrow> u32 \<Rightarrow> u32 \<Rightarrow> u32 \<Rightarrow> vmcs \<Rightarrow> vmcs_access_error + segment_register" where
  "read_segment sel_field base_field limit_field ar_field v =
     (case read16 sel_field v of Inl e \<Rightarrow> Inl e | Inr sel \<Rightarrow>
      (case read_natural base_field v of Inl e \<Rightarrow> Inl e | Inr base \<Rightarrow>
       (case read32 limit_field v of Inl e \<Rightarrow> Inl e | Inr limit \<Rightarrow>
        (case read32 ar_field v of Inl e \<Rightarrow> Inl e | Inr ar \<Rightarrow>
          Inr \<lparr>seg_selector = sel, access_rights = ar, seg_limit = limit, seg_base = base\<rparr>))))"

definition sum_bind :: "'e + 'a \<Rightarrow> ('a \<Rightarrow> 'e + 'b) \<Rightarrow> 'e + 'b" where
  "sum_bind m f = (case m of Inl e \<Rightarrow> Inl e | Inr x \<Rightarrow> f x)"

definition get_registers :: "gprs \<times> vmcs \<Rightarrow> vmcs_access_error + guest_registers" where
  "get_registers s =
     (let v = snd s
      in sum_bind (read_natural GuestCr0 v) (\<lambda>c0. sum_bind (read_natural GuestCr3 v) (\<lambda>c3.
         sum_bind (read_natural GuestCr4 v) (\<lambda>c4. sum_bind (read_natural GuestDr7 v) (\<lambda>d7.
         sum_bind (read_segment GuestCsSelector GuestCsBase GuestCsLimit GuestCsAccessRights v) (\<lambda>cs.
         sum_bind (read_segment GuestDsSelector GuestDsBase GuestDsLimit GuestDsAccessRights v) (\<lambda>ds.
         sum_bind (read_segment GuestEsSelector GuestEsBase GuestEsLimit GuestEsAccessRights v) (\<lambda>es.
         sum_bind (read_segment GuestFsSelector GuestFsBase GuestFsLimit GuestFsAccessRights v) (\<lambda>fs.
         sum_bind (read_segment GuestGsSelector GuestGsBase GuestGsLimit GuestGsAccessRights v) (\<lambda>gs.
         sum_bind (read_segment GuestSsSelector GuestSsBase GuestSsLimit GuestSsAccessRights v) (\<lambda>ss.
         sum_bind (read_segment GuestTrSelector GuestTrBase GuestTrLimit GuestTrAccessRights v) (\<lambda>tr.
         sum_bind (read_segment GuestLdtrSelector GuestLdtrBase GuestLdtrLimit GuestLdtrAccessRights v) (\<lambda>ldtr.
         sum_bind (read_natural GuestGdtrBase v) (\<lambda>gb. sum_bind (read32 GuestGdtrLimit v) (\<lambda>gl.
         sum_bind (read_natural GuestIdtrBase v) (\<lambda>ib. sum_bind (read32 GuestIdtrLimit v) (\<lambda>il.
         sum_bind (read64 GuestIa32Efer v) (\<lambda>efer. sum_bind (read_natural GuestRip v) (\<lambda>rip.
         sum_bind (read_natural GuestRflags v) (\<lambda>rflags.
           Inr \<lparr>g_gprs = fst s,
                g_control = \<lparr>cr0 = c0, cr2 = 0, cr3 = c3, cr4 = c4, cr8 = cr8_new 0\<rparr>,
                g_debug = \<lparr>dr0 = 0, dr1 = 0, dr2 = 0, dr3 = 0, dr6 = 0, dr7 = d7\<rparr>,
                g_segments = \<lparr>seg_cs = cs, seg_ds = ds, seg_es = es, seg_fs = fs, seg_gs = gs, seg_ss = ss,
                              seg_tr = tr, seg_ldtr = ldtr\<rparr>,
                g_gdtr = \<lparr>dt_limit = ucast gl, dt_base = gb\<rparr>, g_idtr = \<lparr>dt_limit = ucast il, dt_base = ib\<rparr>,
                g_efer = efer, g_rip = rip, g_rflags = rflags\<rparr>))))))))))))))))))))"

end
