(* ===== verification/Exit_Stats.thy ===== *)
theory Exit_Stats
  imports Exit_Types
begin

text \<open>
  The performance counters of \<open>bedrock-vmx/src/vm_state.rs\<close>: one pair of counters per
  kind of exit, the counters of copy-on-write faults, and the counters of the run
  loop. All are \<open>u64\<close> and wrap around.
\<close>

record exit_stats =
  x_count :: u64
  x_cycles :: u64

definition exit_stats_default :: exit_stats where
  "exit_stats_default = \<lparr>x_count = 0, x_cycles = 0\<rparr>"

definition exit_stats_record :: "u64 \<Rightarrow> exit_stats \<Rightarrow> exit_stats" where
  "exit_stats_record cycles s = \<lparr>x_count = x_count s + 1, x_cycles = x_cycles s + cycles\<rparr>"

definition avg_cycles :: "exit_stats \<Rightarrow> u64" where
  "avg_cycles s = (if x_count s = 0 then 0 else x_cycles s div x_count s)"

record cow_stats =
  total_faults :: u64
  adjacent_1 :: u64
  adjacent_2 :: u64
  adjacent_4 :: u64
  adjacent_8 :: u64
  stale_tlb_faults :: u64

definition cow_stats_default :: cow_stats where
  "cow_stats_default = \<lparr>total_faults = 0, adjacent_1 = 0, adjacent_2 = 0, adjacent_4 = 0, adjacent_8 = 0, stale_tlb_faults = 0\<rparr>"

definition cow_stats_record :: "u64 option \<Rightarrow> cow_stats \<Rightarrow> cow_stats" where
  "cow_stats_record min_distance s =
     (let s = s\<lparr>total_faults := total_faults s + 1\<rparr>
      in case min_distance of
           None \<Rightarrow> s
         | Some dist \<Rightarrow>
             let s = (if dist \<le> 1 then s\<lparr>adjacent_1 := adjacent_1 s + 1\<rparr> else s);
                 s = (if dist \<le> 2 then s\<lparr>adjacent_2 := adjacent_2 s + 1\<rparr> else s);
                 s = (if dist \<le> 4 then s\<lparr>adjacent_4 := adjacent_4 s + 1\<rparr> else s)
             in if dist \<le> 8 then s\<lparr>adjacent_8 := adjacent_8 s + 1\<rparr> else s)"

record all_exit_stats =
  st_cpuid :: exit_stats
  st_msr_read :: exit_stats
  st_msr_write :: exit_stats
  st_cr_access :: exit_stats
  st_io_instruction :: exit_stats
  st_ept_violation :: exit_stats
  st_external_interrupt :: exit_stats
  st_rdtsc :: exit_stats
  st_rdtscp :: exit_stats
  st_rdpmc :: exit_stats
  st_mwait :: exit_stats
  st_vmcall :: exit_stats
  st_apic_access :: exit_stats
  st_mtf :: exit_stats
  st_xsetbv :: exit_stats
  st_rdrand :: exit_stats
  st_rdseed :: exit_stats
  st_exception_nmi :: exit_stats
  st_other :: exit_stats
  total_run_cycles :: u64
  guest_cycles :: u64
  vmentry_overhead_cycles :: u64
  vmexit_overhead_cycles :: u64
  irq_window_cycles :: u64
  st_cow :: cow_stats
  pebs_margin_steps :: u64
  pebs_arm_below_min_delta :: u64
  pebs_arm_already_past :: u64
  pebs_armed_iter_no_fire :: u64
  apic_timer_late_inject :: u64
  max_pebs_skid :: u64

definition all_exit_stats_default :: all_exit_stats where
  "all_exit_stats_default =
     \<lparr>st_cpuid = exit_stats_default, st_msr_read = exit_stats_default, st_msr_write = exit_stats_default, st_cr_access = exit_stats_default, st_io_instruction = exit_stats_default, st_ept_violation = exit_stats_default, st_external_interrupt = exit_stats_default, st_rdtsc = exit_stats_default, st_rdtscp = exit_stats_default, st_rdpmc = exit_stats_default, st_mwait = exit_stats_default, st_vmcall = exit_stats_default, st_apic_access = exit_stats_default, st_mtf = exit_stats_default, st_xsetbv = exit_stats_default, st_rdrand = exit_stats_default, st_rdseed = exit_stats_default, st_exception_nmi = exit_stats_default, st_other = exit_stats_default,
      total_run_cycles = 0, guest_cycles = 0, vmentry_overhead_cycles = 0, vmexit_overhead_cycles = 0, irq_window_cycles = 0, st_cow = cow_stats_default,
      pebs_margin_steps = 0, pebs_arm_below_min_delta = 0, pebs_arm_already_past = 0, pebs_armed_iter_no_fire = 0, apic_timer_late_inject = 0, max_pebs_skid = 0\<rparr>"

definition all_exit_stats_record :: "exit_reason \<Rightarrow> u64 \<Rightarrow> all_exit_stats \<Rightarrow> all_exit_stats" where
  "all_exit_stats_record reason cycles s =
     (if reason = ExitReason_Cpuid then s\<lparr>st_cpuid := exit_stats_record cycles (st_cpuid s)\<rparr>
      else if reason = ExitReason_MsrRead then s\<lparr>st_msr_read := exit_stats_record cycles (st_msr_read s)\<rparr>
      else if reason = ExitReason_MsrWrite then s\<lparr>st_msr_write := exit_stats_record cycles (st_msr_write s)\<rparr>
      else if reason = ExitReason_CrAccess then s\<lparr>st_cr_access := exit_stats_record cycles (st_cr_access s)\<rparr>
      else if reason = ExitReason_IoInstruction then s\<lparr>st_io_instruction := exit_stats_record cycles (st_io_instruction s)\<rparr>
      else if reason = ExitReason_EptViolation then s\<lparr>st_ept_violation := exit_stats_record cycles (st_ept_violation s)\<rparr>
      else if reason = ExitReason_ExternalInterrupt then s\<lparr>st_external_interrupt := exit_stats_record cycles (st_external_interrupt s)\<rparr>
      else if reason = ExitReason_Rdtsc then s\<lparr>st_rdtsc := exit_stats_record cycles (st_rdtsc s)\<rparr>
      else if reason = ExitReason_Rdtscp then s\<lparr>st_rdtscp := exit_stats_record cycles (st_rdtscp s)\<rparr>
      else if reason = ExitReason_Rdpmc then s\<lparr>st_rdpmc := exit_stats_record cycles (st_rdpmc s)\<rparr>
      else if reason = ExitReason_Mwait then s\<lparr>st_mwait := exit_stats_record cycles (st_mwait s)\<rparr>
      else if reason = ExitReason_Vmcall \<or> reason = ExitReason_VmcallShutdown then s\<lparr>st_vmcall := exit_stats_record cycles (st_vmcall s)\<rparr>
      else if reason = ExitReason_ApicAccess \<or> reason = ExitReason_ApicWrite then s\<lparr>st_apic_access := exit_stats_record cycles (st_apic_access s)\<rparr>
      else if reason = ExitReason_MonitorTrapFlag then s\<lparr>st_mtf := exit_stats_record cycles (st_mtf s)\<rparr>
      else if reason = ExitReason_Xsetbv then s\<lparr>st_xsetbv := exit_stats_record cycles (st_xsetbv s)\<rparr>
      else if reason = ExitReason_Rdrand then s\<lparr>st_rdrand := exit_stats_record cycles (st_rdrand s)\<rparr>
      else if reason = ExitReason_Rdseed then s\<lparr>st_rdseed := exit_stats_record cycles (st_rdseed s)\<rparr>
      else if reason = ExitReason_ExceptionNmi then s\<lparr>st_exception_nmi := exit_stats_record cycles (st_exception_nmi s)\<rparr>
      else s\<lparr>st_other := exit_stats_record cycles (st_other s)\<rparr>)"

definition total_exit_count :: "all_exit_stats \<Rightarrow> u64" where
  "total_exit_count s =
      x_count (st_cpuid s)
      + x_count (st_msr_read s)
      + x_count (st_msr_write s)
      + x_count (st_cr_access s)
      + x_count (st_io_instruction s)
      + x_count (st_ept_violation s)
      + x_count (st_external_interrupt s)
      + x_count (st_rdtsc s)
      + x_count (st_rdtscp s)
      + x_count (st_rdpmc s)
      + x_count (st_mwait s)
      + x_count (st_vmcall s)
      + x_count (st_apic_access s)
      + x_count (st_mtf s)
      + x_count (st_xsetbv s)
      + x_count (st_rdrand s)
      + x_count (st_rdseed s)
      + x_count (st_exception_nmi s)
      + x_count (st_other s)"

definition total_exit_cycles :: "all_exit_stats \<Rightarrow> u64" where
  "total_exit_cycles s =
      x_cycles (st_cpuid s)
      + x_cycles (st_msr_read s)
      + x_cycles (st_msr_write s)
      + x_cycles (st_cr_access s)
      + x_cycles (st_io_instruction s)
      + x_cycles (st_ept_violation s)
      + x_cycles (st_external_interrupt s)
      + x_cycles (st_rdtsc s)
      + x_cycles (st_rdtscp s)
      + x_cycles (st_rdpmc s)
      + x_cycles (st_mwait s)
      + x_cycles (st_vmcall s)
      + x_cycles (st_apic_access s)
      + x_cycles (st_mtf s)
      + x_cycles (st_xsetbv s)
      + x_cycles (st_rdrand s)
      + x_cycles (st_rdseed s)
      + x_cycles (st_exception_nmi s)
      + x_cycles (st_other s)"

definition all_exit_stats_reset :: "all_exit_stats \<Rightarrow> all_exit_stats" where
  "all_exit_stats_reset s = all_exit_stats_default"

text \<open>Whatever the reason, recording an exit counts it in exactly one place: the totals
  grow by one exit and by its cycles.\<close>

lemma total_exit_count_record: "total_exit_count (all_exit_stats_record reason cycles s) = total_exit_count s + 1"
  unfolding all_exit_stats_record_def
  by (split if_split, intro conjI impI | (simp add: total_exit_count_def exit_stats_record_def; fail))+

lemma total_exit_cycles_record: "total_exit_cycles (all_exit_stats_record reason cycles s) = total_exit_cycles s + cycles"
  unfolding all_exit_stats_record_def
  by (split if_split, intro conjI impI | (simp add: total_exit_cycles_def exit_stats_record_def; fail))+

end
