(* ===== verification/Pebs.thy ===== *)
theory Pebs
  imports Exit_Types Vmx_Regs
begin

text \<open>
  Precise exits (\<open>bedrock-vmx/src/exits/pebs.rs\<close>): the per-VM state, the margin
  chosen for the host processor, arming the counter for a target time, and the layout
  of the debug-store area. The parts that touch the whole VM state follow in
  \<open>Precise\<close>.
\<close>

definition PEBS_BUFFER_OFFSET :: u64 where "PEBS_BUFFER_OFFSET = 0x100"
definition PEBS_BUFFER_SIZE :: u64 where "PEBS_BUFFER_SIZE = 0x800"
definition GUEST_LINUX_PAGE_OFFSET :: u64 where "GUEST_LINUX_PAGE_OFFSET = 0xffff888000000000"
definition FIXED_CTR_CTRL_FC0_OS_USR :: u64 where "FIXED_CTR_CTRL_FC0_OS_USR = 3"
definition PERF_GLOBAL_CTRL_FIXED_CTR0 :: u64 where "PERF_GLOBAL_CTRL_FIXED_CTR0 = push_bit 32 1"
definition PMC_COUNTER_MASK :: u64 where "PMC_COUNTER_MASK = push_bit 48 1 - 1"
definition PEBS_MIN_DELTA :: u64 where "PEBS_MIN_DELTA = 257"

record ds_management_area =
  bts_buffer_base :: u64
  bts_index :: u64
  bts_absolute_maximum :: u64
  bts_interrupt_threshold :: u64
  pebs_buffer_base :: u64
  pebs_index :: u64
  pebs_absolute_maximum :: u64
  pebs_interrupt_threshold :: u64
  pebs_gp_counter_reset :: "u64 list"
  pebs_fixed_counter_reset :: "u64 list"

definition build_ds_management_area :: "u64 \<Rightarrow> ds_management_area" where
  "build_ds_management_area page_va =
     (let buffer_base = page_va + PEBS_BUFFER_OFFSET;
          buffer_max = buffer_base + PEBS_BUFFER_SIZE
      in \<lparr>bts_buffer_base = 0, bts_index = 0, bts_absolute_maximum = 0, bts_interrupt_threshold = 0,
          pebs_buffer_base = buffer_base, pebs_index = buffer_base, pebs_absolute_maximum = buffer_max,
          pebs_interrupt_threshold = buffer_base,
          pebs_gp_counter_reset = replicate 8 0, pebs_fixed_counter_reset = replicate 4 0\<rparr>)"

definition ds_management_area_bytes :: "ds_management_area \<Rightarrow> bytes" where
  "ds_management_area_bytes a =
     concat (map (to_le 8)
       ([bts_buffer_base a, bts_index a, bts_absolute_maximum a, bts_interrupt_threshold a,
         pebs_buffer_base a, pebs_index a, pebs_absolute_maximum a, pebs_interrupt_threshold a]
        @ pebs_gp_counter_reset a @ pebs_fixed_counter_reset a))"

datatype pebs_action = InjectInterrupt u8

record pebs_host_msrs =
  hm_pebs_enable :: u64
  hm_ds_area :: u64
  hm_fixed_ctr_ctrl :: u64
  hm_fixed_ctr0 :: u64
  hm_pebs_data_cfg :: u64

definition pebs_host_msrs_default :: pebs_host_msrs where
  "pebs_host_msrs_default =
     \<lparr>hm_pebs_enable = 0, hm_ds_area = 0, hm_fixed_ctr_ctrl = 0, hm_fixed_ctr0 = 0, hm_pebs_data_cfg = 0\<rparr>"

record pebs_state =
  ds_management_gpa :: u64
  pebs_buffer_gpa :: u64
  ds_area_va :: u64
  armed_action :: "pebs_action option"
  armed_target_tsc :: u64
  armed_inst_count :: u64
  armed_tsc_offset :: u64
  iters_since_arm :: u32
  counter_reload :: u64
  fixed_ctr_ctrl :: u64
  pebs_enable :: u64
  pebs_data_cfg :: u64
  host_msrs :: pebs_host_msrs
  logged_first_arm :: bool

definition pebs_state_new :: "u64 \<Rightarrow> u64 \<Rightarrow> pebs_state" where
  "pebs_state_new gpa_page kernel_va =
     \<lparr>ds_management_gpa = gpa_page, pebs_buffer_gpa = gpa_page, ds_area_va = kernel_va,
      armed_action = None, armed_target_tsc = 0, armed_inst_count = 0, armed_tsc_offset = 0, iters_since_arm = 0,
      counter_reload = 0, fixed_ctr_ctrl = FIXED_CTR_CTRL_FC0_OS_USR, pebs_enable = push_bit 32 1, pebs_data_cfg = 0,
      host_msrs = pebs_host_msrs_default, logged_first_arm = False\<rparr>"

definition pebs_clone_for_fork :: "pebs_state \<Rightarrow> pebs_state" where
  "pebs_clone_for_fork p =
     \<lparr>ds_management_gpa = ds_management_gpa p, pebs_buffer_gpa = pebs_buffer_gpa p, ds_area_va = ds_area_va p,
      armed_action = None, armed_target_tsc = 0, armed_inst_count = 0, armed_tsc_offset = 0, iters_since_arm = 0,
      counter_reload = 0, fixed_ctr_ctrl = fixed_ctr_ctrl p, pebs_enable = pebs_enable p,
      pebs_data_cfg = pebs_data_cfg p, host_msrs = pebs_host_msrs_default, logged_first_arm = False\<rparr>"

text \<open>The margin depends on the family and model that CPUID leaf 1 reports in \<open>eax\<close>.
  The cache of \<open>get_pebs_margin\<close> holds the value of the first call, which is the same
  for every call.\<close>

definition host_family_model :: "u32 \<Rightarrow> u32 \<times> u32" where
  "host_family_model eax =
     (let base_model = drop_bit 4 eax AND 0xF;
          base_family = drop_bit 8 eax AND 0xF;
          ext_model = drop_bit 16 eax AND 0xF;
          ext_family = drop_bit 20 eax AND 0xFF;
          model = (if base_family = 0x6 \<or> base_family = 0xF then push_bit 4 ext_model OR base_model else base_model);
          family = (if base_family = 0xF then base_family + ext_family else base_family)
      in (family, model))"

definition margin_for_host_cpu :: "u32 \<Rightarrow> u64" where
  "margin_for_host_cpu eax =
     (let (family, model) = host_family_model eax
      in if family = 0x6 \<and> model = 0x8F then 3
         else if family = 0x6 \<and> model = 0x6A then 8
         else 8)"

definition get_pebs_margin :: "u32 \<Rightarrow> u64 \<Rightarrow> u64 \<times> u64" where
  "get_pebs_margin eax cached =
     (if cached \<noteq> - 1 then (cached, cached)
      else let margin = margin_for_host_cpu eax in (margin, margin))"

datatype arm_result = Armed | AlreadyPast | BelowMinDelta | NotRegistered

definition arm_precise_exit ::
  "u64 \<Rightarrow> u64 \<Rightarrow> u64 \<Rightarrow> pebs_action \<Rightarrow> u64 \<Rightarrow> u64 \<Rightarrow> pebs_state \<Rightarrow> arm_result \<times> pebs_state" where
  "arm_precise_exit pebs_margin current_tsc target_tsc action inst_count_now tsc_offset_now p =
     (if target_tsc < current_tsc then (AlreadyPast, p)
      else
        let delta = target_tsc - current_tsc
        in if delta < PEBS_MIN_DELTA + pebs_margin then (BelowMinDelta, p)
           else
             let encoded_delta = delta - pebs_margin
             in (Armed, p\<lparr>counter_reload := (- encoded_delta) AND PMC_COUNTER_MASK,
                          armed_target_tsc := target_tsc - pebs_margin, armed_inst_count := inst_count_now,
                          armed_tsc_offset := tsc_offset_now, iters_since_arm := 0, armed_action := Some action,
                          logged_first_arm := True\<rparr>))"

definition disarm_precise_exit :: "pebs_state \<Rightarrow> pebs_state" where
  "disarm_precise_exit p = p\<lparr>armed_action := None\<rparr>"

definition is_pebs_induced :: "ept_violation_qualification \<Rightarrow> bool" where
  "is_pebs_induced q \<longleftrightarrow> asynchronous q \<and> q_write q"

text \<open>The result codes of the registration hypercall.\<close>

datatype register_pebs_page_result =
  PebsSuccess | PebsUnsupported | PebsMisaligned | PebsUntranslatable | PebsNotEptMapped | PebsAlreadyRegistered

primrec register_pebs_page_code :: "register_pebs_page_result \<Rightarrow> u64" where
  "register_pebs_page_code PebsSuccess = 0"
| "register_pebs_page_code PebsUnsupported = - 1"
| "register_pebs_page_code PebsMisaligned = - 1 - 1"
| "register_pebs_page_code PebsUntranslatable = - 1 - 2"
| "register_pebs_page_code PebsNotEptMapped = - 1 - 3"
| "register_pebs_page_code PebsAlreadyRegistered = - 1 - 4"

section \<open>When the counter overflows\<close>

text \<open>The counter is 48 bits wide and counts retired instructions: it overflows after the
  first positive number of instructions that brings it back to 0.\<close>

definition overflows_after :: "u64 \<Rightarrow> nat \<Rightarrow> bool" where
  "overflows_after reload n \<longleftrightarrow>
     0 < n \<and> (unat reload + n) mod 2 ^ 48 = 0 \<and> (\<forall>k. 0 < k \<and> k < n \<longrightarrow> (unat reload + k) mod 2 ^ 48 \<noteq> 0)"

lemma margin_small: "margin_for_host_cpu eax = 3 \<or> margin_for_host_cpu eax = 8"
  by (simp add: margin_for_host_cpu_def split_beta Let_def)

lemma counter_mask: "x AND PMC_COUNTER_MASK = take_bit 48 x"
  by (simp add: PMC_COUNTER_MASK_def take_bit_eq_mask mask_eq_exp_minus_1)

lemma neg_mod_nat: "(- int n) mod 2 ^ 48 = int ((2 ^ 48 - n mod 2 ^ 48) mod 2 ^ 48)"
proof -
  have "(- int n) mod 2 ^ 48 = (2 ^ 48 - int n mod 2 ^ 48) mod 2 ^ 48"
    using mod_diff_right_eq [of "2 ^ 48" "int n" "2 ^ 48"] by simp
  also have "\<dots> = int ((2 ^ 48 - n mod 2 ^ 48) mod 2 ^ 48)" by (simp add: zmod_int of_nat_diff)
  finally show ?thesis .
qed

lemma unat_reload: "unat ((- w :: u64) AND PMC_COUNTER_MASK) = (2 ^ 48 - unat w mod 2 ^ 48) mod 2 ^ 48"
proof -
  have "(- w) AND PMC_COUNTER_MASK = take_bit 48 (- w)" by (rule counter_mask)
  also have "uint (take_bit 48 (- w)) = take_bit 48 ((- uint w) mod 2 ^ 64)"
    by (simp add: unsigned_take_bit_eq uint_word_ariths)
  also have "\<dots> = (- uint w) mod 2 ^ 48" by (simp add: take_bit_eq_mod mod_mod_cancel)
  finally have "int (unat ((- w) AND PMC_COUNTER_MASK)) = (- int (unat w)) mod 2 ^ 48" by simp
  also have "\<dots> = int ((2 ^ 48 - unat w mod 2 ^ 48) mod 2 ^ 48)" by (rule neg_mod_nat)
  finally show ?thesis by linarith
qed

lemma overflows_reload:
  assumes "0 < unat w"
  shows "overflows_after ((- w) AND PMC_COUNTER_MASK) ((unat w - 1) mod 2 ^ 48 + 1)"
proof -
  define r where "r = unat w mod 2 ^ 48"
  have r: "r < 2 ^ 48" by (simp add: r_def)
  have n: "(unat w - 1) mod 2 ^ 48 + 1 = (if r = 0 then 2 ^ 48 else r)"
  proof (cases "r = 0")
    case True
    then have "2 ^ 48 dvd unat w" unfolding r_def by (rule dvd_eq_mod_eq_0 [THEN iffD2])
    then obtain q where q: "unat w = 2 ^ 48 * q" by (rule dvdE)
    then obtain q' where "q = Suc q'" using assms by (cases q) auto
    then have "unat w - 1 = (2 ^ 48 - 1) + q' * 2 ^ 48" using q by simp
    then have "(unat w - 1) mod 2 ^ 48 = (2 ^ 48 - 1 :: nat)" by (simp only: mod_mult_self1) simp
    then show ?thesis using True by simp
  next
    case False
    have "unat w - 1 = (r - 1) + (unat w div 2 ^ 48) * 2 ^ 48"
      using False div_mult_mod_eq [of "unat w" "2 ^ 48"] by (simp add: r_def)
    then have "(unat w - 1) mod 2 ^ 48 = r - 1" using r by (simp only: mod_mult_self1) simp
    then show ?thesis using False by simp
  qed
  have u: "unat ((- w) AND PMC_COUNTER_MASK) = (if r = 0 then 0 else 2 ^ 48 - r)"
    unfolding unat_reload r_def [symmetric] using r by simp
  show ?thesis
    unfolding overflows_after_def n u using r by (auto simp: mod_eq_0_iff_dvd dest: dvd_imp_le)
qed

text \<open>C30. Arming a precise exit sets the counter so that it overflows the margin of
  instructions before the target, at least 257 instructions ahead; when the
  distance does not fit into the 48 bits of the counter it overflows earlier, but
  never later.\<close>

theorem pebs_fires_before_target:
  assumes "arm_precise_exit (margin_for_host_cpu eax) current target action inst offset p = (Armed, p')"
  defines "m \<equiv> unat (margin_for_host_cpu eax)"
  defines "d \<equiv> unat target - unat current - m"
  shows "257 \<le> d \<and> unat current + d + m = unat target \<and> unat (armed_target_tsc p') = unat current + d
         \<and> (d \<le> 2 ^ 48 \<longrightarrow> overflows_after (counter_reload p') d)
         \<and> (\<exists>n \<le> d. overflows_after (counter_reload p') n)"
proof -
  have m: "m = 3 \<or> m = 8" using margin_small [of eax] by (auto simp: m_def)
  have le: "current \<le> target" and far: "\<not> target - current < PEBS_MIN_DELTA + margin_for_host_cpu eax"
    and p': "p' = p\<lparr>counter_reload := (- (target - current - margin_for_host_cpu eax)) AND PMC_COUNTER_MASK,
       armed_target_tsc := target - margin_for_host_cpu eax, armed_inst_count := inst,
       armed_tsc_offset := offset, iters_since_arm := 0, armed_action := Some action, logged_first_arm := True\<rparr>"
    using assms(1) by (auto simp: arm_precise_exit_def Let_def split: if_splits)
  have delta: "unat (target - current) = unat target - unat current" using le by (simp add: unat_sub_if' word_le_nat_alt)
  have "unat (PEBS_MIN_DELTA + margin_for_host_cpu eax) = 257 + m"
    using margin_small [of eax] by (auto simp: PEBS_MIN_DELTA_def m_def)
  then have d: "257 + m \<le> unat target - unat current" using far delta by (simp add: word_less_nat_alt)
  have enc: "unat (target - current - margin_for_host_cpu eax) = d"
    using d delta by (simp add: d_def m_def unat_sub_if')
  have tgt: "unat (target - margin_for_host_cpu eax) = unat current + d"
    using d by (simp add: d_def m_def unat_sub_if')
  have "overflows_after (counter_reload p') ((d - 1) mod 2 ^ 48 + 1)"
    using overflows_reload [of "target - current - margin_for_host_cpu eax"] d enc by (simp add: p' d_def)
  moreover have "(d - 1) mod 2 ^ 48 + 1 = d" if "d \<le> 2 ^ 48" using that d d_def by (simp add: mod_less)
  moreover have "(d - 1) mod 2 ^ 48 + 1 \<le> d" using d d_def mod_less_eq_dividend [of "d - 1" "2 ^ 48"] by linarith
  ultimately show ?thesis using d tgt by (auto simp: p' d_def)
qed

definition w_pebs :: pebs_state where
  "w_pebs = pebs_state_new 0x1000 0x2000"

theorem pebs_fires_before_target_witness:
  "\<exists>p'. arm_precise_exit (margin_for_host_cpu 0x806F8) 1000 2000 (InjectInterrupt 236) 1000 0 w_pebs = (Armed, p')
     \<and> overflows_after (counter_reload p') 997"
proof -
  have m: "margin_for_host_cpu 0x806F8 = 3" by (simp add: margin_for_host_cpu_def host_family_model_def Let_def)
  obtain p' where p': "arm_precise_exit (margin_for_host_cpu 0x806F8) 1000 2000 (InjectInterrupt 236) 1000 0 w_pebs = (Armed, p')"
    by (simp add: m arm_precise_exit_def PEBS_MIN_DELTA_def Let_def)
  show ?thesis using pebs_fires_before_target [OF p'] p' by (simp add: m)
qed

end
