(* ===== verification/Vm_State.thy ===== *)
theory Vm_State
  imports Events Devices Vmcs Exit_Stats Pebs
begin

text \<open>
  The state of one VM (\<open>VmState\<close> of \<open>bedrock-vmx/src/vm_state.rs\<close>): its record, which
  extends the fields of the event stream, its two constructors, the MSR bitmap, and
  the capture of exit records. The extended page table is represented by its root
  pointer (its contents are the subject of \<open>Ept\<close>); the hash function of the kernel
  is an argument.
\<close>

section \<open>Parts of the state\<close>

definition FEEDBACK_BUFFER_MAX_PAGES :: nat where "FEEDBACK_BUFFER_MAX_PAGES = 256"
definition FEEDBACK_BUFFER_SLOT_SIZE :: u64 where "FEEDBACK_BUFFER_SLOT_SIZE = of_nat FEEDBACK_BUFFER_MAX_PAGES * 4096"
definition EVENT_BUFFER_MMAP_OFFSET :: u64 where "EVENT_BUFFER_MMAP_OFFSET = push_bit 46 1"
definition FEEDBACK_BUFFER_ID_MAX_LEN :: nat where "FEEDBACK_BUFFER_ID_MAX_LEN = 128"

record feedback_buffer_info =
  fbi_gva :: u64
  fbi_size :: u64
  fbi_num_pages :: nat
  fbi_gpas :: "u64 list"
  fbi_id :: bytes
  fbi_id_len :: u32

definition feedback_buffer_default :: feedback_buffer_info where
  "feedback_buffer_default = \<lparr>fbi_gva = 0, fbi_size = 0, fbi_num_pages = 0, fbi_gpas = replicate FEEDBACK_BUFFER_MAX_PAGES 0,
     fbi_id = replicate FEEDBACK_BUFFER_ID_MAX_LEN 0, fbi_id_len = 0\<rparr>"

definition fb_id_bytes :: "feedback_buffer_info \<Rightarrow> bytes" where
  "fb_id_bytes fb = take (unat (fbi_id_len fb)) (fbi_id fb)"

datatype exit_trigger =
  Trigger_Disabled | Trigger_AllExits | Trigger_AtTsc | Trigger_AtShutdown | Trigger_Checkpoints | Trigger_TscRange

definition EXIT_REASON_CHECKPOINT :: u32 where "EXIT_REASON_CHECKPOINT = 0xFFFFFFFF"
definition PAT_DEFAULT :: u64 where "PAT_DEFAULT = 0x0007040600070406"
definition DEFAULT_TSC_FREQUENCY :: u64 where "DEFAULT_TSC_FREQUENCY = 2995200000"
definition XCR0_SSE_AVX :: u64 where "XCR0_SSE_AVX = push_bit 0 1 OR push_bit 1 1 OR push_bit 2 1"

record guest_msr_state =
  msr_pat :: u64
  msr_tsc_aux :: u64
  msr_syscall :: syscall_msrs

definition guest_msr_state_new :: guest_msr_state where
  "guest_msr_state_new = \<lparr>msr_pat = 0x0007040600070406, msr_tsc_aux = 0, msr_syscall = syscall_msrs_default\<rparr>"

text \<open>The entry list that loads the counters, in the order the processor loads it.\<close>

definition PEBS_ENTRY_MSR_INDEXES :: "u32 list" where
  "PEBS_ENTRY_MSR_INDEXES =
     [IA32_A_PMC0, IA32_PERF_GLOBAL_CTRL, IA32_FIXED_CTR0, IA32_FIXED_CTR_CTRL, MSR_PEBS_DATA_CFG, IA32_DS_AREA,
      IA32_PERF_GLOBAL_STATUS_RESET, IA32_PEBS_ENABLE, IA32_PERF_GLOBAL_CTRL]"

definition init_pebs_entry_msr_indexes :: "(u32 \<times> u64) list" where
  "init_pebs_entry_msr_indexes = map (\<lambda>i. (i, 0)) PEBS_ENTRY_MSR_INDEXES"

record vm_state = event_state +
  vs_vmcs :: vmcs
  vs_gprs :: gprs
  vs_eptp :: u64
  vs_launched :: bool
  guest_cr2 :: u64
  msr_bitmap :: bytes
  msr_bitmap_addr :: u64
  pebs_exit_msr_load :: "(u32 \<times> u64) list"
  pebs_exit_msr_load_addr :: u64
  pebs_entry_msr_load :: "(u32 \<times> u64) list"
  pebs_entry_msr_load_addr :: u64
  guest_xsave :: bytes
  xcr0_mask :: u64
  last_exit_qualification :: u64
  last_guest_physical_addr :: u64
  vs_devices :: device_states
  vs_host :: host_state
  msr_state :: guest_msr_state
  kernel_gs_base :: u64
  last_instruction_count :: u64
  tsc_offset :: u64
  tsc_frequency :: u64
  exit_trigger :: exit_trigger
  exit_target_tsc :: u64
  exit_start_tsc :: u64
  exit_captured :: bool
  skip_memory_hash :: bool
  single_step_tsc_range :: "(u64 \<times> u64) option"
  mtf_enabled :: bool
  stop_at_tsc :: "u64 option"
  vs_stats :: all_exit_stats
  last_checkpoint_idx :: u64
  last_exit_deterministic :: bool
  last_pebs_skid :: u64
  last_pebs_inst_delta :: u64
  last_pebs_tsc_offset_delta :: u64
  last_pebs_iters_since_arm :: u32
  last_pebs_arm_delta :: u64
  feedback_buffers :: "feedback_buffer_info list"
  vs_vpid :: u16
  intercept_pf :: bool
  vs_pebs :: "pebs_state option"
  pebs_supported :: bool
  last_cpu :: "u32 option"

section \<open>MSR bitmap\<close>

definition msr_bitmap_slot :: "u32 \<Rightarrow> (nat \<times> nat \<times> nat) option" where
  "msr_bitmap_slot msr =
     (if msr < 0x2000 then Some (0, 2048, unat msr)
      else if 0xC0000000 \<le> msr \<and> msr < 0xC0002000 then Some (1024, 3072, unat (msr - 0xC0000000))
      else None)"

definition msr_bitmap_clear_intercept :: "u32 \<Rightarrow> bytes \<Rightarrow> bytes" where
  "msr_bitmap_clear_intercept msr bitmap =
     (case msr_bitmap_slot msr of
        None \<Rightarrow> bitmap
      | Some (read_base, write_base, index) \<Rightarrow>
          let byte_offset = index div 8;
              bit_mask = NOT (push_bit (index mod 8) 1);
              r = read_base + byte_offset;
              bitmap = bitmap[r := bitmap ! r AND bit_mask];
              w = write_base + byte_offset
          in bitmap[w := bitmap ! w AND bit_mask])"

definition PASSTHROUGH_MSRS :: "u32 list" where
  "PASSTHROUGH_MSRS =
     [IA32_FS_BASE, IA32_GS_BASE, IA32_KERNEL_GS_BASE, IA32_EFER, IA32_STAR, IA32_LSTAR, IA32_CSTAR, IA32_FMASK,
      IA32_SYSENTER_CS, IA32_SYSENTER_ESP, IA32_SYSENTER_EIP]"

definition msr_bitmap_new :: bytes where
  "msr_bitmap_new = fold msr_bitmap_clear_intercept PASSTHROUGH_MSRS (replicate 4096 0xFF)"

section \<open>Creating a VM\<close>

datatype vm_state_error =
  MsrBitmapAlloc | PebsExitMsrLoadAlloc | XsavePageAlloc | VmcsSetup vmcs_setup_error | GuestStateCopy | InveptFailed

definition guest_xsave_new :: bytes where
  "guest_xsave_new =
     patch 512 (to_le 8 XCR0_SSE_AVX)
       (patch 24 (to_le 4 (0x1F80 :: u32)) (patch 0 (to_le 2 (0x037F :: u16)) (replicate 4096 0)))"

definition pebs_supported_by :: "u64 option \<Rightarrow> bool" where
  "pebs_supported_by perf_capabilities =
     (case perf_capabilities of
        None \<Rightarrow> False
      | Some v \<Rightarrow> drop_bit 14 v AND 1 \<noteq> 0 \<and> 4 \<le> drop_bit 8 v AND 0xF)"

text \<open>\<open>new\<close>. \<open>alloc i\<close> is the address of the \<open>i\<close>-th page the kernel returns, \<open>None\<close> when
  the allocation fails; \<open>vpid\<close> is the identifier that the set-up allocates; the
  booleans are the outcomes of the VMX instructions.\<close>

definition vm_state_new ::
  "(nat \<Rightarrow> u64 option) \<Rightarrow> bool \<Rightarrow> bool \<Rightarrow> bool \<Rightarrow> bool \<Rightarrow> cpu_access \<Rightarrow> vmx_capabilities \<Rightarrow> u16 \<Rightarrow> u64 \<Rightarrow> u64 \<Rightarrow> u64 \<Rightarrow> vmcs
   \<Rightarrow> vm_state_error + vm_state" where
  "vm_state_new alloc clear_ok load_ok drop_ok invept_ok cpu caps vpid eptp exit_handler_rip frequency v =
     (case alloc 0 of None \<Rightarrow> Inl MsrBitmapAlloc | Some bitmap_addr \<Rightarrow>
      (case alloc 1 of None \<Rightarrow> Inl PebsExitMsrLoadAlloc | Some exit_addr \<Rightarrow>
       (case alloc 2 of None \<Rightarrow> Inl PebsExitMsrLoadAlloc | Some entry_addr \<Rightarrow>
        (case alloc 3 of None \<Rightarrow> Inl XsavePageAlloc | Some _ \<Rightarrow>
         (case alloc 4 of None \<Rightarrow> Inl XsavePageAlloc | Some _ \<Rightarrow>
          let host = host_state_capture cpu exit_handler_rip 0
          in case vm_new_vpid clear_ok load_ok drop_ok eptp (Some bitmap_addr) host caps vpid v of
               (Inl e, _) \<Rightarrow> Inl (VmcsSetup e)
             | (Inr recorded_vpid, v) \<Rightarrow>
                 if \<not> invept_ok then Inl InveptFailed
                 else Inr
                   \<lparr>emulated_tsc = 0, event_buffer = None, event_len = 0, event_seq = 0, event_categories = 0,
                    event_pending = None, event_pending_buf = replicate IO_CHANNEL_BUF_SIZE 0, event_pending_len = 0,
                    event_pending_flags = 0, event_pending_tsc = 0, event_pending_real_tsc = 0, pending_exit_loc = None,
                    serial_line_buf = replicate SERIAL_LINE_ACC_SIZE 0, serial_line_len = 0, serial_line_tsc = 0,
                    serial_line_real_tsc = 0, serial_console = serial_console_new, io_channel = io_channel_new,
                    vs_vmcs = v, vs_gprs = gprs_default, vs_eptp = eptp, vs_launched = False, guest_cr2 = 0,
                    msr_bitmap = msr_bitmap_new, msr_bitmap_addr = bitmap_addr,
                    pebs_exit_msr_load = [(IA32_PEBS_ENABLE, 0)], pebs_exit_msr_load_addr = exit_addr,
                    pebs_entry_msr_load = init_pebs_entry_msr_indexes, pebs_entry_msr_load_addr = entry_addr,
                    guest_xsave = guest_xsave_new, xcr0_mask = XCR0_SSE_AVX,
                    last_exit_qualification = 0, last_guest_physical_addr = 0,
                    vs_devices = device_states_new, vs_host = host, msr_state = guest_msr_state_new, kernel_gs_base = 0,
                    last_instruction_count = 0, tsc_offset = 0, tsc_frequency = frequency,
                    exit_trigger = Trigger_Disabled, exit_target_tsc = 0, exit_start_tsc = 0, exit_captured = False,
                    skip_memory_hash = False, single_step_tsc_range = None, mtf_enabled = False, stop_at_tsc = None,
                    vs_stats = all_exit_stats_default, last_checkpoint_idx = 0, last_exit_deterministic = True,
                    last_pebs_skid = 0, last_pebs_inst_delta = 0, last_pebs_tsc_offset_delta = 0,
                    last_pebs_iters_since_arm = 0, last_pebs_arm_delta = 0, feedback_buffers = [],
                    vs_vpid = recorded_vpid, intercept_pf = False, vs_pebs = None,
                    pebs_supported = pebs_supported_by (read_msr cpu IA32_PERF_CAPABILITIES), last_cpu = None\<rparr>)))))"

section \<open>Forking a VM\<close>

text \<open>The outcomes of the instructions of \<open>new_for_fork\<close>.\<close>

record fork_env =
  fe_parent_clear :: bool
  fe_load :: bool
  fe_vpid :: u16
  fe_invept :: bool
  fe_clear :: bool

text \<open>The writes that make the copied structure the child's own.\<close>

definition fork_fields :: "u64 \<Rightarrow> u64 \<Rightarrow> u64 \<Rightarrow> bool \<Rightarrow> (u32 \<times> u64) list" where
  "fork_fields eptp bitmap_addr exit_addr pebs_registered =
     [(EptPointer, eptp), (MsrBitmapAddr, bitmap_addr), (VmxPreemptionTimerValue, 0x100000)]
     @ (if pebs_registered then [(VmExitMsrLoadAddr, exit_addr), (VmExitMsrLoadCount, 1)] else [])"

text \<open>The part of \<open>new_for_fork\<close> that copies the control structure: the result, the
  parent's structure and the child's.\<close>

definition fork_vmcs ::
  "fork_env \<Rightarrow> u64 \<Rightarrow> u64 \<Rightarrow> u64 \<Rightarrow> bool \<Rightarrow> vmcs \<Rightarrow> vmcs \<Rightarrow> (vm_state_error + u16) \<times> vmcs \<times> vmcs" where
  "fork_vmcs env eptp bitmap_addr exit_addr pebs_registered parent child =
     (case vmcs_clear (fe_parent_clear env) parent of
        (Inl _, parent) \<Rightarrow> (Inl GuestStateCopy, parent, child)
      | (Inr _, parent) \<Rightarrow>
          let child = child\<lparr>vmcs_fields := vmcs_fields parent\<rparr>
          in case vmcs_load (fe_load env) child of
               (Inl _, child) \<Rightarrow> (Inl GuestStateCopy, parent, child)
             | (Inr _, child) \<Rightarrow>
                 (case write_fields (fork_fields eptp bitmap_addr exit_addr pebs_registered) child of
                    (Inl _, child) \<Rightarrow> (Inl GuestStateCopy, parent, child)
                  | (Inr _, child) \<Rightarrow>
                      let exec2 = (case read32 SecondaryProcBasedVmExecControls child of Inl _ \<Rightarrow> 0 | Inr x \<Rightarrow> x);
                          (r, child) = (if exec2 AND secondary_exec_ENABLE_VPID \<noteq> 0
                                        then (case write16 VirtualProcessorId (fe_vpid env) child of
                                                (Inl _, child) \<Rightarrow> (Inl GuestStateCopy, child)
                                              | (Inr _, child) \<Rightarrow> (Inr (fe_vpid env), child))
                                        else (Inr 0, child))
                      in case r of
                           Inl e \<Rightarrow> (Inl e, parent, child)
                         | Inr vpid \<Rightarrow>
                             if \<not> fe_invept env then (Inl InveptFailed, parent, child)
                             else (case vmcs_clear (fe_clear env) child of
                                     (Inl _, child) \<Rightarrow> (Inl GuestStateCopy, parent, child)
                                   | (Inr _, child) \<Rightarrow> (Inr vpid, parent, child))))"

definition vm_state_new_for_fork ::
  "(nat \<Rightarrow> u64 option) \<Rightarrow> fork_env \<Rightarrow> u64 \<Rightarrow> vmcs \<Rightarrow> vm_state \<Rightarrow> (vm_state_error + vm_state) \<times> vm_state" where
  "vm_state_new_for_fork alloc env eptp child parent =
     (case alloc 0 of None \<Rightarrow> (Inl MsrBitmapAlloc, parent) | Some bitmap_addr \<Rightarrow>
      (case alloc 1 of None \<Rightarrow> (Inl PebsExitMsrLoadAlloc, parent) | Some exit_addr \<Rightarrow>
       (case alloc 2 of None \<Rightarrow> (Inl PebsExitMsrLoadAlloc, parent) | Some entry_addr \<Rightarrow>
        (case alloc 3 of None \<Rightarrow> (Inl XsavePageAlloc, parent) | Some _ \<Rightarrow>
         (case alloc 4 of None \<Rightarrow> (Inl XsavePageAlloc, parent) | Some _ \<Rightarrow>
          (case fork_vmcs env eptp bitmap_addr exit_addr (vs_pebs parent \<noteq> None) (vs_vmcs parent) child of
             (Inl e, pv, _) \<Rightarrow> (Inl e, parent\<lparr>vs_vmcs := pv\<rparr>)
           | (Inr vpid, pv, cv) \<Rightarrow>
               (Inr
                  \<lparr>emulated_tsc = emulated_tsc parent, event_buffer = None, event_len = 0, event_seq = 0,
                   event_categories = 0, event_pending = None, event_pending_buf = replicate IO_CHANNEL_BUF_SIZE 0,
                   event_pending_len = 0, event_pending_flags = 0, event_pending_tsc = 0, event_pending_real_tsc = 0,
                   pending_exit_loc = None, serial_line_buf = replicate SERIAL_LINE_ACC_SIZE 0, serial_line_len = 0,
                   serial_line_tsc = 0, serial_line_real_tsc = 0,
                   serial_console = serial_console_clone_for_fork (serial_console parent),
                   io_channel = io_channel_clone_for_fork (io_channel parent),
                   vs_vmcs = cv, vs_gprs = vs_gprs parent, vs_eptp = eptp, vs_launched = False, guest_cr2 = 0,
                   msr_bitmap = msr_bitmap parent, msr_bitmap_addr = bitmap_addr,
                   pebs_exit_msr_load = [(IA32_PEBS_ENABLE, 0)], pebs_exit_msr_load_addr = exit_addr,
                   pebs_entry_msr_load = init_pebs_entry_msr_indexes, pebs_entry_msr_load_addr = entry_addr,
                   guest_xsave = guest_xsave parent, xcr0_mask = xcr0_mask parent,
                   last_exit_qualification = 0, last_guest_physical_addr = 0,
                   vs_devices = vs_devices parent, vs_host = vs_host parent, msr_state = msr_state parent,
                   kernel_gs_base = kernel_gs_base parent,
                   last_instruction_count = 0, tsc_offset = emulated_tsc parent, tsc_frequency = tsc_frequency parent,
                   exit_trigger = Trigger_Disabled, exit_target_tsc = 0, exit_start_tsc = 0, exit_captured = False,
                   skip_memory_hash = False, single_step_tsc_range = None, mtf_enabled = False, stop_at_tsc = None,
                   vs_stats = all_exit_stats_default, last_checkpoint_idx = 0, last_exit_deterministic = True,
                   last_pebs_skid = 0, last_pebs_inst_delta = 0, last_pebs_tsc_offset_delta = 0,
                   last_pebs_iters_since_arm = 0, last_pebs_arm_delta = 0, feedback_buffers = feedback_buffers parent,
                   vs_vpid = vpid, intercept_pf = False, vs_pebs = map_option pebs_clone_for_fork (vs_pebs parent),
                   pebs_supported = pebs_supported parent, last_cpu = None\<rparr>,
                parent\<lparr>vs_vmcs := pv\<rparr>)))))))"

section \<open>Exit records\<close>

definition exit_capture_enabled :: "'a vm_state_scheme \<Rightarrow> bool" where
  "exit_capture_enabled s \<longleftrightarrow> exit_trigger s \<noteq> Trigger_Disabled"

definition enable_exit_capture :: "'a vm_state_scheme \<Rightarrow> 'a vm_state_scheme" where
  "enable_exit_capture s = s\<lparr>exit_trigger := Trigger_AllExits, exit_captured := False\<rparr>"

definition disable_exit_capture :: "'a vm_state_scheme \<Rightarrow> 'a vm_state_scheme" where
  "disable_exit_capture s = s\<lparr>exit_trigger := Trigger_Disabled, exit_captured := False\<rparr>"

definition set_exit_trigger :: "exit_trigger \<Rightarrow> u64 \<Rightarrow> 'a vm_state_scheme \<Rightarrow> 'a vm_state_scheme" where
  "set_exit_trigger mode target s = s\<lparr>exit_trigger := mode, exit_target_tsc := target, exit_captured := False\<rparr>"

definition set_exit_start_tsc :: "u64 \<Rightarrow> 'a vm_state_scheme \<Rightarrow> 'a vm_state_scheme" where
  "set_exit_start_tsc start s = s\<lparr>exit_start_tsc := start\<rparr>"

definition set_intercept_pf :: "bool \<Rightarrow> 'a vm_state_scheme \<Rightarrow> 'a vm_state_scheme" where
  "set_intercept_pf enable s = s\<lparr>intercept_pf := enable\<rparr>"

definition apply_intercept_pf :: "'a vm_state_scheme \<Rightarrow> 'a vm_state_scheme" where
  "apply_intercept_pf s =
     (let bitmap = (case read32 ExceptionBitmap (vs_vmcs s) of Inl _ \<Rightarrow> 0 | Inr b \<Rightarrow> b);
          new_bitmap = (if intercept_pf s then bitmap OR push_bit 14 1 else bitmap AND NOT (push_bit 14 1))
      in s\<lparr>vs_vmcs := snd (write32 ExceptionBitmap new_bitmap (vs_vmcs s))\<rparr>)"

definition EXIT_RECORD_FLAG_DETERMINISTIC :: u32 where "EXIT_RECORD_FLAG_DETERMINISTIC = 1"

definition natural_or_zero :: "vmcs_field_natural \<Rightarrow> 'a vm_state_scheme \<Rightarrow> u64" where
  "natural_or_zero f s = (case read_natural f (vs_vmcs s) of Inl _ \<Rightarrow> 0 | Inr x \<Rightarrow> x)"

text \<open>The 512 bytes of an \<open>ExitRecord\<close> in the order of its fields. \<open>hash\<close> is the kernel's
  XXH64; \<open>pad\<close> are the four bytes that the layout leaves between
  \<open>pebs_iters_since_arm\<close> and \<open>pebs_arm_delta\<close>.\<close>

definition exit_record_bytes :: "(bytes \<Rightarrow> u64) \<Rightarrow> bytes \<Rightarrow> exit_reason \<Rightarrow> u64 \<Rightarrow> u32 \<Rightarrow> 'a vm_state_scheme \<Rightarrow> bytes" where
  "exit_record_bytes hash pad reason qualification flags s =
     (let g = vs_gprs s; d = vs_devices s; words = (\<lambda>xs. concat (map (to_le 8) xs))
      in to_le 8 (emulated_tsc s) @ to_le 4 reason @ to_le 4 flags @ to_le 8 qualification
         @ words [rax g, rcx g, rdx g, rbx g, rsp g, rbp g, rsi g, rdi g, r8 g, r9 g, r10 g, r11 g, r12 g, r13 g, r14 g, r15 g,
                  natural_or_zero GuestRip s, natural_or_zero GuestRflags s,
                  hash (apic_hash_input (apic d)), hash (serial_hash_input (serial d)), hash (ioapic_hash_input (ioapic d)),
                  hash (rtc_hash_input (rtc d)), hash (mtrr_hash_input (mtrr d)), hash (random_hash_input (rng d)), 0,
                  natural_or_zero GuestFsBase s, natural_or_zero GuestGsBase s, kernel_gs_base s, natural_or_zero GuestCr3 s,
                  natural_or_zero GuestCsBase s, natural_or_zero GuestDsBase s, natural_or_zero GuestEsBase s,
                  natural_or_zero GuestSsBase s, natural_or_zero GuestPendingDebugExceptions s]
         @ to_le 4 (case read32 GuestInterruptibilityState (vs_vmcs s) of Inl _ \<Rightarrow> 0 | Inr x \<Rightarrow> x) @ to_le 4 (0 :: u32)
         @ words [last_pebs_skid s, last_pebs_inst_delta s, last_pebs_tsc_offset_delta s]
         @ to_le 4 (last_pebs_iters_since_arm s) @ pad
         @ words ([last_pebs_arm_delta s, last_instruction_count s, timer_deadline (apic d),
                   request_target_tsc (io_channel s),
                   (case vs_pebs s of None \<Rightarrow> 0 | Some p \<Rightarrow> armed_target_tsc p),
                   of_bool (mtf_enabled s) OR push_bit 1 (of_bool (last_exit_deterministic s))] @ replicate 16 0))"

definition write_exit_record ::
  "(bytes \<Rightarrow> u64) \<Rightarrow> bytes \<Rightarrow> u64 \<Rightarrow> exit_reason \<Rightarrow> u64 \<Rightarrow> u32 \<Rightarrow> 'a vm_state_scheme \<Rightarrow> 'a vm_state_scheme" where
  "write_exit_record hash pad now reason qualification flags s =
     (if event_buffer s = None \<or> \<not> categories_contains (event_categories s) EventCategories_EXIT then s
      else
        let entry = exit_record_bytes hash pad reason qualification flags s;
            s = s\<lparr>last_pebs_skid := 0, last_pebs_inst_delta := 0, last_pebs_tsc_offset_delta := 0,
                  last_pebs_iters_since_arm := 0, last_pebs_arm_delta := 0\<rparr>
        in emit_exit_event entry (flags AND EXIT_RECORD_FLAG_DETERMINISTIC \<noteq> 0) now s)"

definition before_start :: "'a vm_state_scheme \<Rightarrow> bool" where
  "before_start s \<longleftrightarrow> 0 < exit_start_tsc s \<and> emulated_tsc s < exit_start_tsc s"

text \<open>Whether \<open>capture_exit\<close> writes a record, and the checkpoint index after it.\<close>

definition capture_due :: "bool \<Rightarrow> 'a vm_state_scheme \<Rightarrow> bool \<times> u64" where
  "capture_due deterministic s =
     (case exit_trigger s of
        Trigger_Disabled \<Rightarrow> (False, last_checkpoint_idx s)
      | Trigger_AtShutdown \<Rightarrow> (False, last_checkpoint_idx s)
      | Trigger_Checkpoints \<Rightarrow>
          if \<not> deterministic \<or> exit_target_tsc s = 0 then (False, last_checkpoint_idx s)
          else let idx = emulated_tsc s div exit_target_tsc s
               in if last_checkpoint_idx s < idx then (True, idx) else (False, last_checkpoint_idx s)
      | Trigger_AtTsc \<Rightarrow>
          (deterministic \<and> \<not> exit_captured s \<and> \<not> emulated_tsc s < exit_target_tsc s, last_checkpoint_idx s)
      | Trigger_AllExits \<Rightarrow> (True, last_checkpoint_idx s)
      | Trigger_TscRange \<Rightarrow>
          (case single_step_tsc_range s of
             None \<Rightarrow> (False, last_checkpoint_idx s)
           | Some (start, stop) \<Rightarrow>
               (\<not> (emulated_tsc s < start \<or> stop \<le> emulated_tsc s), last_checkpoint_idx s)))"

definition capture_exit ::
  "(bytes \<Rightarrow> u64) \<Rightarrow> bytes \<Rightarrow> u64 \<Rightarrow> exit_reason \<Rightarrow> u64 \<Rightarrow> bool \<Rightarrow> 'a vm_state_scheme \<Rightarrow> 'a vm_state_scheme" where
  "capture_exit hash pad now reason qualification deterministic s =
     (if before_start s then s
      else
        let (due, idx) = capture_due deterministic s;
            s = s\<lparr>last_checkpoint_idx := idx\<rparr>
        in if \<not> due then s
           else
             let s = write_exit_record hash pad now reason qualification
                       (if deterministic then EXIT_RECORD_FLAG_DETERMINISTIC else 0) s
             in if exit_trigger s = Trigger_AtTsc then s\<lparr>exit_captured := True\<rparr> else s)"

definition capture_exit_at_shutdown :: "(bytes \<Rightarrow> u64) \<Rightarrow> bytes \<Rightarrow> u64 \<Rightarrow> 'a vm_state_scheme \<Rightarrow> 'a vm_state_scheme" where
  "capture_exit_at_shutdown hash pad now s =
     (if exit_trigger s \<noteq> Trigger_AtShutdown \<or> exit_captured s then s
      else if before_start s then s
      else (write_exit_record hash pad now ExitReason_VmcallShutdown 0 EXIT_RECORD_FLAG_DETERMINISTIC s)\<lparr>exit_captured := True\<rparr>)"

definition capture_exit_at_snapshot :: "(bytes \<Rightarrow> u64) \<Rightarrow> bytes \<Rightarrow> u64 \<Rightarrow> 'a vm_state_scheme \<Rightarrow> 'a vm_state_scheme" where
  "capture_exit_at_snapshot hash pad now s =
     (if before_start s then s
      else if exit_trigger s = Trigger_Disabled then s
      else write_exit_record hash pad now ExitReason_VmcallSnapshot 0 EXIT_RECORD_FLAG_DETERMINISTIC s)"

end
