(* ===== verification/Vmcs_Laws.thy ===== *)
theory Vmcs_Laws
  imports Vmcs
begin

text \<open>
  Laws of the control structure: the read-after-write interface that sequences of
  VMWRITEs rely on and its interpretation on the model, the round trip of
  \<open>set_registers\<close> and \<open>get_registers\<close>, what the set-up leaves behind, and the
  constraints that the processor puts on controls and control registers.
\<close>

section \<open>Sequences of writes\<close>

locale field_store =
  fixes get :: "'f \<Rightarrow> 's \<Rightarrow> 'e + 'v"
    and put :: "'f \<Rightarrow> 'v \<Rightarrow> ('s, 'e, unit) fallible"
    and has :: "'f \<Rightarrow> 's \<Rightarrow> bool"
  assumes put_ok: "has f s \<Longrightarrow> fst (put f x s) = Inr ()"
    and has_put: "has g (snd (put f x s)) = has g s"
    and get_put: "has f s \<Longrightarrow> get g (snd (put f x s)) = (if g = f then Inr x else get g s)"
begin

lemma put_eq: "has f s \<Longrightarrow> \<exists>s'. put f x s = (Inr (), s')"
  using put_ok by (metis prod.collapse)

lemma put_all:
  "\<forall>f \<in> fst ` set ws. has f s \<Longrightarrow>
     fst (for_each ws (\<lambda>(f, x). put f x) s) = Inr ()
     \<and> has g (snd (for_each ws (\<lambda>(f, x). put f x) s)) = has g s
     \<and> get g (snd (for_each ws (\<lambda>(f, x). put f x) s)) =
           (case map_of (rev ws) g of Some x \<Rightarrow> Inr x | None \<Rightarrow> get g s)"
proof (induction ws arbitrary: s)
  case (Cons w ws)
  obtain f x where w: "w = (f, x)" by force
  obtain s' where put: "put f x s = (Inr (), s')" using Cons.prems w put_eq [of f s x] by auto
  then have s'_def: "s' = snd (put f x s)" by simp
  have step: "for_each (w # ws) (\<lambda>(f, x). put f x) s = for_each ws (\<lambda>(f, x). put f x) s'"
    by (simp add: w put)
  have rest: "\<forall>f \<in> fst ` set ws. has f s'" using Cons.prems by (simp add: s'_def has_put)
  have "get g s' = (if g = f then Inr x else get g s)"
    using Cons.prems w by (simp add: s'_def get_put)
  moreover have "has g s' = has g s" by (simp add: s'_def has_put)
  ultimately show ?case
    unfolding step using Cons.IH [OF rest] w by (auto simp: map_add_def split: option.split)
qed simp

end

definition has_field :: "u32 \<Rightarrow> vmcs \<Rightarrow> bool" where
  "has_field f v \<longleftrightarrow> vmcs_loaded v \<and> f \<in> dom (vmcs_fields v)"

interpretation vf: field_store vmread vmwrite has_field
  by unfold_locales (auto simp: has_field_def vmread_def vmwrite_def split: option.splits)

lemma vmwrite_loaded: "vmcs_loaded (snd (vmwrite f x v)) = vmcs_loaded v"
  by (auto simp: vmwrite_def split: option.splits)

lemma write_fields_loaded: "vmcs_loaded (snd (write_fields ws v)) = vmcs_loaded v"
proof -
  obtain r v' where w: "write_fields ws v = (r, v')" by force
  have "vmcs_loaded v' = vmcs_loaded v"
    by (rule for_each_invariant [where P = "\<lambda>u. vmcs_loaded u = vmcs_loaded v", OF w [unfolded write_fields_def]])
      (auto simp: split_beta, (metis vmwrite_loaded snd_conv)+)
  then show ?thesis using w by simp
qed

lemma write_fields_spec:
  assumes "vmcs_loaded v" and "fst ` set ws \<subseteq> dom (vmcs_fields v)"
  shows "fst (write_fields ws v) = Inr ()"
    and "vmread g (snd (write_fields ws v)) = (case map_of (rev ws) g of Some x \<Rightarrow> Inr x | None \<Rightarrow> vmread g v)"
    and "dom (vmcs_fields (snd (write_fields ws v))) = dom (vmcs_fields v)"
proof -
  have has: "\<forall>f \<in> fst ` set ws. has_field f v" using assms by (auto simp: has_field_def)
  show "fst (write_fields ws v) = Inr ()" using vf.put_all [OF has] by (simp add: write_fields_def)
  show "vmread g (snd (write_fields ws v)) = (case map_of (rev ws) g of Some x \<Rightarrow> Inr x | None \<Rightarrow> vmread g v)"
    using vf.put_all [OF has] by (simp add: write_fields_def)
  have "has_field g (snd (write_fields ws v)) = has_field g v" for g
    using vf.put_all [OF has] by (simp add: write_fields_def)
  then show "dom (vmcs_fields (snd (write_fields ws v))) = dom (vmcs_fields v)"
    using assms(1) by (auto simp: has_field_def write_fields_loaded)
qed

lemma ucast_back [simp]:
  "ucast (ucast (x :: u16) :: u64) = x" "ucast (ucast (y :: u32) :: u64) = y"
  "ucast (ucast (ucast (x :: u16) :: u64) :: u32) = x"
  by (rule bit_word_eqI, simp add: bit_simps)+

section \<open>Registers\<close>

text \<open>The registers as \<open>get_registers\<close> reports them: CR0 and CR4 with the bits that
  VMX operation fixes, and zero for the registers that the structure does not hold.\<close>

definition reported_registers :: "vmx_capabilities \<Rightarrow> guest_registers \<Rightarrow> guest_registers" where
  "reported_registers caps r = r
     \<lparr>g_control := \<lparr>cr0 = fix_cr0 (cr0 (g_control r)) caps, cr2 = 0, cr3 = cr3 (g_control r),
                    cr4 = fix_cr4 (cr4 (g_control r)) caps, cr8 = 0\<rparr>,
      g_debug := \<lparr>dr0 = 0, dr1 = 0, dr2 = 0, dr3 = 0, dr6 = 0, dr7 = dr7 (g_debug r)\<rparr>\<rparr>"

lemma write_fields_reads:
  assumes "vmcs_loaded v" and "fst ` set ws \<subseteq> dom (vmcs_fields v)" and "distinct (map fst ws)"
  shows "list_all (\<lambda>(f, x). vmread f (snd (write_fields ws v)) = Inr x) ws"
proof -
  have "map_of (rev ws) f = Some x" if "(f, x) \<in> set ws" for f x
    using that assms(3) map_of_is_SomeI [of "rev ws" f x] by (simp flip: rev_map)
  then show ?thesis
    using write_fields_spec(2) [OF assms(1,2)] by (auto simp: list_all_iff)
qed

lemma register_fields_distinct: "distinct (map fst (register_fields caps regs))"
  by (simp add: register_fields_defs Let_def)

text \<open>C24. Setting the guest registers of a loaded control structure succeeds, and
  reading them back returns exactly what was set, except that CR0 and CR4 carry the
  bits the processor fixes and that CR2, CR8 and the debug registers other than
  DR7, which the structure does not hold, read as zero.\<close>

theorem set_registers_roundtrip:
  assumes "vmcs_loaded v" and "fst ` set (register_fields caps regs) \<subseteq> dom (vmcs_fields v)"
    and "set_registers caps regs (g, v) = (r, s)"
  shows "r = Inr () \<and> get_registers s = Inr (reported_registers caps regs)"
proof -
  define v' where "v' = snd (write_fields (register_fields caps regs) v)"
  have s: "r = Inr ()" "s = (g_gprs regs, v')"
    using assms(3) write_fields_spec(1) [OF assms(1,2)]
    by (auto simp: set_registers_def v'_def split: prod.splits)
  have "list_all (\<lambda>(f, x). vmread f v' = Inr x) (register_fields caps regs)"
    unfolding v'_def by (rule write_fields_reads [OF assms(1,2) register_fields_distinct])
  then have "get_registers s = Inr (reported_registers caps regs)"
    by (simp add: s(2) register_fields_defs Let_def get_registers_def read_segment_def read16_def read32_def
        read64_def read_natural_def sum_bind_def reported_registers_def cr8_new_def)
  then show ?thesis using s(1) by simp
qed

definition w_vmcs :: vmcs where
  "w_vmcs = \<lparr>vmcs_loaded = True, vmcs_fields = (\<lambda>_. Some 0)\<rparr>"

definition w_segment :: segment_register where
  "w_segment = \<lparr>seg_selector = 0x18, access_rights = 0x93, seg_limit = 0, seg_base = 0\<rparr>"

definition w_regs :: guest_registers where
  "w_regs = \<lparr>g_gprs = gprs_default\<lparr>rsp := 0x7000\<rparr>,
     g_control = \<lparr>cr0 = 0x80000031, cr2 = 0, cr3 = 0x9000, cr4 = 0x20, cr8 = 0\<rparr>,
     g_debug = \<lparr>dr0 = 0, dr1 = 0, dr2 = 0, dr3 = 0, dr6 = 0, dr7 = 0x400\<rparr>,
     g_segments = \<lparr>seg_cs = w_segment, seg_ds = w_segment, seg_es = w_segment, seg_fs = w_segment, seg_gs = w_segment,
       seg_ss = w_segment, seg_tr = w_segment, seg_ldtr = w_segment\<rparr>,
     g_gdtr = \<lparr>dt_limit = 0x27, dt_base = 0x500\<rparr>, g_idtr = \<lparr>dt_limit = 0, dt_base = 0\<rparr>,
     g_efer = 0x500, g_rip = 0x100200, g_rflags = 2\<rparr>"

definition w_caps :: vmx_capabilities where
  "w_caps = vmx_capabilities_default\<lparr>cr0_fixed0 := 0x80000021, cr0_fixed1 := 0xFFFFFFFF,
     cr4_fixed0 := 0x2000, cr4_fixed1 := 0x3767FF\<rparr>"

lemma w_vmcs_has: "vmcs_loaded w_vmcs" "A \<subseteq> dom (vmcs_fields w_vmcs)"
  by (auto simp: w_vmcs_def)

theorem set_registers_roundtrip_witness:
  "get_registers (snd (set_registers w_caps w_regs (gprs_default, w_vmcs))) = Inr (reported_registers w_caps w_regs)
   \<and> cr4 (g_control (reported_registers w_caps w_regs)) = 0x2020"
  using set_registers_roundtrip [OF w_vmcs_has, of w_caps w_regs gprs_default
      "fst (set_registers w_caps w_regs (gprs_default, w_vmcs))" "snd (set_registers w_caps w_regs (gprs_default, w_vmcs))"]
  by (simp add: reported_registers_def w_regs_def w_caps_def fix_cr4_def vmx_capabilities_default_def)

text \<open>C25. The stack pointer of the guest lives in the control structure, but reading
  the registers takes it from the cached general-purpose registers, where only
  \<open>set_registers\<close> puts it. So changing one register of a VM that has run (reading all
  registers, changing the instruction pointer and writing all back, as the user-space
  library does) replaces the guest's stack pointer by the one that was last set.\<close>

theorem changing_rip_resets_rsp:
  assumes "vmcs_loaded v" and "fst ` set (register_fields caps regs) \<subseteq> dom (vmcs_fields v)"
    and "vmread GuestRsp v = Inr guest_rsp"
    and "get_registers (g, v) = Inr regs"
    and "set_registers caps (regs\<lparr>g_rip := new_rip\<rparr>) (g, v) = (r, g', v')"
  shows "vmread GuestRip v' = Inr new_rip \<and> vmread GuestRsp v' = Inr (rsp g)
         \<and> (vmread GuestRsp v' = vmread GuestRsp v \<longleftrightarrow> guest_rsp = rsp g)"
proof -
  let ?new = "regs\<lparr>g_rip := new_rip\<rparr>"
  have gprs: "g_gprs ?new = g"
    using assms(4) by (auto simp: get_registers_def sum_bind_def Let_def split: sum.splits)
  have fields: "fst ` set (register_fields caps ?new) \<subseteq> dom (vmcs_fields v)"
    using assms(2) by (simp add: register_fields_defs Let_def)
  have v': "v' = snd (write_fields (register_fields caps ?new) v)"
    using assms(5) by (auto simp: set_registers_def split: prod.splits)
  have "list_all (\<lambda>(f, x). vmread f v' = Inr x) (register_fields caps ?new)"
    unfolding v' by (rule write_fields_reads [OF assms(1) fields register_fields_distinct])
  then show ?thesis using gprs assms(3) by (auto simp: register_fields_defs Let_def)
qed

definition w_ran :: vmcs where
  "w_ran = w_vmcs\<lparr>vmcs_fields := (vmcs_fields w_vmcs)(GuestRsp \<mapsto> 0x6FF8)\<rparr>"

theorem changing_rip_resets_rsp_witness:
  "\<exists>regs. get_registers (g_gprs w_regs, w_ran) = Inr regs
     \<and> vmread GuestRsp w_ran = Inr 0x6FF8
     \<and> vmread GuestRsp (snd (snd (set_registers w_caps (regs\<lparr>g_rip := 0x1000\<rparr>) (g_gprs w_regs, w_ran)))) = Inr 0x7000"
proof -
  obtain regs where regs: "get_registers (g_gprs w_regs, w_ran) = Inr regs"
    by (simp add: get_registers_def read_segment_def read16_def read32_def read64_def read_natural_def
        sum_bind_def vmread_def w_ran_def w_vmcs_def)
  have rsp: "vmread GuestRsp w_ran = Inr 0x6FF8" by (simp add: vmread_def w_ran_def w_vmcs_def)
  obtain r g' v' where set: "set_registers w_caps (regs\<lparr>g_rip := 0x1000\<rparr>) (g_gprs w_regs, w_ran) = (r, g', v')"
    by (metis prod.exhaust)
  have "vmread GuestRsp v' = Inr (rsp (g_gprs w_regs))"
    using changing_rip_resets_rsp [OF _ _ rsp regs set] by (auto simp: w_ran_def w_vmcs_def)
  then show ?thesis using regs rsp set by (simp add: w_regs_def)
qed

section \<open>Set-up\<close>

lemma write_fields_Cons:
  "write_fields (w # ws) v =
     (case vmwrite (fst w) (snd w) v of (Inl e, v) \<Rightarrow> (Inl e, v) | (Inr _, v) \<Rightarrow> write_fields ws v)"
  unfolding write_fields_def by (cases w) simp

lemma write_fields_success:
  assumes "write_fields ws v = (Inr (), v')"
  shows "fst ` set ws \<subseteq> dom (vmcs_fields v)"
  using assms
proof (induction ws arbitrary: v)
  case (Cons w ws)
  then obtain u where u: "vmwrite (fst w) (snd w) v = (Inr (), u)" "write_fields ws u = (Inr (), v')"
    by (auto simp: write_fields_Cons split: prod.splits sum.splits)
  have "dom (vmcs_fields u) = dom (vmcs_fields v)" "fst w \<in> dom (vmcs_fields v)"
    using u(1) by (auto simp: vmwrite_def split: if_splits option.splits)
  then show ?case using Cons.IH [OF u(2)] by simp
qed simp

lemma write_fields_value:
  assumes "write_fields ws v = (Inr (), v')" and "vmcs_loaded v"
  shows "vmcs_fields v' g = (case map_of (rev ws) g of Some x \<Rightarrow> Some x | None \<Rightarrow> vmcs_fields v g)"
proof -
  note spec = write_fields_spec [OF assms(2) write_fields_success [OF assms(1)]]
  have l: "vmcs_loaded v'" using write_fields_loaded [of ws v] assms by simp
  have r: "vmread g v' = (case map_of (rev ws) g of Some x \<Rightarrow> Inr x | None \<Rightarrow> vmread g v)"
    using spec(2) assms(1) by simp
  have "dom (vmcs_fields v') = dom (vmcs_fields v)" using spec(3) assms(1) by simp
  then have "vmcs_fields v' g = None \<longleftrightarrow> vmcs_fields v g = None" by (metis domIff)
  then show ?thesis using r l assms(2)
    by (auto simp: vmread_def split: option.splits)
qed

lemma write_fields_member:
  assumes "write_fields ws v = (Inr (), v')" and "vmcs_loaded v" and "(f, x) \<in> set ws" and "distinct (map fst ws)"
  shows "vmcs_fields v' f = Some x"
proof -
  have "map_of (rev ws) f = Some x"
    using assms(3,4) map_of_is_SomeI [of "rev ws" f x] by (simp flip: rev_map)
  then show ?thesis using write_fields_value [OF assms(1,2), of f] by simp
qed

lemma vmcs_setup_success:
  assumes "vmcs_setup True True True ept bm host caps vpid v = (Inr (), v')"
  obtains v1 v2 v3 where "setup_host_state host (v\<lparr>vmcs_loaded := True\<rparr>) = (Inr (), v1)"
    and "setup_controls caps vpid bm v1 = (Inr (), v2)" and "vmwrite EptPointer ept v2 = (Inr (), v3)"
    and "v' = v3\<lparr>vmcs_loaded := False\<rparr>"
  using assms
  by (auto simp: vmcs_setup_def vmcs_clear_def vmcs_load_def split: prod.splits sum.splits)

lemma setup_host_state_loaded: "vmcs_loaded (snd (setup_host_state h v)) = vmcs_loaded v"
  unfolding setup_host_state_def by (rule write_fields_loaded)

lemma setup_controls_vpid:
  assumes "setup_controls caps vpid bm v = (Inr (), v')" and "vmcs_loaded v"
    and "cpu_based_exec_ctrl caps AND cpu_based_ACTIVATE_SECONDARY_CONTROLS \<noteq> 0"
    and "cpu_based_exec_ctrl2 caps AND secondary_exec_ENABLE_VPID \<noteq> 0"
  shows "vmcs_fields v' VirtualProcessorId = Some (ucast vpid)"
proof (rule write_fields_member [OF assms(1) [unfolded setup_controls_def] assms(2)])
qed (use assms(3,4) in \<open>simp_all split: option.split\<close>)

text \<open>C26. The constructor of a root VM allocates a processor identifier, and the set-up
  stores it in the control structure; but the set-up ends by clearing the structure,
  so the read that follows fails and the VM records identifier 0. Dropping the VM
  gives 0 back, and the allocated identifier stays in use.\<close>

theorem root_vpid_never_returned:
  assumes "allocate_vpid pool = Some (Inr vpid, pool')" and "bitmap_ok (vwords pool)"
    and "cpu_based_exec_ctrl caps AND cpu_based_ACTIVATE_SECONDARY_CONTROLS \<noteq> 0"
    and "cpu_based_exec_ctrl2 caps AND secondary_exec_ENABLE_VPID \<noteq> 0"
    and "vm_new_vpid True True True ept bm host caps vpid v = (Inr recorded, v')"
  shows "vmcs_fields v' VirtualProcessorId = Some (ucast vpid) \<and> recorded = 0
         \<and> in_use (vwords (deallocate_vpid recorded pool')) vpid"
proof -
  obtain u where u: "vmcs_setup True True True ept bm host caps vpid v = (Inr (), v')"
    and rec: "recorded = (case read16 VirtualProcessorId v' of Inl _ \<Rightarrow> 0 | Inr x \<Rightarrow> x)"
    using assms(5) by (auto simp: vm_new_vpid_def split: prod.splits sum.splits)
  obtain v1 v2 v3 where st: "setup_host_state host (v\<lparr>vmcs_loaded := True\<rparr>) = (Inr (), v1)"
      "setup_controls caps vpid bm v1 = (Inr (), v2)" "vmwrite EptPointer ept v2 = (Inr (), v3)"
      "v' = v3\<lparr>vmcs_loaded := False\<rparr>"
    using vmcs_setup_success [OF u] by blast
  have "vmcs_loaded v1"
    using st(1) setup_host_state_loaded [of host "v\<lparr>vmcs_loaded := True\<rparr>"] by simp
  then have "vmcs_fields v2 VirtualProcessorId = Some (ucast vpid)"
    using setup_controls_vpid [OF st(2) _ assms(3,4)] by simp
  then have "vmcs_fields v' VirtualProcessorId = Some (ucast vpid)"
    using st(3,4) by (auto simp: vmwrite_def split: if_splits option.splits)
  moreover have "recorded = 0" by (simp add: rec st(4) read16_def vmread_def)
  moreover have "in_use (vwords (deallocate_vpid 0 pool')) vpid"
    using allocate_vpid_spec [OF assms(2)] assms(1)
    by (auto simp: deallocate_vpid_def deallocate_def Let_def)
  ultimately show ?thesis by simp
qed

lemma write_fields_total:
  assumes "vmcs_loaded v" and "dom (vmcs_fields v) = UNIV"
  obtains v' where "write_fields ws v = (Inr (), v')" and "vmcs_loaded v'" and "dom (vmcs_fields v') = UNIV"
proof
  note spec = write_fields_spec [OF assms(1), of ws]
  show "write_fields ws v = (Inr (), snd (write_fields ws v))" using spec(1) assms(2) by (metis prod.collapse top_greatest)
  show "vmcs_loaded (snd (write_fields ws v))" using assms(1) by (simp add: write_fields_loaded)
  show "dom (vmcs_fields (snd (write_fields ws v))) = UNIV" using spec(3) assms(2) by simp
qed

lemma vm_new_vpid_total:
  assumes "dom (vmcs_fields v) = UNIV"
  shows "\<exists>x v'. vm_new_vpid True True True ept bm host caps vpid v = (Inr x, v')"
proof -
  obtain v1 where v1: "setup_host_state host (v\<lparr>vmcs_loaded := True\<rparr>) = (Inr (), v1)" "vmcs_loaded v1"
      "dom (vmcs_fields v1) = UNIV"
    unfolding setup_host_state_def by (rule write_fields_total [of "v\<lparr>vmcs_loaded := True\<rparr>"]) (use assms in auto)
  obtain v2 where v2: "setup_controls caps vpid bm v1 = (Inr (), v2)" "vmcs_loaded v2" "dom (vmcs_fields v2) = UNIV"
    unfolding setup_controls_def by (rule write_fields_total [OF v1(2,3)])
  then obtain x where "vmcs_fields v2 EptPointer = Some x" by auto
  then show ?thesis
    using v1 v2 by (simp add: vm_new_vpid_def vmcs_setup_def vmcs_clear_def vmcs_load_def vmwrite_def)
qed

definition w_host :: host_state where
  "w_host = host_state_capture
     \<lparr>read_cr0 = Some 0x80050033, read_cr3 = Some 0x1000, read_cr4 = Some 0x2020, read_msr = (\<lambda>_. None),
      read_cs = 0x10, read_ss = 0x18, read_ds = 0, read_es = 0, read_fs = 0, read_gs = 0, read_tr = 0x40,
      read_gdtr_base = 0, read_idtr_base = 0, read_tr_base = 0\<rparr> 0 0"

definition w_vpid_caps :: vmx_capabilities where
  "w_vpid_caps = w_caps\<lparr>cpu_based_exec_ctrl := 0x80000000, cpu_based_exec_ctrl2 := 0x20\<rparr>"

theorem root_vpid_never_returned_witness:
  "\<exists>vpid pool recorded v'. allocate_vpid w_vpids = Some (Inr vpid, pool) \<and> vpid \<noteq> 0
     \<and> vm_new_vpid True True True 0x5000 None w_host w_vpid_caps vpid w_vmcs = (Inr recorded, v')
     \<and> in_use (vwords (deallocate_vpid recorded pool)) vpid"
proof -
  obtain r pool where run: "allocate_vpid w_vpids = Some (r, pool)"
    and res: "case r of Inr v \<Rightarrow> v \<noteq> 0 \<and> \<not> in_use (vwords w_vpids) v \<and>
        (\<forall>x. x \<noteq> 0 \<longrightarrow> in_use (vwords pool) x \<longleftrightarrow> x = v \<or> in_use (vwords w_vpids) x)
      | Inl VpidsExhausted \<Rightarrow> (\<forall>x. x \<noteq> 0 \<longrightarrow> in_use (vwords w_vpids) x)"
    using allocate_vpid_spec [OF w_vpids_ok(1)] by blast
  obtain vpid where r: "r = Inr vpid" "vpid \<noteq> 0"
  proof (cases r)
    case (Inl e)
    then show ?thesis using res w_vpids_ok(2) [of 1] by (cases e) auto
  qed (use res that in auto)
  obtain recorded v' where new: "vm_new_vpid True True True 0x5000 None w_host w_vpid_caps vpid w_vmcs = (Inr recorded, v')"
    using vm_new_vpid_total [of w_vmcs] w_vmcs_has(2) by blast
  have "in_use (vwords (deallocate_vpid recorded pool)) vpid"
    using root_vpid_never_returned [OF run [unfolded r(1)] w_vpids_ok(1) _ _ new]
    by (auto simp: w_vpid_caps_def)
  then show ?thesis using run r new by blast
qed

section \<open>Fixed bits\<close>

lemma bit_adjust_controls:
  "n < 32 \<Longrightarrow> bit (adjust_controls m requested) n \<longleftrightarrow> (bit requested n \<or> bit m n) \<and> bit m (n + 32)"
  by (simp add: adjust_controls_def Let_def bit_simps add.commute)

lemma fixed_bits_formula:
  fixes f0 f1 x :: u64
  assumes "f0 AND NOT f1 = 0"
  defines "m \<equiv> ones_mask f0 f1 OR zeros_mask f0 f1"
  shows "((x OR f0) AND f1) AND NOT m = x AND NOT m" and "((x OR f0) AND f1) AND m = f0 AND m"
proof -
  have sub: "bit f0 n \<Longrightarrow> bit f1 n" for n
  proof (rule ccontr)
    assume "bit f0 n" "\<not> bit f1 n"
    moreover from \<open>bit f0 n\<close> have "n < 64" using bit_imp_le_length by force
    ultimately have "bit (f0 AND NOT f1) n" by (simp add: bit_simps)
    then show False by (simp add: assms(1))
  qed
  show "((x OR f0) AND f1) AND NOT m = x AND NOT m" "((x OR f0) AND f1) AND m = f0 AND m"
    by (rule bit_word_eqI, use sub in \<open>auto simp: m_def ones_mask_def zeros_mask_def bit_simps\<close>)+
qed

text \<open>C27. The controls and control registers that the hypervisor installs respect what
  the processor reports. A control bit that must be 1 is 1, one that must be 0 is 0
  and every other one is as requested; CR0 and CR4 values are changed only inside the
  guest/host mask that the set-up installs, where they always carry the fixed
  values: the guest cannot change a fixed bit without an exit, and no other bit of a
  value it asks for is altered.\<close>

theorem fixed_bits_respected:
  assumes "\<forall>n < 32. bit m n \<longrightarrow> bit m (n + 32)"
    and "cr0_fixed0 caps AND NOT (cr0_fixed1 caps) = 0" and "cr4_fixed0 caps AND NOT (cr4_fixed1 caps) = 0"
  defines "m0 \<equiv> ones_mask (cr0_fixed0 caps) (cr0_fixed1 caps) OR zeros_mask (cr0_fixed0 caps) (cr0_fixed1 caps)"
    and "m4 \<equiv> ones_mask (cr4_fixed0 caps) (cr4_fixed1 caps) OR zeros_mask (cr4_fixed0 caps) (cr4_fixed1 caps)"
  shows "(\<forall>n < 32. bit (adjust_controls m requested) n \<longleftrightarrow>
            (if bit m n then True else if bit m (n + 32) then bit requested n else False))
         \<and> fix_cr0 x caps AND NOT m0 = x AND NOT m0 \<and> fix_cr0 x caps AND m0 = cr0_fixed0 caps AND m0
         \<and> fix_cr4 x caps AND NOT m4 = x AND NOT m4 \<and> fix_cr4 x caps AND m4 = cr4_fixed0 caps AND m4"
proof -
  have "\<forall>n < 32. bit (adjust_controls m requested) n \<longleftrightarrow>
          (if bit m n then True else if bit m (n + 32) then bit requested n else False)"
    using assms(1) by (auto simp: bit_adjust_controls)
  then show ?thesis
    unfolding m0_def m4_def fix_cr0_def fix_cr4_def
    using fixed_bits_formula [OF assms(2)] fixed_bits_formula [OF assms(3)] by blast
qed

theorem fixed_bits_respected_witness:
  "fix_cr4 0x20 w_caps AND 0x2000 = 0x2000
   \<and> bit (adjust_controls 0x1F00000016 0x8) 3 \<and> bit (adjust_controls 0x1F00000016 0x8) 1"
proof -
  have m: "\<forall>n < 32. bit (0x1F00000016 :: u64) n \<longrightarrow> bit (0x1F00000016 :: u64) (n + 32)"
    by (simp add: numeral_eq_Suc All_less_Suc)
  show ?thesis
    using fixed_bits_respected [OF m, where caps = w_caps and requested = 8 and x = "0x20"]
    by (simp add: w_caps_def vmx_capabilities_default_def fix_cr4_def)
qed

end
