(* ===== verification/Vm_State_Laws.thy ===== *)
theory Vm_State_Laws
  imports Vm_State Vmcs_Laws
begin

text \<open>
  Laws of the VM state: which MSR accesses exit, the layout of exit records, and what
  a fork inherits from its parent.
\<close>

section \<open>MSR bitmap\<close>

text \<open>How the processor reads the bitmap: an access outside the two ranges always exits,
  the others when their bit is set.\<close>

definition msr_access_exits :: "bool \<Rightarrow> u32 \<Rightarrow> bytes \<Rightarrow> bool" where
  "msr_access_exits wr msr bitmap =
     (case msr_bitmap_slot msr of
        None \<Rightarrow> True
      | Some (r, w, i) \<Rightarrow> bit (bitmap ! ((if wr then w else r) + i div 8)) (i mod 8))"

lemma msr_bitmap_slot_cases:
  assumes "msr_bitmap_slot msr = Some (r, w, i)"
  shows "i < 8192 \<and> (r = 0 \<and> w = 2048 \<and> i = unat msr \<or> r = 1024 \<and> w = 3072 \<and> i + 0xC0000000 = unat msr)"
  using assms
  by (auto simp: msr_bitmap_slot_def word_less_nat_alt word_le_nat_alt unat_sub_if' split: if_splits)

lemma msr_bitmap_slot_inj:
  "msr_bitmap_slot m = Some (r, w, i) \<Longrightarrow> msr_bitmap_slot n = Some (r, w, i) \<Longrightarrow> m = n"
  using msr_bitmap_slot_cases [of m r w i] msr_bitmap_slot_cases [of n r w i]
  by (auto simp: word_unat_eq_iff)

lemma length_clear_intercept [simp]: "length (msr_bitmap_clear_intercept n b) = length b"
  by (auto simp: msr_bitmap_clear_intercept_def Let_def split: option.split)

lemma bit_clear_mask: "k < 8 \<Longrightarrow> bit (x AND NOT (push_bit k 1) :: u8) j \<longleftrightarrow> bit x j \<and> j \<noteq> k"
  by (auto simp: bit_simps dest: bit_imp_le_length)

lemma slot_ranges:
  "msr_bitmap_slot msr = Some (r, w, i) \<Longrightarrow> r = 0 \<and> w = 2048 \<or> r = 1024 \<and> w = 3072"
  using msr_bitmap_slot_cases by blast

lemma slot_in_page:
  assumes "msr_bitmap_slot n = Some (r, w, i)"
  shows "i div 8 < 1024" and "r + i div 8 < 4096" and "w + i div 8 < 4096"
proof -
  have "i < 1024 * 8" using msr_bitmap_slot_cases [OF assms] by simp
  then show "i div 8 < 1024" by (rule less_mult_imp_div_less)
  moreover have "r \<le> 1024 \<and> w \<le> 3072" using slot_ranges [OF assms] by (elim disjE) simp_all
  ultimately show "r + i div 8 < 4096" "w + i div 8 < 4096" by linarith+
qed

lemma bit_masked_byte:
  assumes "p < length b" and "j < 8"
  shows "bit (b[p := b ! p AND NOT (push_bit j 1)] ! q) k \<longleftrightarrow> bit ((b :: bytes) ! q) k \<and> \<not> (q = p \<and> k = j)"
proof (cases "q = p")
  case True
  then show ?thesis using assms(1) bit_clear_mask [OF assms(2)] by (simp only: nth_list_update_eq) simp
qed simp

lemma bit_clear_intercept:
  assumes "msr_bitmap_slot n = Some (r, w, i)" and "length b = 4096"
  shows "bit (msr_bitmap_clear_intercept n b ! q) k \<longleftrightarrow>
           bit (b ! q) k \<and> \<not> ((q = r + i div 8 \<or> q = w + i div 8) \<and> k = i mod 8)"
proof -
  define b' where "b' = b[r + i div 8 := b ! (r + i div 8) AND NOT (push_bit (i mod 8) 1)]"
  have m: "i mod 8 < 8" by simp
  have "msr_bitmap_clear_intercept n b = b'[w + i div 8 := b' ! (w + i div 8) AND NOT (push_bit (i mod 8) 1)]"
    unfolding msr_bitmap_clear_intercept_def assms(1) option.case prod.case Let_def b'_def ..
  moreover have "w + i div 8 < length b'" using slot_in_page(3) [OF assms(1)] assms(2) by (simp add: b'_def)
  ultimately have "bit (msr_bitmap_clear_intercept n b ! q) k \<longleftrightarrow> bit (b' ! q) k \<and> \<not> (q = w + i div 8 \<and> k = i mod 8)"
    using bit_masked_byte [OF _ m, of "w + i div 8" b' q k] by (simp only:)
  moreover have "bit (b' ! q) k \<longleftrightarrow> bit (b ! q) k \<and> \<not> (q = r + i div 8 \<and> k = i mod 8)"
    unfolding b'_def by (rule bit_masked_byte) (use slot_in_page(2) [OF assms(1)] assms(2) in simp_all)
  ultimately show ?thesis by blast
qed

lemma nat_eq_by_div_mod: "(a :: nat) = b \<longleftrightarrow> a div k = b div k \<and> a mod k = b mod k"
  by (metis div_mult_mod_eq)

lemma slot_positions:
  fixes wr :: bool
  assumes "msr_bitmap_slot n = Some (r, w, i)" and "msr_bitmap_slot m = Some (r', w', i')"
  defines "q \<equiv> (if wr then w' else r') + i' div 8"
  shows "q < 4096" and "(q = r + i div 8 \<or> q = w + i div 8) \<and> i' mod 8 = i mod 8 \<longleftrightarrow> m = n"
proof -
  note n = slot_ranges [OF assms(1)] and m = slot_ranges [OF assms(2)]
  note d = slot_in_page(1) [OF assms(1)] slot_in_page(1) [OF assms(2)]
  show "q < 4096" unfolding q_def using slot_in_page(2,3) [OF assms(2)] by simp
  have "r' = r \<Longrightarrow> w' = w" using n m by (elim disjE) simp_all
  then have "m = n \<longleftrightarrow> r' = r \<and> i' = i"
    using msr_bitmap_slot_inj [of m r w i n] assms(1,2) by (intro iffI conjI) simp_all
  moreover have "i' = i \<longleftrightarrow> i' div 8 = i div 8 \<and> i' mod 8 = i mod 8"
    by (rule nat_eq_by_div_mod)
  moreover have "(q = r + i div 8 \<or> q = w + i div 8) \<longleftrightarrow> r' = r \<and> i' div 8 = i div 8"
    using n m d unfolding q_def by (cases wr; elim conjE disjE; simp only: if_True if_False; linarith)
  ultimately show "(q = r + i div 8 \<or> q = w + i div 8) \<and> i' mod 8 = i mod 8 \<longleftrightarrow> m = n" by blast
qed

lemma clear_intercept_exits:
  assumes "length b = 4096" and "msr_bitmap_slot n \<noteq> None"
  shows "msr_access_exits wr m (msr_bitmap_clear_intercept n b) \<longleftrightarrow> msr_access_exits wr m b \<and> m \<noteq> n"
proof -
  obtain r w i where n: "msr_bitmap_slot n = Some (r, w, i)" using assms(2) by auto
  show ?thesis
  proof (cases "msr_bitmap_slot m")
    case None
    then show ?thesis using n by (auto simp: msr_access_exits_def)
  next
    case (Some t)
    obtain r' w' i' where t: "t = (r', w', i')" by (cases t) auto
    note m = Some [unfolded t]
    show ?thesis
      unfolding msr_access_exits_def m option.case prod.case bit_clear_intercept [OF n assms(1)]
        slot_positions(2) [OF n m, of wr] ..
  qed
qed

lemma fold_clear_intercept_exits:
  assumes "length b = 4096" and "\<forall>n \<in> set ns. msr_bitmap_slot n \<noteq> None"
  shows "msr_access_exits wr m (fold msr_bitmap_clear_intercept ns b) \<longleftrightarrow> msr_access_exits wr m b \<and> m \<notin> set ns"
  using assms by (induction ns arbitrary: b) (auto simp: clear_intercept_exits)


section \<open>Exit records\<close>

lemma length_words [simp]: "length (concat (map (to_le 8) xs)) = 8 * length xs"
  by (induction xs) simp_all

lemma exit_record_length: "length pad = 4 \<Longrightarrow> length (exit_record_bytes hash pad reason qual flags s) = 512"
  unfolding exit_record_bytes_def Let_def length_append length_words length_to_le by simp

section \<open>Forks\<close>

lemma fork_vmcs_success:
  assumes "fork_vmcs env eptp bitmap_addr exit_addr pebs parent child = (Inr vpid, parent', child')"
  shows "parent' = parent\<lparr>vmcs_loaded := False\<rparr>" and "\<not> vmcs_loaded child'"
    and "f \<notin> {EptPointer, MsrBitmapAddr, VmxPreemptionTimerValue, VmExitMsrLoadAddr, VmExitMsrLoadCount, VirtualProcessorId}
           \<Longrightarrow> vmcs_fields child' f = vmcs_fields parent f"
    and "vmcs_fields child' EptPointer = Some eptp"
proof -
  define c0 where "c0 = child\<lparr>vmcs_fields := vmcs_fields parent, vmcs_loaded := True\<rparr>"
  obtain c1 c2 where st: "fe_parent_clear env" "fe_load env"
      "write_fields (fork_fields eptp bitmap_addr exit_addr pebs) c0 = (Inr (), c1)"
      "c2 = c1 \<or> (\<exists>x. write16 VirtualProcessorId x c1 = (Inr (), c2))"
      "child' = c2\<lparr>vmcs_loaded := False\<rparr>" "parent' = parent\<lparr>vmcs_loaded := False\<rparr>"
    using assms
    by (auto simp: fork_vmcs_def vmcs_clear_def vmcs_load_def Let_def c0_def split: prod.splits sum.splits if_splits) blast+
  show "parent' = parent\<lparr>vmcs_loaded := False\<rparr>" "\<not> vmcs_loaded child'" using st by simp_all
  have c2: "vmcs_fields c2 f = vmcs_fields c1 f" if "f \<noteq> VirtualProcessorId" for f
    using st(4) that by (auto simp: write16_def vmwrite_def split: if_splits option.splits)
  have c1: "vmcs_fields c1 f = (case map_of (rev (fork_fields eptp bitmap_addr exit_addr pebs)) f of
      Some x \<Rightarrow> Some x | None \<Rightarrow> vmcs_fields parent f)" for f
    using write_fields_value [OF st(3), of f] unfolding c0_def by (simp split: option.split)
  show "vmcs_fields child' f = vmcs_fields parent f"
    if "f \<notin> {EptPointer, MsrBitmapAddr, VmxPreemptionTimerValue, VmExitMsrLoadAddr, VmExitMsrLoadCount, VirtualProcessorId}"
    using that c1 [of f] c2 [of f] st(5) by (auto simp: fork_fields_def split: option.splits if_splits)
  show "vmcs_fields child' EptPointer = Some eptp"
    using c1 [of EptPointer] c2 [of EptPointer] st(5) by (auto simp: fork_fields_def split: if_splits)
qed

lemma new_for_fork_success:
  assumes "vm_state_new_for_fork alloc env eptp child parent = (Inr f, parent')"
  obtains bitmap_addr exit_addr vpid pv where
    "fork_vmcs env eptp bitmap_addr exit_addr (vs_pebs parent \<noteq> None) (vs_vmcs parent) child = (Inr vpid, pv, vs_vmcs f)"
    "parent' = parent\<lparr>vs_vmcs := pv\<rparr>"
    "emulated_tsc f = emulated_tsc parent" "tsc_offset f = emulated_tsc parent" "last_instruction_count f = 0"
    "vs_gprs f = vs_gprs parent" "vs_devices f = vs_devices parent" "msr_state f = msr_state parent"
    "kernel_gs_base f = kernel_gs_base parent" "guest_xsave f = guest_xsave parent"
    "vs_eptp f = eptp" "\<not> vs_launched f" "event_len f = 0" "\<not> mtf_enabled f" "guest_cr2 f = 0"
proof -
  obtain a0 a1 a2 a3 a4 where "alloc 0 = Some a0" "alloc 1 = Some a1" "alloc 2 = Some a2" "alloc 3 = Some a3" "alloc 4 = Some a4"
    using assms unfolding vm_state_new_for_fork_def by (auto split: option.splits)
  note u = assms [unfolded vm_state_new_for_fork_def this option.case]
  obtain r pv cv where v: "fork_vmcs env eptp a0 a1 (vs_pebs parent \<noteq> None) (vs_vmcs parent) child = (r, pv, cv)"
    by (metis prod_cases3)
  obtain vpid where r: "r = Inr vpid" using u unfolding v by (cases r) auto
  have f: "vs_vmcs f = cv \<and> parent' = parent\<lparr>vs_vmcs := pv\<rparr> \<and> emulated_tsc f = emulated_tsc parent \<and> tsc_offset f = emulated_tsc parent
      \<and> last_instruction_count f = 0 \<and> vs_gprs f = vs_gprs parent \<and> vs_devices f = vs_devices parent \<and> msr_state f = msr_state parent
      \<and> kernel_gs_base f = kernel_gs_base parent \<and> guest_xsave f = guest_xsave parent
      \<and> vs_eptp f = eptp \<and> \<not> vs_launched f \<and> event_len f = 0 \<and> \<not> mtf_enabled f \<and> guest_cr2 f = 0"
    using u unfolding v r by (auto simp only: prod.case sum.case prod.inject sum.inject vm_state.simps event_state.simps HOL.simp_thms)
  show thesis by (rule that [of a0 a1 vpid pv]) (use f v r in simp_all)
qed

text \<open>A VM as \<open>new\<close> leaves it, with a given control structure.\<close>

definition w_vm :: "vmcs \<Rightarrow> vm_state" where
  "w_vm v =
     \<lparr>emulated_tsc = 0, event_buffer = None, event_len = 0, event_seq = 0, event_categories = 0,
      event_pending = None, event_pending_buf = replicate IO_CHANNEL_BUF_SIZE 0, event_pending_len = 0,
      event_pending_flags = 0, event_pending_tsc = 0, event_pending_real_tsc = 0, pending_exit_loc = None,
      serial_line_buf = replicate SERIAL_LINE_ACC_SIZE 0, serial_line_len = 0, serial_line_tsc = 0,
      serial_line_real_tsc = 0, serial_console = serial_console_new, io_channel = io_channel_new,
      vs_vmcs = v, vs_gprs = gprs_default, vs_eptp = 0x5000, vs_launched = False, guest_cr2 = 0,
      msr_bitmap = msr_bitmap_new, msr_bitmap_addr = 0x1000,
      pebs_exit_msr_load = [(IA32_PEBS_ENABLE, 0)], pebs_exit_msr_load_addr = 0x2000,
      pebs_entry_msr_load = init_pebs_entry_msr_indexes, pebs_entry_msr_load_addr = 0x3000,
      guest_xsave = guest_xsave_new, xcr0_mask = XCR0_SSE_AVX,
      last_exit_qualification = 0, last_guest_physical_addr = 0,
      vs_devices = device_states_new, vs_host = w_host, msr_state = guest_msr_state_new, kernel_gs_base = 0,
      last_instruction_count = 0, tsc_offset = 0, tsc_frequency = DEFAULT_TSC_FREQUENCY,
      exit_trigger = Trigger_Disabled, exit_target_tsc = 0, exit_start_tsc = 0, exit_captured = False,
      skip_memory_hash = False, single_step_tsc_range = None, mtf_enabled = False, stop_at_tsc = None,
      vs_stats = all_exit_stats_default, last_checkpoint_idx = 0, last_exit_deterministic = True,
      last_pebs_skid = 0, last_pebs_inst_delta = 0, last_pebs_tsc_offset_delta = 0,
      last_pebs_iters_since_arm = 0, last_pebs_arm_delta = 0, feedback_buffers = [],
      vs_vpid = 0, intercept_pf = False, vs_pebs = None, pebs_supported = True, last_cpu = None\<rparr>"

definition w_fork_env :: fork_env where
  "w_fork_env = \<lparr>fe_parent_clear = True, fe_load = True, fe_vpid = 7, fe_invept = True, fe_clear = True\<rparr>"

text \<open>C32. A fork continues its parent: it starts at the parent's emulated time with its
  instruction count rebased on that time, with the parent's registers, devices, MSRs
  and extended state, and its control structure holds the parent's value in every
  field but the six that identify the child (page tables, MSR bitmap, preemption
  timer, exit MSR list, VPID). The parent changes only in that its control structure
  is no longer current.\<close>

theorem fork_continues_parent:
  assumes "vm_state_new_for_fork alloc env eptp child parent = (Inr f, parent')"
  shows "emulated_tsc f = emulated_tsc parent \<and> last_instruction_count f + tsc_offset f = emulated_tsc parent
         \<and> (vs_gprs f = vs_gprs parent \<and> vs_devices f = vs_devices parent \<and> msr_state f = msr_state parent
             \<and> kernel_gs_base f = kernel_gs_base parent \<and> guest_xsave f = guest_xsave parent)
         \<and> (\<forall>x. x \<notin> {EptPointer, MsrBitmapAddr, VmxPreemptionTimerValue, VmExitMsrLoadAddr, VmExitMsrLoadCount, VirtualProcessorId}
               \<longrightarrow> vmcs_fields (vs_vmcs f) x = vmcs_fields (vs_vmcs parent) x)
         \<and> (vmcs_fields (vs_vmcs f) EptPointer = Some (vs_eptp f) \<and> vs_eptp f = eptp)
         \<and> parent' = parent\<lparr>vs_vmcs := (vs_vmcs parent)\<lparr>vmcs_loaded := False\<rparr>\<rparr>"
proof -
  obtain bitmap_addr exit_addr vpid pv where v: "fork_vmcs env eptp bitmap_addr exit_addr (vs_pebs parent \<noteq> None) (vs_vmcs parent) child = (Inr vpid, pv, vs_vmcs f)"
    and rest: "parent' = parent\<lparr>vs_vmcs := pv\<rparr>" "emulated_tsc f = emulated_tsc parent" "tsc_offset f = emulated_tsc parent"
      "last_instruction_count f = 0" "vs_gprs f = vs_gprs parent" "vs_devices f = vs_devices parent"
      "msr_state f = msr_state parent" "kernel_gs_base f = kernel_gs_base parent" "guest_xsave f = guest_xsave parent"
      "vs_eptp f = eptp" "\<not> vs_launched f" "event_len f = 0" "\<not> mtf_enabled f" "guest_cr2 f = 0"
    by (rule new_for_fork_success [OF assms])
  note vm = fork_vmcs_success [OF v]
  show ?thesis using rest vm(1,4) vm(3) by simp
qed

theorem fork_continues_parent_witness:
  "\<exists>f parent'. vm_state_new_for_fork (\<lambda>n. Some (0x1000 * (1 + of_nat n))) w_fork_env 0x9000
       \<lparr>vmcs_loaded = False, vmcs_fields = Map.empty\<rparr> (w_vm w_vmcs\<lparr>emulated_tsc := 5000\<rparr>) = (Inr f, parent')
     \<and> last_instruction_count f + tsc_offset f = 5000 \<and> vmcs_fields (vs_vmcs f) GuestRip = vmcs_fields w_vmcs GuestRip
     \<and> vmcs_fields (vs_vmcs f) EptPointer = Some 0x9000"
proof -
  obtain f parent' where f: "vm_state_new_for_fork (\<lambda>n. Some (0x1000 * (1 + of_nat n))) w_fork_env 0x9000
       \<lparr>vmcs_loaded = False, vmcs_fields = Map.empty\<rparr> (w_vm w_vmcs\<lparr>emulated_tsc := 5000\<rparr>) = (Inr f, parent')"
    by (simp add: vm_state_new_for_fork_def fork_vmcs_def vmcs_clear_def vmcs_load_def w_fork_env_def w_vm_def w_vmcs_def
        fork_fields_def write_fields_def vmwrite_def read32_def vmread_def write16_def)
  note c = fork_continues_parent [OF f]
  have "last_instruction_count f + tsc_offset f = 5000" using c by (simp add: w_vm_def)
  moreover have "vmcs_fields (vs_vmcs f) GuestRip = vmcs_fields w_vmcs GuestRip" using c by (simp add: w_vm_def)
  moreover have "vmcs_fields (vs_vmcs f) EptPointer = Some 0x9000" using c by simp
  ultimately show ?thesis using f by blast
qed

end
