(* ===== verification/Vmx_Init.thy ===== *)
theory Vmx_Init
  imports Vmcs
begin

text \<open>
  Entering and leaving VMX operation: \<open>VmxCpu::init\<close> and \<open>deinitialize\<close> on one
  processor, the walk over the online processors, and loading and unloading the
  module (\<open>traits/vmx.rs\<close>, \<open>bedrock/vmxon.rs\<close>, \<open>machine.rs\<close>, \<open>helpers.c\<close>,
  \<open>bedrock_main.rs\<close>). What the hardware and the kernel answer is an argument.
\<close>

section \<open>One processor\<close>

datatype vmxon_error = InvalidPointer | AlreadyInVmxOperation
datatype vmxoff_error = DualMonitorTreatmentActive
datatype vmxon_alloc_error = VmxonMemoryAllocationFailed | VmxonFailed vmxon_error
datatype vmx_cpu_init_error =
  FeatureControlConfigFailed feature_control_error | FailedToEnableVMX | VmxonAllocFailed vmxon_alloc_error

text \<open>The per-CPU variables, and the state of the processor they describe: CR4.VMXE,
  whether it is in VMX operation, and its feature-control register.\<close>

record vmx_cpu =
  cpu_is_vmxon :: bool
  cpu_vmxon_region :: "u64 option"
  cpu_capabilities :: vmx_capabilities
  cr4_vmxe :: bool
  in_vmx_operation :: bool
  feature_control :: u64

definition vmx_cpu_new :: "u64 \<Rightarrow> vmx_cpu" where
  "vmx_cpu_new fc = \<lparr>cpu_is_vmxon = False, cpu_vmxon_region = None, cpu_capabilities = vmx_capabilities_default,
     cr4_vmxe = False, in_vmx_operation = False, feature_control = fc\<rparr>"

text \<open>What one processor answers: whether the inter-processor call reaches it, the
  registers it can read, whether the feature-control register can be written, the
  page found for the VMXON region, and the outcomes of VMXON and VMXOFF.\<close>

record cpu_env =
  call_reaches :: bool
  env_read_msr :: "msr_number \<Rightarrow> u64 option"
  fc_readable :: bool
  fc_writable :: bool
  vmxon_page :: "u64 option"
  vmxon_outcome :: "vmxon_error option"
  vmxoff_outcome :: "vmxoff_error option"

definition vmxon_region_new :: "cpu_env \<Rightarrow> (vmx_cpu, vmxon_alloc_error, u64) fallible" where
  "vmxon_region_new env c =
     (case vmxon_page env of
        None \<Rightarrow> (Inl VmxonMemoryAllocationFailed, c)
      | Some phys \<Rightarrow>
          (case vmxon_outcome env of
             Some e \<Rightarrow> (Inl (VmxonFailed e), c)
           | None \<Rightarrow> (Inr phys, c\<lparr>in_vmx_operation := True\<rparr>)))"

text \<open>\<open>init\<close>; \<open>None\<close> is the failed assertion that the processor is not yet
  initialised.\<close>

definition vmx_cpu_init :: "cpu_env \<Rightarrow> vmx_cpu \<Rightarrow> ((vmx_cpu_init_error + unit) \<times> vmx_cpu) option" where
  "vmx_cpu_init env c =
     (if cpu_is_vmxon c then None
      else Some
        (case configure_feature_control (if fc_readable env then Some (feature_control c) else None) (fc_writable env) of
           Inl e \<Rightarrow> (Inl (FeatureControlConfigFailed e), c)
         | Inr written \<Rightarrow>
             let c = (case written of None \<Rightarrow> c | Some fc \<Rightarrow> c\<lparr>feature_control := fc\<rparr>);
                 c = c\<lparr>cr4_vmxe := True\<rparr>
             in (case vmxon_region_new env c of
                   (Inl e, c) \<Rightarrow> (Inl (VmxonAllocFailed e), c)
                 | (Inr region, c) \<Rightarrow>
                     (Inr (), c\<lparr>cpu_is_vmxon := True, cpu_vmxon_region := Some region,
                        cpu_capabilities := read_capabilities (env_read_msr env)\<rparr>))))"

definition vmx_cpu_deinitialize :: "cpu_env \<Rightarrow> (vmx_cpu, vmxoff_error, unit) fallible" where
  "vmx_cpu_deinitialize env c =
     (if cpu_is_vmxon c
      then (case vmxoff_outcome env of
              Some e \<Rightarrow> (Inl e, c)
            | None \<Rightarrow> (Inr (), c\<lparr>in_vmx_operation := False, cr4_vmxe := False, cpu_is_vmxon := False\<rparr>))
      else (Inr (), c))"

section \<open>All processors\<close>

text \<open>\<open>call_on_all_cpus_with_data\<close> over \<open>bedrock_for_each_cpu\<close>: it stops at the first
  callback that fails and returns its error. It also stops when the call itself does
  not reach a processor, but then there is no stored error and it returns success.\<close>

fun call_on_all_cpus ::
  "(nat \<Rightarrow> cpu_env) \<Rightarrow> (nat \<Rightarrow> vmx_cpu \<Rightarrow> (('e + unit) \<times> vmx_cpu) option) \<Rightarrow> nat list \<Rightarrow> (nat \<Rightarrow> vmx_cpu) \<Rightarrow>
   (('e + unit) \<times> (nat \<Rightarrow> vmx_cpu)) option" where
  "call_on_all_cpus env func [] s = Some (Inr (), s)"
| "call_on_all_cpus env func (cpu # cpus) s =
     (if \<not> call_reaches (env cpu) then Some (Inr (), s)
      else case func cpu (s cpu) of
             None \<Rightarrow> None
           | Some (Inl e, c) \<Rightarrow> Some (Inl e, s(cpu := c))
           | Some (Inr _, c) \<Rightarrow> call_on_all_cpus env func cpus (s(cpu := c)))"

datatype vmx_init_error =
  Unsupported | FailedToReadBasicInfo | FailedToEnableCPU nat vmx_cpu_init_error | VmxMemoryAllocationFailed

text \<open>The global state: the basic information and the processors.\<close>

record vmx_global =
  basic_info :: "vmx_basic option"
  cpus :: "nat \<Rightarrow> vmx_cpu"

definition vmx_initialize ::
  "(nat \<Rightarrow> cpu_env) \<Rightarrow> nat list \<Rightarrow> bool \<Rightarrow> (msr_number \<Rightarrow> u64 option) \<Rightarrow> vmx_global \<Rightarrow>
   ((vmx_init_error + unit) \<times> vmx_global) option" where
  "vmx_initialize env online is_supported msr g =
     (if \<not> is_supported then Some (Inl Unsupported, g)
      else case vmx_load_basic_info msr of
             None \<Rightarrow> Some (Inl FailedToReadBasicInfo, g)
           | Some b \<Rightarrow>
               (case call_on_all_cpus env
                       (\<lambda>cpu c. map_option (map_prod (map_sum (FailedToEnableCPU cpu) id) id) (vmx_cpu_init (env cpu) c))
                       online (cpus g) of
                  None \<Rightarrow> None
                | Some (r, s) \<Rightarrow> Some (r, g\<lparr>basic_info := Some b, cpus := s\<rparr>)))"

text \<open>Loading the module: the handler (VMX initialisation and its VM list), then the
  device registration. On an error the constructor returns, and the destructor of
  the module does not run.\<close>

datatype module_error = ModEINVAL | ModRegister

definition module_init ::
  "(nat \<Rightarrow> cpu_env) \<Rightarrow> nat list \<Rightarrow> bool \<Rightarrow> (msr_number \<Rightarrow> u64 option) \<Rightarrow> bool \<Rightarrow> bool \<Rightarrow> vmx_global \<Rightarrow>
   ((module_error + unit) \<times> vmx_global) option" where
  "module_init env online is_supported msr vm_list_ok register_ok g =
     (case vmx_initialize env online is_supported msr g of
        None \<Rightarrow> None
      | Some (Inl e, g) \<Rightarrow> Some (Inl ModEINVAL, g)
      | Some (Inr _, g) \<Rightarrow>
          Some (if \<not> vm_list_ok then Inl ModEINVAL else if \<not> register_ok then Inl ModRegister else Inr (), g))"

definition module_drop :: "(nat \<Rightarrow> cpu_env) \<Rightarrow> nat list \<Rightarrow> vmx_global \<Rightarrow> vmx_global" where
  "module_drop env online g =
     (case call_on_all_cpus env (\<lambda>cpu c. Some (vmx_cpu_deinitialize (env cpu) c)) online (cpus g) of
        None \<Rightarrow> g
      | Some (r, s) \<Rightarrow> g\<lparr>cpus := s\<rparr>)"

section \<open>Walks over the processors\<close>

text \<open>A walk that ends without an error and reaches every processor has run the
  callback on each; one that ends with an error has run it on a prefix, and the
  processor after the prefix failed.\<close>

lemma call_on_all_cpus_ok:
  assumes "call_on_all_cpus env func online s = Some (Inr (), s')" and "distinct online"
    and "\<forall>cpu \<in> set online. call_reaches (env cpu)"
  shows "\<forall>cpu. if cpu \<in> set online then func cpu (s cpu) = Some (Inr (), s' cpu) else s' cpu = s cpu"
  using assms
proof (induction online arbitrary: s)
  case (Cons cpu rest)
  obtain c where c: "func cpu (s cpu) = Some (Inr (), c)"
      "call_on_all_cpus env func rest (s(cpu := c)) = Some (Inr (), s')"
    using Cons.prems by (auto split: option.splits prod.splits sum.splits)
  have "\<forall>k. if k \<in> set rest then func k ((s(cpu := c)) k) = Some (Inr (), s' k) else s' k = (s(cpu := c)) k"
    using Cons.IH [OF c(2)] Cons.prems by simp
  then show ?case using c(1) Cons.prems(2) by (auto split: if_splits)
qed simp

lemma call_on_all_cpus_error:
  assumes "call_on_all_cpus env func online s = Some (Inl e, s')" and "distinct online"
  obtains before cpu rest where "online = before @ cpu # rest" and "func cpu (s cpu) = Some (Inl e, s' cpu)"
    and "\<forall>k \<in> set before. func k (s k) = Some (Inr (), s' k)" and "\<forall>k. k \<notin> set (before @ [cpu]) \<longrightarrow> s' k = s k"
  using assms
proof (induction online arbitrary: s thesis)
  case (Cons cpu rest)
  have reach: "call_reaches (env cpu)" using Cons.prems by (auto split: if_splits)
  show ?case
  proof (cases "func cpu (s cpu)")
    case (Some p)
    then show ?thesis
    proof (cases p)
      case (Pair r c)
      show ?thesis
      proof (cases r)
        case (Inl e')
        then show ?thesis using Cons.prems(1) [of "[]" cpu rest] Cons.prems(2) reach Some Pair by auto
      next
        case (Inr u)
        then have "call_on_all_cpus env func rest (s(cpu := c)) = Some (Inl e, s')"
          using Cons.prems(2) reach Some Pair by simp
        from Cons.IH [OF _ this] Cons.prems(3)
        obtain before k later where k: "rest = before @ k # later" "func k ((s(cpu := c)) k) = Some (Inl e, s' k)"
          "\<forall>j \<in> set before. func j ((s(cpu := c)) j) = Some (Inr (), s' j)"
          "\<forall>j. j \<notin> set (before @ [k]) \<longrightarrow> s' j = (s(cpu := c)) j" by auto
        have fresh: "cpu \<notin> set before" "cpu \<noteq> k" using k(1) Cons.prems(3) by auto
        have "func cpu (s cpu) = Some (Inr (), s' cpu)" using k(4) fresh Some Pair Inr by simp
        moreover have "func j (s j) = Some (Inr (), s' j)" if "j \<in> set before" for j
          using k(3) that fresh(1) by (metis fun_upd_other)
        ultimately have all: "\<forall>j \<in> set (cpu # before). func j (s j) = Some (Inr (), s' j)" by simp
        show ?thesis
          by (rule Cons.prems(1) [OF _ _ all, of k later]) (use k(1,2,4) fresh(2) in simp_all)
      qed
    qed
  qed (use Cons.prems reach in simp)
qed simp

lemma vmx_cpu_init_ok:
  "vmx_cpu_init env c = Some (Inr (), c') \<Longrightarrow>
     cpu_is_vmxon c' \<and> in_vmx_operation c' \<and> cr4_vmxe c' \<and> cpu_capabilities c' = read_capabilities (env_read_msr env)
     \<and> cpu_vmxon_region c' \<noteq> None"
  by (auto simp: vmx_cpu_init_def vmxon_region_new_def Let_def split: if_splits sum.splits option.splits prod.splits)

lemma deinitialize_ok:
  "vmx_cpu_deinitialize env c = (Inr (), c') \<Longrightarrow> cpu_is_vmxon c \<Longrightarrow>
     \<not> cpu_is_vmxon c' \<and> \<not> in_vmx_operation c' \<and> \<not> cr4_vmxe c'"
  by (auto simp: vmx_cpu_deinitialize_def split: option.splits)

lemma map_init_result:
  "map_option (map_prod (map_sum f id) id) m = Some (Inr (), c) \<longleftrightarrow> m = Some (Inr (), c)"
  "map_option (map_prod (map_sum f id) id) m = Some (Inl e, c) \<longleftrightarrow> (\<exists>e'. m = Some (Inl e', c) \<and> e = f e')"
  by (cases m; auto simp: map_sum_def split: sum.splits)+

lemma vmx_initialize_cpus:
  assumes "vmx_initialize env online is_supported msr g = Some (r, g')" and "r \<noteq> Inl Unsupported" and "r \<noteq> Inl FailedToReadBasicInfo"
  shows "call_on_all_cpus env
           (\<lambda>cpu c. map_option (map_prod (map_sum (FailedToEnableCPU cpu) id) id) (vmx_cpu_init (env cpu) c))
           online (cpus g) = Some (r, cpus g')"
  using assms by (auto simp: vmx_initialize_def split: if_splits option.splits)

lemma module_init_ok:
  "module_init env online is_supported msr vm_list_ok register_ok g = Some (Inr (), g1) \<Longrightarrow>
     vmx_initialize env online is_supported msr g = Some (Inr (), g1)"
  by (auto simp: module_init_def split: option.splits prod.splits sum.splits if_splits)

lemma deinitialize_all:
  "\<forall>cpu \<in> set online. call_reaches (env cpu) \<and> vmxoff_outcome (env cpu) = None \<Longrightarrow>
     \<exists>s'. call_on_all_cpus env (\<lambda>k c. Some (vmx_cpu_deinitialize (env k) c)) online s = Some (Inr (), s')"
  by (induction online arbitrary: s) (simp_all add: vmx_cpu_deinitialize_def)


definition w_env :: "nat \<Rightarrow> cpu_env" where
  "w_env k = \<lparr>call_reaches = True, env_read_msr = (\<lambda>_. None), fc_readable = True, fc_writable = True,
     vmxon_page = Some (0x1000 * of_nat (k + 1)), vmxon_outcome = (if k = 2 then Some AlreadyInVmxOperation else None),
     vmxoff_outcome = None\<rparr>"

definition w_global :: vmx_global where
  "w_global = \<lparr>basic_info = None, cpus = (\<lambda>_. vmx_cpu_new 5)\<rparr>"


text \<open>C29. When one processor cannot be enabled, loading fails, but the processors that were
  already enabled stay in VMX operation with CR4.VMXE set: nothing undoes their
  initialisation, since the error return skips the module's destructor.\<close>

theorem failed_load_leaves_vmx_on:
  assumes "distinct online"
    and "vmx_initialize env online is_supported msr g = Some (Inl (FailedToEnableCPU cpu e), g1)"
  shows "module_init env online is_supported msr vm_list_ok register_ok g = Some (Inl ModEINVAL, g1)
         \<and> (\<exists>before rest. online = before @ cpu # rest
              \<and> (\<forall>k \<in> set before. in_vmx_operation (cpus g1 k) \<and> cr4_vmxe (cpus g1 k)))"
proof -
  have walk: "call_on_all_cpus env
      (\<lambda>cpu c. map_option (map_prod (map_sum (FailedToEnableCPU cpu) id) id) (vmx_cpu_init (env cpu) c))
      online (cpus g) = Some (Inl (FailedToEnableCPU cpu e), cpus g1)"
    using vmx_initialize_cpus [OF assms(2)] by simp
  let ?f = "\<lambda>k. map_option (map_prod (map_sum (FailedToEnableCPU k) id) id) (vmx_cpu_init (env k) (cpus g k))"
  show ?thesis
  proof (rule call_on_all_cpus_error [OF walk assms(1)])
    fix before k rest
    assume k: "online = before @ k # rest" "?f k = Some (Inl (FailedToEnableCPU cpu e), cpus g1 k)"
      "\<forall>j \<in> set before. ?f j = Some (Inr (), cpus g1 j)"
    have "k = cpu" using k(2) unfolding map_init_result by blast
    moreover have "in_vmx_operation (cpus g1 j) \<and> cr4_vmxe (cpus g1 j)" if "j \<in> set before" for j
      using k(3) [rule_format, OF that] vmx_cpu_init_ok unfolding map_init_result by blast
    moreover have "module_init env online is_supported msr vm_list_ok register_ok g = Some (Inl ModEINVAL, g1)"
      by (simp add: module_init_def assms(2))
    ultimately show ?thesis using k(1) by blast
  qed
qed

theorem failed_load_leaves_vmx_on_witness:
  "\<exists>g1. module_init w_env [0, 1, 2] True (\<lambda>_. Some 0) True True w_global = Some (Inl ModEINVAL, g1)
     \<and> in_vmx_operation (cpus g1 0) \<and> cr4_vmxe (cpus g1 1)"
proof -
  obtain g1 where g1: "vmx_initialize w_env [0, 1, 2] True (\<lambda>_. Some 0) w_global
      = Some (Inl (FailedToEnableCPU 2 (VmxonAllocFailed (VmxonFailed AlreadyInVmxOperation))), g1)"
    by (simp add: vmx_initialize_def vmx_load_basic_info_def vmx_cpu_init_def w_env_def w_global_def
        vmx_cpu_new_def configure_feature_control_def vmxon_region_new_def Let_def)
  obtain before rest where b: "[0, 1, 2] = before @ 2 # rest"
    and all: "\<forall>k \<in> set before. in_vmx_operation (cpus g1 k) \<and> cr4_vmxe (cpus g1 k)"
    and init: "module_init w_env [0, 1, 2] True (\<lambda>_. Some 0) True True w_global = Some (Inl ModEINVAL, g1)"
    using failed_load_leaves_vmx_on [OF _ g1, of True True] by auto
  have "before = [0, 1]" using b by (auto simp: Cons_eq_append_conv)
  then show ?thesis using all init by auto
qed

end
