(* ===== verification/Precise.thy ===== *)
theory Precise
  imports Vm_State_Laws
begin

text \<open>
  Precise exits (\<open>bedrock-vmx/src/exits/pebs.rs\<close> and the head of \<open>exits/mod.rs\<close>): the
  four kinds of deadline at which the guest has to stop on an exact instruction, the
  choice of the one the counter is armed for, the single-step window that approaches
  them, the MSR lists that switch the counters at entry and exit, and the handler of
  the exit the counter causes.

  \<open>margin\<close> is the value of \<open>get_pebs_margin\<close>. Where the code discards the result of a
  VMWRITE (\<open>let _ =\<close>) the model keeps the structure after the write.
\<close>

section \<open>Deadlines\<close>

definition IO_CHANNEL_IRQ :: u8 where "IO_CHANNEL_IRQ = 9"

definition current_tsc :: "vm_state \<Rightarrow> u64" where
  "current_tsc s = last_instruction_count s + tsc_offset s"

definition next_timer_exit_count :: "vm_state \<Rightarrow> u64 option" where
  "next_timer_exit_count s =
     (let a = apic (vs_devices s)
      in if timer_deadline a = 0 then None
         else if svr a AND push_bit 8 1 = 0 then None
         else if lvt_timer a AND push_bit 16 1 \<noteq> 0 then None
         else Some (sat_sub (timer_deadline a) (tsc_offset s)))"

definition next_io_channel_target_tsc :: "vm_state \<Rightarrow> u64 option" where
  "next_io_channel_target_tsc s =
     (let chan = io_channel s
      in if page_gpa chan = 0 then None
         else if request_len chan = 0 \<or> request_delivered chan then None
         else if request_target_tsc chan = 0 then None
         else let entry = redtbl (ioapic (vs_devices s)) ! unat IO_CHANNEL_IRQ
              in if drop_bit 16 entry AND 1 \<noteq> 0 \<or> entry AND 0xFF < 16 then None
                 else Some (request_target_tsc chan))"

definition next_io_channel_exit_count :: "vm_state \<Rightarrow> u64 option" where
  "next_io_channel_exit_count s = map_option (\<lambda>t. sat_sub t (tsc_offset s)) (next_io_channel_target_tsc s)"

definition next_single_step_start_tsc :: "vm_state \<Rightarrow> u64 option" where
  "next_single_step_start_tsc s =
     (case single_step_tsc_range s of
        None \<Rightarrow> None
      | Some (start, stop) \<Rightarrow> if current_tsc s < start then Some start else None)"

definition next_single_step_start_count :: "vm_state \<Rightarrow> u64 option" where
  "next_single_step_start_count s = map_option (\<lambda>t. sat_sub t (tsc_offset s)) (next_single_step_start_tsc s)"

definition stop_at_count :: "vm_state \<Rightarrow> u64 option" where
  "stop_at_count s = map_option (\<lambda>t. sat_sub t (tsc_offset s)) (stop_at_tsc s)"

definition get_mtf_margin :: "u64 \<Rightarrow> u64" where
  "get_mtf_margin margin = PEBS_MIN_DELTA + margin"

section \<open>Single stepping\<close>

definition in_margin :: "u64 \<Rightarrow> u64 \<Rightarrow> u64 option \<Rightarrow> bool" where
  "in_margin mtf_margin count target =
     (case target of None \<Rightarrow> False | Some t \<Rightarrow> sat_sub t mtf_margin \<le> count \<and> count < t)"

definition in_single_step :: "vm_state \<Rightarrow> bool" where
  "in_single_step s =
     (case single_step_tsc_range s of
        None \<Rightarrow> False
      | Some (start, stop) \<Rightarrow> start \<le> current_tsc s \<and> current_tsc s < stop)"

definition mtf_wanted :: "u64 \<Rightarrow> vm_state \<Rightarrow> bool" where
  "mtf_wanted margin s \<longleftrightarrow>
     in_single_step s
     \<or> (vs_pebs s \<noteq> None
        \<and> (\<exists>t \<in> {next_timer_exit_count s, next_io_channel_exit_count s, stop_at_count s, next_single_step_start_count s}.
             in_margin (get_mtf_margin margin) (last_instruction_count s) t))"

definition update_mtf_state :: "u64 \<Rightarrow> (vm_state, exit_error, unit) fallible" where
  "update_mtf_state margin s =
     (let should_enable = mtf_wanted margin s
      in if should_enable = mtf_enabled s then (Inr (), s)
         else case read32 PrimaryProcBasedVmExecControls (vs_vmcs s) of
                Inl _ \<Rightarrow> (Inl (Fatal ''Failed to read primary controls for MTF''), s)
              | Inr controls \<Rightarrow>
                  let controls = (if should_enable then controls OR cpu_based_MONITOR_TRAP_FLAG
                                  else controls AND NOT cpu_based_MONITOR_TRAP_FLAG)
                  in case write32 PrimaryProcBasedVmExecControls controls (vs_vmcs s) of
                       (Inl _, v) \<Rightarrow> (Inl (Fatal ''Failed to write primary controls for MTF''), s\<lparr>vs_vmcs := v\<rparr>)
                     | (Inr _, v) \<Rightarrow> (Inr (), s\<lparr>vs_vmcs := v, mtf_enabled := should_enable\<rparr>))"

section \<open>Arming the counter\<close>

definition min_target :: "u64 option list \<Rightarrow> u64" where
  "min_target ts = (case List.map_filter id ts of [] \<Rightarrow> 0 | t # ts \<Rightarrow> fold min ts t)"

definition chosen_target :: "vm_state \<Rightarrow> u64" where
  "chosen_target s =
     (let apic_deadline = timer_deadline (apic (vs_devices s))
      in min_target [if apic_deadline = 0 then None else Some apic_deadline, next_io_channel_target_tsc s,
                     stop_at_tsc s, next_single_step_start_tsc s])"

definition arm_for_next_iteration :: "u64 \<Rightarrow> vm_state \<Rightarrow> vm_state" where
  "arm_for_next_iteration margin s =
     (let inst_count = last_instruction_count s;
          apic_vector = ucast (lvt_timer (apic (vs_devices s)) AND 0xFF) :: u8;
          target = chosen_target s
      in case vs_pebs s of
           None \<Rightarrow> s
         | Some pebs \<Rightarrow>
             let prev_armed = (armed_action pebs \<noteq> None);
                 pebs = (if prev_armed then pebs\<lparr>iters_since_arm := sat_add (iters_since_arm pebs) 1\<rparr> else pebs);
                 (result, pebs) =
                   (if target \<noteq> 0
                    then let (r, pebs) = arm_precise_exit margin (current_tsc s) target (InjectInterrupt apic_vector)
                                           inst_count (tsc_offset s) pebs
                         in (Some r, if r \<noteq> Armed then disarm_precise_exit pebs else pebs)
                    else (None, disarm_precise_exit pebs));
                 stats = vs_stats s;
                 stats = (if prev_armed then stats\<lparr>pebs_armed_iter_no_fire := pebs_armed_iter_no_fire stats + 1\<rparr> else stats);
                 stats = (if result = Some AlreadyPast then stats\<lparr>pebs_arm_already_past := pebs_arm_already_past stats + 1\<rparr>
                          else if result = Some BelowMinDelta
                          then stats\<lparr>pebs_arm_below_min_delta := pebs_arm_below_min_delta stats + 1\<rparr> else stats)
             in s\<lparr>vs_pebs := Some pebs, vs_stats := stats\<rparr>)"

section \<open>Switching the counters\<close>

text \<open>The snapshot of the host's counters and the entry list. \<open>read\<close> is RDMSR, \<open>pmc0\<close> the
  value of the instruction counter; \<open>None\<close> is the panic without registered state.\<close>

definition pebs_pre_vm_entry :: "(msr_number \<Rightarrow> u64 option) \<Rightarrow> u64 \<Rightarrow> vm_state \<Rightarrow> vm_state option" where
  "pebs_pre_vm_entry read pmc0 s =
     (let guest_ctrl = (case read64 GuestIa32PerfGlobalCtrl (vs_vmcs s) of Inl _ \<Rightarrow> 0 | Inr x \<Rightarrow> x)
      in case vs_pebs s of
           None \<Rightarrow> None
         | Some pebs \<Rightarrow>
             let pebs = pebs\<lparr>host_msrs := \<lparr>hm_pebs_enable = or_zero (read IA32_PEBS_ENABLE), hm_ds_area = or_zero (read IA32_DS_AREA),
                               hm_fixed_ctr_ctrl = or_zero (read IA32_FIXED_CTR_CTRL), hm_fixed_ctr0 = or_zero (read IA32_FIXED_CTR0),
                               hm_pebs_data_cfg = or_zero (read MSR_PEBS_DATA_CFG)\<rparr>\<rparr>;
                 values = [pmc0, 0, counter_reload pebs, fixed_ctr_ctrl pebs, pebs_data_cfg pebs, ds_area_va pebs,
                           pebs_enable pebs, pebs_enable pebs, guest_ctrl];
                 v = snd (write64 VmEntryMsrLoadAddr (pebs_entry_msr_load_addr s) (vs_vmcs s));
                 v = snd (write32 VmEntryMsrLoadCount (of_nat (length values)) v)
             in Some (s\<lparr>vs_pebs := Some pebs, vs_vmcs := v,
                        pebs_entry_msr_load := zip (map fst (pebs_entry_msr_load s)) values\<rparr>))"

text \<open>The result holds the WRMSRs that restore the host's counters, in order. \<open>ic_phys\<close> is
  the page of the instruction counter.\<close>

definition pebs_post_vm_exit :: "u64 option \<Rightarrow> vm_state \<Rightarrow> ((msr_number \<times> u64) list \<times> vm_state) option" where
  "pebs_post_vm_exit ic_phys s =
     (let v = (case ic_phys of
                 Some phys \<Rightarrow> snd (write32 VmEntryMsrLoadCount 1 (snd (write64 VmEntryMsrLoadAddr phys (vs_vmcs s))))
               | None \<Rightarrow> snd (write32 VmEntryMsrLoadCount 0 (vs_vmcs s)))
      in case vs_pebs s of
           None \<Rightarrow> None
         | Some pebs \<Rightarrow>
             let h = host_msrs pebs
             in Some ([(IA32_FIXED_CTR_CTRL, hm_fixed_ctr_ctrl h), (IA32_FIXED_CTR0, hm_fixed_ctr0 h),
                       (IA32_DS_AREA, hm_ds_area h), (MSR_PEBS_DATA_CFG, hm_pebs_data_cfg h),
                       (IA32_PEBS_ENABLE, hm_pebs_enable h)],
                      s\<lparr>vs_vmcs := v\<rparr>))"

section \<open>The exit of the counter\<close>

text \<open>Differences of \<open>i64\<close> are kept as 64-bit words in two's complement.\<close>

definition signed_max :: "u64 \<Rightarrow> u64 \<Rightarrow> u64" where
  "signed_max a b = (if sint a \<le> sint b then b else a)"

definition handle_pebs_precise_exit :: "vm_state \<Rightarrow> exit_handler_result \<times> vm_state" where
  "handle_pebs_precise_exit s =
     (case vs_pebs s of
        None \<Rightarrow> (Continue, s)
      | Some p \<Rightarrow>
          let inst_now = last_instruction_count s;
              offset_now = tsc_offset s;
              now_tsc = sat_add inst_now offset_now;
              s = (if armed_target_tsc p \<noteq> 0
                   then let arm_current = sat_add (armed_inst_count p) (armed_tsc_offset p);
                            arm_delta = sat_sub (armed_target_tsc p) arm_current;
                            skid = now_tsc - armed_target_tsc p
                        in s\<lparr>last_pebs_skid := skid,
                             vs_stats := (vs_stats s)\<lparr>max_pebs_skid := signed_max (max_pebs_skid (vs_stats s)) skid\<rparr>,
                             last_pebs_inst_delta := inst_now - armed_inst_count p,
                             last_pebs_tsc_offset_delta := offset_now - armed_tsc_offset p,
                             last_pebs_iters_since_arm := iters_since_arm p,
                             last_pebs_arm_delta := arm_delta\<rparr>
                   else s)
          in (Continue, s\<lparr>vs_pebs := Some (p\<lparr>armed_action := None\<rparr>)\<rparr>))"

end
