(* ===== verification/Precise_Laws.thy ===== *)
theory Precise_Laws
  imports Precise
begin

text \<open>
  What the precise exits guarantee: a pending deadline never passes unobserved, as
  long as no dead timer hides it.
\<close>

section \<open>The pending deadlines and their guards\<close>

text \<open>The deadlines at which something has to happen, in emulated time.\<close>

definition pending_targets :: "vm_state \<Rightarrow> u64 set" where
  "pending_targets s =
     (if next_timer_exit_count s = None then {} else {timer_deadline (apic (vs_devices s))})
     \<union> set_option (next_io_channel_target_tsc s) \<union> set_option (stop_at_tsc s) \<union> set_option (next_single_step_start_tsc s)"

text \<open>The guest cannot run past \<open>t\<close> unobserved: it single-steps, or the counter is armed
  to stop it at least the margin before \<open>t\<close>.\<close>

definition guarded :: "u64 \<Rightarrow> u64 \<Rightarrow> vm_state \<Rightarrow> bool" where
  "guarded margin t s \<longleftrightarrow>
     mtf_enabled s
     \<or> (\<exists>p. vs_pebs s = Some p \<and> armed_action p \<noteq> None \<and> unat (armed_target_tsc p) + unat margin \<le> unat t)"

lemma fold_min: "fold min ts t \<le> (t :: u64) \<and> (\<forall>x \<in> set ts. fold min ts t \<le> x) \<and> fold min ts t \<in> set (t # ts)"
proof (induction ts arbitrary: t)
  case (Cons a ts)
  have "fold min ts (min a t) \<le> min a t" "\<forall>x \<in> set ts. fold min ts (min a t) \<le> x"
    "fold min ts (min a t) \<in> set (min a t # ts)"
    using Cons.IH [of "min a t"] by blast+
  moreover have "min a t = a \<or> min a t = t" by (auto simp: min_def)
  ultimately show ?case by (auto simp: min.commute)
qed simp

lemma min_target:
  assumes "Some t \<in> set ts"
  shows "min_target ts \<le> t" and "Some (min_target ts) \<in> set ts"
proof -
  have set: "x \<in> set (List.map_filter id ts) \<longleftrightarrow> Some x \<in> set ts" for x
    by (force simp: List.map_filter_def)
  then obtain u us where us: "List.map_filter id ts = u # us" using assms by (cases "List.map_filter id ts") force+
  then have "min_target ts = fold min us u" by (simp add: min_target_def)
  then show "min_target ts \<le> t" "Some (min_target ts) \<in> set ts"
    using fold_min [of us u] set [of t] set [of "min_target ts"] assms us by auto
qed

lemma chosen_target_least: "t \<in> pending_targets s \<Longrightarrow> chosen_target s \<le> t"
  unfolding chosen_target_def Let_def
  by (rule min_target(1)) (auto simp: pending_targets_def next_timer_exit_count_def Let_def split: if_splits)

lemma chosen_target_pending:
  assumes "t \<in> pending_targets s" and "timer_deadline (apic (vs_devices s)) = 0 \<or> next_timer_exit_count s \<noteq> None"
  shows "chosen_target s \<in> pending_targets s"
proof -
  let ?d = "timer_deadline (apic (vs_devices s))"
  let ?ts = "[if ?d = 0 then None else Some ?d, next_io_channel_target_tsc s, stop_at_tsc s, next_single_step_start_tsc s]"
  have "Some t \<in> set ?ts"
    using assms(1) by (auto simp: pending_targets_def next_timer_exit_count_def Let_def split: if_splits)
  then have "Some (chosen_target s) \<in> set ?ts" unfolding chosen_target_def Let_def by (rule min_target(2))
  then show ?thesis using assms(2) by (auto simp: pending_targets_def split: if_splits)
qed

lemma update_mtf_state_ok:
  assumes "update_mtf_state margin s = (Inr (), s')"
  obtains v where "s' = s\<lparr>vs_vmcs := v, mtf_enabled := mtf_wanted margin s\<rparr>"
proof (cases "mtf_wanted margin s = mtf_enabled s")
  case True
  then have "s' = s\<lparr>vs_vmcs := vs_vmcs s, mtf_enabled := mtf_wanted margin s\<rparr>"
    using assms by (simp add: update_mtf_state_def)
  then show ?thesis by (rule that)
next
  case False
  then obtain v where "s' = s\<lparr>vs_vmcs := v, mtf_enabled := mtf_wanted margin s\<rparr>"
    using assms by (auto simp: update_mtf_state_def Let_def split: sum.splits prod.splits)
  then show ?thesis by (rule that)
qed

text \<open>What arming reads and writes.\<close>

lemma precise_frame [simp]:
  "current_tsc (s\<lparr>vs_vmcs := v, mtf_enabled := b\<rparr>) = current_tsc s"
  "next_io_channel_target_tsc (s\<lparr>vs_vmcs := v, mtf_enabled := b\<rparr>) = next_io_channel_target_tsc s"
  "next_single_step_start_tsc (s\<lparr>vs_vmcs := v, mtf_enabled := b\<rparr>) = next_single_step_start_tsc s"
proof -
  show c: "current_tsc (s\<lparr>vs_vmcs := v, mtf_enabled := b\<rparr>) = current_tsc s" by (simp add: current_tsc_def)
  show "next_io_channel_target_tsc (s\<lparr>vs_vmcs := v, mtf_enabled := b\<rparr>) = next_io_channel_target_tsc s"
    unfolding next_io_channel_target_tsc_def Let_def by simp
  show "next_single_step_start_tsc (s\<lparr>vs_vmcs := v, mtf_enabled := b\<rparr>) = next_single_step_start_tsc s"
    unfolding next_single_step_start_tsc_def c by simp
qed

lemma chosen_target_frame [simp]:
  "chosen_target (s\<lparr>vs_vmcs := v, mtf_enabled := b\<rparr>) = chosen_target s"
  by (simp add: chosen_target_def)

lemma arm_armed:
  assumes "vs_pebs s = Some p" and "chosen_target s \<noteq> 0"
    and "arm_precise_exit margin (current_tsc s) (chosen_target s) a (last_instruction_count s) (tsc_offset s) q = (Armed, q')"
  shows "\<exists>p'. vs_pebs (arm_for_next_iteration margin s) = Some p' \<and> armed_action p' \<noteq> None
           \<and> armed_target_tsc p' = chosen_target s - margin"
  using assms by (auto simp: arm_for_next_iteration_def arm_precise_exit_def Let_def split: if_splits)

lemma arm_not_armed:
  assumes "vs_pebs s = Some p"
    and "chosen_target s = 0 \<or> chosen_target s < current_tsc s \<or> chosen_target s - current_tsc s < PEBS_MIN_DELTA + margin"
  shows "\<exists>p'. vs_pebs (arm_for_next_iteration margin s) = Some p' \<and> armed_action p' = None"
  using assms by (auto simp: arm_for_next_iteration_def arm_precise_exit_def disarm_precise_exit_def Let_def)

lemma arm_mtf [simp]: "mtf_enabled (arm_for_next_iteration margin s) = mtf_enabled s"
  by (auto simp: arm_for_next_iteration_def Let_def split: option.split prod.split)

lemma unat_current:
  "unat (last_instruction_count s) + unat (tsc_offset s) < 2 ^ 64
   \<Longrightarrow> unat (current_tsc s) = unat (last_instruction_count s) + unat (tsc_offset s)"
  by (simp add: current_tsc_def unat_add_lem [THEN iffD1])

lemma near_in_margin:
  assumes "unat (last_instruction_count s) + unat (tsc_offset s) < 2 ^ 64"
    and "current_tsc s < t" and "t - current_tsc s < m"
  shows "in_margin m (last_instruction_count s) (Some (sat_sub t (tsc_offset s)))"
proof -
  note c = unat_current [OF assms(1)]
  have "unat (t - current_tsc s) = unat t - unat (current_tsc s)"
    using assms(2) by (simp add: unat_sub order.strict_implies_order)
  then have "unat t - unat (current_tsc s) < unat m" "unat (current_tsc s) < unat t"
    using assms(2,3) by (simp_all add: word_less_nat_alt)
  then show ?thesis
    using c unfolding in_margin_def option.case word_less_nat_alt word_le_nat_alt unat_sat_sub by arith
qed

lemma near_target_single_steps:
  assumes "vs_pebs s \<noteq> None" and "unat (last_instruction_count s) + unat (tsc_offset s) < 2 ^ 64"
    and "t \<in> pending_targets s" and "current_tsc s < t" and "t - current_tsc s < PEBS_MIN_DELTA + margin"
  shows "mtf_wanted margin s"
proof -
  have "in_margin (get_mtf_margin margin) (last_instruction_count s) (Some (sat_sub t (tsc_offset s)))"
    using near_in_margin [OF assms(2,4)] assms(5) by (simp add: get_mtf_margin_def)
  moreover have "Some (sat_sub t (tsc_offset s))
      \<in> {next_timer_exit_count s, next_io_channel_exit_count s, stop_at_count s, next_single_step_start_count s}"
    using assms(3)
    by (auto simp: pending_targets_def next_timer_exit_count_def next_io_channel_exit_count_def stop_at_count_def
        next_single_step_start_count_def Let_def split: if_splits)
  ultimately show ?thesis using assms(1) unfolding mtf_wanted_def by blast
qed


definition w_stopping :: vm_state where
  "w_stopping = (w_vm w_vmcs)\<lparr>vs_pebs := Some w_pebs, stop_at_tsc := Some 5000, last_instruction_count := 1000\<rparr>"

lemma w_margin: "margin_for_host_cpu 0x806F8 = 3"
  by (simp add: margin_for_host_cpu_def host_family_model_def Let_def)

lemma w_stopping_state:
  "current_tsc w_stopping = 1000" "next_timer_exit_count w_stopping = None" "next_io_channel_target_tsc w_stopping = None"
  "single_step_tsc_range w_stopping = None" "stop_at_tsc w_stopping = Some 5000" "vs_pebs w_stopping \<noteq> None"
  "last_instruction_count w_stopping = 1000" "tsc_offset w_stopping = 0" "mtf_enabled w_stopping = False"
  "timer_deadline (apic (vs_devices w_stopping)) = 0"
  by (simp_all add: w_stopping_def w_vm_def current_tsc_def next_timer_exit_count_def next_io_channel_target_tsc_def
      io_channel_new_def device_states_new_def apic_default_def Let_def)

lemma w_stop_far:
  assumes "next_timer_exit_count s = None" "next_io_channel_target_tsc s = None" "single_step_tsc_range s = None"
    "stop_at_tsc s = Some 5000" "last_instruction_count s = 1000" "tsc_offset s = 0" "mtf_enabled s = False"
  shows "update_mtf_state 3 s = (Inr (), s)" and "pending_targets s = {5000}"
  using assms
  by (simp_all add: update_mtf_state_def mtf_wanted_def in_single_step_def next_io_channel_exit_count_def
      next_single_step_start_count_def next_single_step_start_tsc_def stop_at_count_def in_margin_def get_mtf_margin_def
      PEBS_MIN_DELTA_def sat_sub_def pending_targets_def)


text \<open>C34. The counter is armed for the earliest of all deadlines, and a timer that has
  expired while it was masked keeps its deadline. Such a timer hides the others: a
  requested stop far ahead is left without single-stepping and without an armed
  counter.\<close>

theorem masked_timer_hides_stop:
  assumes "vs_pebs s \<noteq> None" and "unat (last_instruction_count s) + unat (tsc_offset s) < 2 ^ 64"
    and "next_timer_exit_count s = None" and "timer_deadline (apic (vs_devices s)) \<noteq> 0"
    and "timer_deadline (apic (vs_devices s)) < current_tsc s"
    and "next_io_channel_target_tsc s = None" and "single_step_tsc_range s = None"
    and "stop_at_tsc s = Some t" and "unat (current_tsc s) + 257 + unat (margin_for_host_cpu eax) < unat t"
    and "update_mtf_state (margin_for_host_cpu eax) s = (Inr (), s')"
  shows "t \<in> pending_targets s \<and> \<not> guarded (margin_for_host_cpu eax) t (arm_for_next_iteration (margin_for_host_cpu eax) s')"
proof -
  let ?m = "margin_for_host_cpu eax"
  obtain v where s': "s' = s\<lparr>vs_vmcs := v, mtf_enabled := mtf_wanted ?m s\<rparr>"
    using assms(10) by (rule update_mtf_state_ok)
  obtain p where p: "vs_pebs s' = Some p" using assms(1) by (auto simp: s')
  have m: "unat (PEBS_MIN_DELTA + ?m) = 257 + unat ?m"
    using margin_small [of eax] by (auto simp: PEBS_MIN_DELTA_def)
  have "\<not> in_margin (get_mtf_margin ?m) (last_instruction_count s) (Some (sat_sub t (tsc_offset s)))"
    using assms(9) unat_current [OF assms(2)] m
    unfolding in_margin_def option.case word_less_nat_alt word_le_nat_alt unat_sat_sub get_mtf_margin_def by arith
  then have off: "\<not> mtf_wanted ?m s"
    using assms(3,6-8)
    by (simp add: mtf_wanted_def in_single_step_def next_io_channel_exit_count_def next_single_step_start_count_def
        next_single_step_start_tsc_def stop_at_count_def) (simp add: in_margin_def)
  have "timer_deadline (apic (vs_devices s)) < t" using assms(5,9) by (simp add: word_less_nat_alt)
  then have "chosen_target s = timer_deadline (apic (vs_devices s))"
    using assms(4,6-8) unfolding chosen_target_def Let_def
    by (auto simp: min_target_def List.map_filter_def next_single_step_start_tsc_def min_def)
  then have "chosen_target s' < current_tsc s'" using assms(5) by (simp add: s')
  then obtain p' where "vs_pebs (arm_for_next_iteration ?m s') = Some p'" "armed_action p' = None"
    using arm_not_armed [OF p] by blast
  then have "\<not> guarded ?m t (arm_for_next_iteration ?m s')" using off by (simp add: guarded_def s')
  then show ?thesis using assms(8) by (simp add: pending_targets_def)
qed

definition w_masked :: vm_state where
  "w_masked = w_stopping\<lparr>vs_devices := device_states_new\<lparr>apic := apic_default\<lparr>svr := 0x1FF, lvt_timer := 0x100EC, timer_deadline := 900\<rparr>\<rparr>\<rparr>"

theorem masked_timer_hides_stop_witness:
  "stop_at_tsc w_masked = Some 5000 \<and> \<not> guarded 3 5000 (arm_for_next_iteration 3 w_masked)"
proof -
  have t: "next_timer_exit_count w_masked = None" "timer_deadline (apic (vs_devices w_masked)) = 900"
    "current_tsc w_masked = 1000" "next_io_channel_target_tsc w_masked = None" "single_step_tsc_range w_masked = None"
    "stop_at_tsc w_masked = Some 5000" "vs_pebs w_masked \<noteq> None" "last_instruction_count w_masked = 1000" "tsc_offset w_masked = 0"
    "mtf_enabled w_masked = False"
    by (simp_all add: w_masked_def w_stopping_def w_vm_def current_tsc_def next_timer_exit_count_def next_io_channel_target_tsc_def
        io_channel_new_def Let_def)
  show ?thesis
    using masked_timer_hides_stop [where eax = "0x806F8" and s = w_masked and s' = w_masked and t = 5000]
    by (simp add: t w_stop_far w_margin)
qed

text \<open>C35. Two parts of the parent's processor state do not reach a fork. The page-fault
  address register is kept outside the control structure and starts at 0. And when
  the parent was single-stepping, the copied controls still trap after every
  instruction, while the fork's record says they do not, so that updating the trap
  leaves them as they are.\<close>

theorem fork_forgets_cr2_and_trap:
  assumes "vm_state_new_for_fork alloc env eptp child parent = (Inr f, parent')"
    and "vmcs_fields (vs_vmcs parent) PrimaryProcBasedVmExecControls = Some controls"
    and "\<not> mtf_wanted margin f"
  shows "guest_cr2 f = 0 \<and> vmcs_fields (vs_vmcs f) PrimaryProcBasedVmExecControls = Some controls
         \<and> \<not> mtf_enabled f \<and> update_mtf_state margin f = (Inr (), f)"
proof (rule new_for_fork_success [OF assms(1)])
  fix bitmap_addr exit_addr vpid pv
  assume v: "fork_vmcs env eptp bitmap_addr exit_addr (vs_pebs parent \<noteq> None) (vs_vmcs parent) child = (Inr vpid, pv, vs_vmcs f)"
    and f: "\<not> mtf_enabled f" "guest_cr2 f = 0"
  have "vmcs_fields (vs_vmcs f) PrimaryProcBasedVmExecControls = vmcs_fields (vs_vmcs parent) PrimaryProcBasedVmExecControls"
    by (rule fork_vmcs_success(3) [OF v]) simp
  then show ?thesis using f assms(2,3) by (simp add: update_mtf_state_def)
qed

definition w_stepping :: vm_state where
  "w_stepping = (w_vm \<lparr>vmcs_loaded = True, vmcs_fields = (\<lambda>_. Some 0)(PrimaryProcBasedVmExecControls \<mapsto> 0x8000000)\<rparr>)
     \<lparr>guest_cr2 := 0x7FFF0000, mtf_enabled := True, emulated_tsc := 5000\<rparr>"

theorem fork_forgets_cr2_and_trap_witness:
  "\<exists>f parent'. vm_state_new_for_fork (\<lambda>n. Some (0x1000 * (1 + of_nat n))) w_fork_env 0x9000
       \<lparr>vmcs_loaded = False, vmcs_fields = Map.empty\<rparr> w_stepping = (Inr f, parent')
     \<and> guest_cr2 w_stepping = 0x7FFF0000 \<and> guest_cr2 f = 0
     \<and> vmcs_fields (vs_vmcs f) PrimaryProcBasedVmExecControls = Some 0x8000000
     \<and> update_mtf_state 3 f = (Inr (), f) \<and> \<not> mtf_enabled f"
proof -
  obtain f parent' where f: "vm_state_new_for_fork (\<lambda>n. Some (0x1000 * (1 + of_nat n))) w_fork_env 0x9000
       \<lparr>vmcs_loaded = False, vmcs_fields = Map.empty\<rparr> w_stepping = (Inr f, parent')"
    and none: "vs_pebs f = None" "single_step_tsc_range f = None"
    by (simp add: vm_state_new_for_fork_def fork_vmcs_def vmcs_clear_def vmcs_load_def w_fork_env_def w_stepping_def w_vm_def
        fork_fields_def write_fields_def vmwrite_def read32_def vmread_def write16_def)
  have "\<not> mtf_wanted 3 f" using none by (simp add: mtf_wanted_def in_single_step_def)
  moreover have "vmcs_fields (vs_vmcs w_stepping) PrimaryProcBasedVmExecControls = Some 0x8000000" "guest_cr2 w_stepping = 0x7FFF0000"
    by (simp_all add: w_stepping_def w_vm_def)
  ultimately show ?thesis using fork_forgets_cr2_and_trap [OF f] f by blast
qed

end
