(* ===== verification/Exit_Handlers.thy ===== *)
theory Exit_Handlers
  imports Precise
begin

text \<open>
  The exit handlers that need no guest memory (\<open>bedrock-vmx/src/exits\<close>: \<open>helpers.rs\<close>,
  \<open>time.rs\<close>, \<open>cr.rs\<close>, \<open>io.rs\<close>, \<open>misc.rs\<close>, \<open>rdrand.rs\<close>, \<open>cpuid.rs\<close>, \<open>msr.rs\<close>). A handler takes
  the VM state to a result and the state after it; the state after a failed VMREAD or
  VMWRITE is the one the code leaves behind.

  \<open>now\<close> is the host's time stamp counter, read when an event is recorded; \<open>cpuid\<close> is
  the host's CPUID instruction.
\<close>

type_synonym handler = "vm_state \<Rightarrow> exit_handler_result \<times> vm_state"

section \<open>Helpers\<close>

definition read_exit_reason :: "vm_state \<Rightarrow> exit_error + exit_reason" where
  "read_exit_reason s =
     (case read32 VmExitReason (vs_vmcs s) of
        Inl _ \<Rightarrow> Inl VmcsReadError
      | Inr raw \<Rightarrow> map_sum UnknownExitReason id (exit_reason_try_from raw))"

definition read_exit_qualification :: "vm_state \<Rightarrow> exit_error + u64" where
  "read_exit_qualification s = map_sum (\<lambda>_. VmcsReadError) id (read_natural ExitQualification (vs_vmcs s))"

definition advance_rip :: "(vm_state, exit_error, unit) fallible" where
  "advance_rip s =
     (case read_natural GuestRip (vs_vmcs s) of
        Inl _ \<Rightarrow> (Inl VmcsReadError, s)
      | Inr rip \<Rightarrow>
          (case read32 VmExitInstructionLen (vs_vmcs s) of
             Inl _ \<Rightarrow> (Inl VmcsReadError, s)
           | Inr len \<Rightarrow>
               (case write_natural GuestRip (rip + ucast len) (vs_vmcs s) of
                  (Inl _, v) \<Rightarrow> (Inl (Fatal ''Failed to write guest RIP''), s\<lparr>vs_vmcs := v\<rparr>)
                | (Inr _, v) \<Rightarrow> (Inr (), s\<lparr>vs_vmcs := v\<rparr>))))"

text \<open>The common tail of the handlers: advance past the instruction, then the result.\<close>

definition advance_then :: "exit_handler_result \<Rightarrow> handler" where
  "advance_then result s =
     (case advance_rip s of (Inl e, s') \<Rightarrow> (HandlerError e, s') | (Inr _, s') \<Rightarrow> (result, s'))"

definition inject_exception :: "interruption_info \<Rightarrow> u32 option \<Rightarrow> (vm_state, exit_error, unit) fallible" where
  "inject_exception info error_code s =
     (case write32 VmEntryInterruptionInfo (interruption_info_encode info) (vs_vmcs s) of
        (Inl _, v) \<Rightarrow> (Inl (Fatal ''Failed to write interruption info''), s\<lparr>vs_vmcs := v\<rparr>)
      | (Inr _, v) \<Rightarrow>
          (case error_code of
             None \<Rightarrow> (Inr (), s\<lparr>vs_vmcs := v\<rparr>)
           | Some ec \<Rightarrow>
               (case write32 VmEntryExceptionErrorCode ec v of
                  (Inl _, v) \<Rightarrow> (Inl (Fatal ''Failed to write error code''), s\<lparr>vs_vmcs := v\<rparr>)
                | (Inr _, v) \<Rightarrow> (Inr (), s\<lparr>vs_vmcs := v\<rparr>))))"

definition emit_randomness_event :: "random_payload \<Rightarrow> bytes \<Rightarrow> u64 \<Rightarrow> vm_state \<Rightarrow> vm_state" where
  "emit_randomness_event payload bs now s =
     snd (event_append EventKind_Randomness (random_payload_bytes payload @ take (min (length bs) RANDOM_REPLY_MAX) bs) now s)"

section \<open>Time\<close>

definition handle_rdtsc :: handler where
  "handle_rdtsc s =
     (let tsc = emulated_tsc s
      in advance_then Continue (s\<lparr>vs_gprs := (vs_gprs s)\<lparr>rax := tsc AND 0xFFFFFFFF, rdx := drop_bit 32 tsc\<rparr>\<rparr>))"

definition handle_rdtscp :: handler where
  "handle_rdtscp s =
     (let tsc = emulated_tsc s
      in advance_then Continue
           (s\<lparr>vs_gprs := (vs_gprs s)\<lparr>rax := tsc AND 0xFFFFFFFF, rdx := drop_bit 32 tsc,
                                       rcx := msr_tsc_aux (msr_state s) AND 0xFFFFFFFF\<rparr>\<rparr>))"

definition handle_rdpmc :: handler where
  "handle_rdpmc s = advance_then Continue (s\<lparr>vs_gprs := (vs_gprs s)\<lparr>rax := 0, rdx := 0\<rparr>\<rparr>)"

definition idle_target :: "vm_state \<Rightarrow> u64 option" where
  "idle_target s =
     (let deadline = timer_deadline (apic (vs_devices s))
      in if 0 < deadline
         then let wake = (case next_io_channel_target_tsc s of Some i \<Rightarrow> min deadline i | None \<Rightarrow> deadline)
              in Some (case stop_at_tsc s of Some stop \<Rightarrow> min wake stop | None \<Rightarrow> wake)
         else None)"

definition handle_idle :: handler where
  "handle_idle s =
     (let now_tsc = emulated_tsc s;
          s = (case idle_target s of
                 None \<Rightarrow> s
               | Some target \<Rightarrow>
                   if now_tsc < target
                   then s\<lparr>tsc_offset := tsc_offset s + (target - now_tsc), emulated_tsc := target\<rparr> else s)
      in advance_then Continue s)"

section \<open>Control registers\<close>

definition get_gpr_value :: "gprs \<Rightarrow> u8 \<Rightarrow> u64" where
  "get_gpr_value g i =
     (if i = 0 then rax g else if i = 1 then rcx g else if i = 2 then rdx g else if i = 3 then rbx g
      else if i = 4 then rsp g else if i = 5 then rbp g else if i = 6 then rsi g else if i = 7 then rdi g
      else if i = 8 then r8 g else if i = 9 then r9 g else if i = 10 then r10 g else if i = 11 then r11 g
      else if i = 12 then r12 g else if i = 13 then r13 g else if i = 14 then r14 g else if i = 15 then r15 g else 0)"

definition set_gpr_value :: "u8 \<Rightarrow> u64 \<Rightarrow> gprs \<Rightarrow> gprs" where
  "set_gpr_value i x g =
     (if i = 0 then g\<lparr>rax := x\<rparr> else if i = 1 then g\<lparr>rcx := x\<rparr> else if i = 2 then g\<lparr>rdx := x\<rparr> else if i = 3 then g\<lparr>rbx := x\<rparr>
      else if i = 4 then g\<lparr>rsp := x\<rparr> else if i = 5 then g\<lparr>rbp := x\<rparr> else if i = 6 then g\<lparr>rsi := x\<rparr> else if i = 7 then g\<lparr>rdi := x\<rparr>
      else if i = 8 then g\<lparr>r8 := x\<rparr> else if i = 9 then g\<lparr>r9 := x\<rparr> else if i = 10 then g\<lparr>r10 := x\<rparr> else if i = 11 then g\<lparr>r11 := x\<rparr>
      else if i = 12 then g\<lparr>r12 := x\<rparr> else if i = 13 then g\<lparr>r13 := x\<rparr> else if i = 14 then g\<lparr>r14 := x\<rparr>
      else if i = 15 then g\<lparr>r15 := x\<rparr> else g)"

text \<open>The value written to CR0 and CR4: what the guest asked for, with the bits the
  processor fixes.\<close>

definition constrained_cr :: "u64 \<Rightarrow> u64 \<Rightarrow> u64 \<Rightarrow> u64" where
  "constrained_cr fixed0 fixed1 x =
     (let ones_mask = fixed0 AND fixed1; zeros_mask = NOT fixed0 AND NOT fixed1
      in (x OR ones_mask) AND NOT zeros_mask)"

definition mov_to_cr :: "vmx_capabilities \<Rightarrow> u8 \<Rightarrow> u64 \<Rightarrow> (vmcs, exit_error, unit) fallible" where
  "mov_to_cr caps number x v =
     (if number = 0 then
        (case write_fields [(GuestCr0, constrained_cr (cr0_fixed0 caps) (cr0_fixed1 caps) x), (Cr0ReadShadow, x)] v of
           (Inl _, v) \<Rightarrow> (Inl (Fatal ''Failed to write CR0''), v) | (Inr _, v) \<Rightarrow> (Inr (), v))
      else if number = 3 then
        (case write_natural GuestCr3 (x AND NOT (push_bit 63 1)) v of
           (Inl _, v) \<Rightarrow> (Inl (Fatal ''Failed to write CR3''), v) | (Inr _, v) \<Rightarrow> (Inr (), v))
      else if number = 4 then
        (case write_fields [(GuestCr4, constrained_cr (cr4_fixed0 caps) (cr4_fixed1 caps) x), (Cr4ReadShadow, x)] v of
           (Inl _, v) \<Rightarrow> (Inl (Fatal ''Failed to write CR4''), v) | (Inr _, v) \<Rightarrow> (Inr (), v))
      else if number = 8 then (Inr (), v)
      else (Inl (Fatal ''Write to unsupported CR''), v))"

text \<open>\<open>read-modify-write\<close> of CR0 and its shadow, for CLTS and LMSW.\<close>

definition update_cr0 :: "(u64 \<Rightarrow> u64) \<Rightarrow> string \<Rightarrow> (vmcs, exit_error, unit) fallible" where
  "update_cr0 f name v =
     (case read_natural GuestCr0 v of
        Inl _ \<Rightarrow> (Inl VmcsReadError, v)
      | Inr x \<Rightarrow>
          (case write_natural GuestCr0 (f x) v of
             (Inl _, v) \<Rightarrow> (Inl (Fatal (''Failed to write CR0 for '' @ name)), v)
           | (Inr _, v) \<Rightarrow>
               (case write_natural Cr0ReadShadow (f x) v of
                  (Inl _, v) \<Rightarrow> (Inl (Fatal (''Failed to write CR0 shadow for '' @ name)), v)
                | (Inr _, v) \<Rightarrow> (Inr (), v))))"

definition handle_cr_access :: "vmx_capabilities \<Rightarrow> cr_access_qualification \<Rightarrow> handler" where
  "handle_cr_access caps qual s =
     (let lift = (\<lambda>r. case r of (Inl e, v) \<Rightarrow> (HandlerError e, s\<lparr>vs_vmcs := v\<rparr>)
                               | (Inr _, v) \<Rightarrow> advance_then Continue (s\<lparr>vs_vmcs := v\<rparr>))
      in case access_type qual of
           MovToCr \<Rightarrow> lift (mov_to_cr caps (cr_number qual) (get_gpr_value (vs_gprs s) (register qual)) (vs_vmcs s))
         | MovFromCr \<Rightarrow>
             if cr_number qual \<notin> {0, 3, 4, 8} then (HandlerError (Fatal ''Read from unsupported CR''), s)
             else (case (if cr_number qual = 0 then read_natural GuestCr0 (vs_vmcs s)
                         else if cr_number qual = 3 then read_natural GuestCr3 (vs_vmcs s)
                         else if cr_number qual = 4 then read_natural GuestCr4 (vs_vmcs s) else Inr 0) of
                     Inl _ \<Rightarrow> (HandlerError VmcsReadError, s)
                   | Inr x \<Rightarrow> advance_then Continue (s\<lparr>vs_gprs := set_gpr_value (register qual) x (vs_gprs s)\<rparr>))
         | Clts \<Rightarrow> lift (update_cr0 (\<lambda>x. x AND NOT (push_bit 3 1)) ''CLTS'' (vs_vmcs s))
         | Lmsw \<Rightarrow> lift (update_cr0 (\<lambda>x. (x AND 0xFFFFFFF0) OR (ucast (lmsw_source_data qual) AND 0xF)) ''LMSW'' (vs_vmcs s)))"

section \<open>Port input and output\<close>

definition set_serial :: "(serial_state \<Rightarrow> serial_state) \<Rightarrow> vm_state \<Rightarrow> vm_state" where
  "set_serial f s = s\<lparr>vs_devices := (vs_devices s)\<lparr>serial := f (serial (vs_devices s))\<rparr>\<rparr>"

definition dlab :: "vm_state \<Rightarrow> bool" where
  "dlab s \<longleftrightarrow> lcr (serial (vs_devices s)) AND 0x80 \<noteq> 0"

definition io_out :: "u64 \<Rightarrow> u16 \<Rightarrow> u8 \<Rightarrow> vm_state \<Rightarrow> vm_state" where
  "io_out now port byte s =
     (if port = 0x3F8 then (if dlab s then set_serial (\<lambda>d. d\<lparr>dll := byte\<rparr>) s else snd (event_serial_byte byte now s))
      else if port = 0x3F9 then
        (if dlab s then set_serial (\<lambda>d. d\<lparr>dlh := byte\<rparr>) s
         else let s = set_serial (\<lambda>d. d\<lparr>ier := byte AND 0x0F\<rparr>) s
              in if byte AND 0x02 \<noteq> 0 then s\<lparr>vs_devices := ioapic_deliver_irq 4 (vs_devices s)\<rparr> else s)
      else if port = 0x3FB then set_serial (\<lambda>d. d\<lparr>lcr := byte\<rparr>) s
      else if port = 0x3FC then set_serial (\<lambda>d. d\<lparr>mcr := byte AND 0x1F\<rparr>) s
      else if port = 0x3FF then set_serial (\<lambda>d. d\<lparr>scr := byte\<rparr>) s
      else if port = 0x70 then
        s\<lparr>vs_devices := (vs_devices s)\<lparr>rtc := (rtc (vs_devices s))\<lparr>rtc_index := byte AND 0x7F\<rparr>\<rparr>\<rparr>
      else s)"

definition io_in :: "nat \<Rightarrow> u16 \<Rightarrow> vm_state \<Rightarrow> u32" where
  "io_in bytes_wide port s =
     (let d = serial (vs_devices s)
      in if port = 0x3F8 then (if dlab s then ucast (dll d) else 0)
         else if port = 0x3F9 then (if dlab s then ucast (dlh d) else ucast (ier d))
         else if port = 0x3FA then (if ier d AND 0x02 \<noteq> 0 then 0xC2 else 0xC1)
         else if port = 0x3FB then ucast (lcr d)
         else if port = 0x3FC then ucast (mcr d)
         else if port = 0x3FD then 0x60
         else if port = 0x3FE then 0xB0
         else if port = 0x3FF then ucast (scr d)
         else if 0xCFC \<le> port \<and> port \<le> 0xCFF then drop_bit ((4 - bytes_wide) * 8) 0xFFFFFFFF
         else if port = 0x60 then 0
         else if port = 0x64 then 0xFF
         else if port = 0x71 then ucast (read_register_with_tsc (emulated_tsc s) (tsc_frequency s) (rtc (vs_devices s)))
         else 0)"

definition handle_io :: "u64 \<Rightarrow> io_qualification \<Rightarrow> handler" where
  "handle_io now qual s =
     (if io_string qual then (ExitToUserspace ExitReason_IoInstruction, s)
      else let width = io_access_bytes (io_size qual); mask = push_bit (width * 8) 1 - 1 :: u64
           in advance_then Continue
                (case io_dir qual of
                   IoOut \<Rightarrow> io_out now (io_port qual) (ucast (ucast (rax (vs_gprs s)) AND (ucast mask :: u32) AND 0xFF)) s
                 | IoIn \<Rightarrow> s\<lparr>vs_gprs := (vs_gprs s)\<lparr>rax := (rax (vs_gprs s) AND NOT mask)
                                                         OR (ucast (io_in width (io_port qual) s) AND mask)\<rparr>\<rparr>))"

section \<open>Exceptions and extended control registers\<close>

definition handle_exception_nmi :: handler where
  "handle_exception_nmi s =
     (case read32 VmExitInterruptionInfo (vs_vmcs s) of
        Inl _ \<Rightarrow> (HandlerError VmcsReadError, s)
      | Inr raw \<Rightarrow>
          let info = interruption_info_from raw
          in if interruption_type info = Nmi then (Continue, s)
             else if int_vector info = 14 \<and> intercept_pf s then
               let error_code = (case read32 VmExitInterruptionErrorCode (vs_vmcs s) of Inl _ \<Rightarrow> 0 | Inr e \<Rightarrow> e);
                   s = s\<lparr>guest_cr2 := natural_or_zero ExitQualification s\<rparr>
               in case inject_exception \<lparr>int_vector = 14, interruption_type = HardwareException, error_code_valid = True,
                                         nmi_unblocking = False, int_valid = True\<rparr> (Some error_code) s of
                    (Inl e, s) \<Rightarrow> (HandlerError e, s)
                  | (Inr _, s) \<Rightarrow> (Continue, s)
             else (ExitToUserspace ExitReason_ExceptionNmi, s))"

definition handle_xsetbv :: handler where
  "handle_xsetbv s =
     (let xcr_num = ucast (rcx (vs_gprs s)) :: u32;
          value = push_bit 32 (rdx (vs_gprs s)) OR (rax (vs_gprs s) AND 0xFFFFFFFF)
      in if xcr_num \<noteq> 0 then (ExitToUserspace ExitReason_Xsetbv, s)
         else if value AND 1 = 0 then (ExitToUserspace ExitReason_Xsetbv, s)
         else if value AND 4 \<noteq> 0 \<and> value AND 2 = 0 then (ExitToUserspace ExitReason_Xsetbv, s)
         else advance_then Continue (s\<lparr>xcr0_mask := value\<rparr>))"

section \<open>Random numbers\<close>

definition write_gpr_by_index :: "u8 \<Rightarrow> u64 \<Rightarrow> rdrand_operand_size \<Rightarrow> gprs \<Rightarrow> gprs" where
  "write_gpr_by_index i x sz g =
     (if 15 < i then g
      else case sz of
             Size16 \<Rightarrow> set_gpr_value i ((get_gpr_value g i AND NOT 0xFFFF) OR (x AND 0xFFFF)) g
           | Size32 \<Rightarrow> set_gpr_value i (x AND 0xFFFFFFFF) g
           | Size64 \<Rightarrow> set_gpr_value i x g)"

definition set_cf_flag :: "bool \<Rightarrow> (vm_state, exit_error, unit) fallible" where
  "set_cf_flag cf s =
     (case read_natural GuestRflags (vs_vmcs s) of
        Inl _ \<Rightarrow> (Inl (Fatal ''Failed to read guest RFLAGS''), s)
      | Inr rflags \<Rightarrow>
          (case write_natural GuestRflags (if cf then rflags OR 1 else rflags AND NOT 1) (vs_vmcs s) of
             (Inl _, v) \<Rightarrow> (Inl (Fatal ''Failed to write guest RFLAGS''), s\<lparr>vs_vmcs := v\<rparr>)
           | (Inr _, v) \<Rightarrow> (Inr (), s\<lparr>vs_vmcs := v\<rparr>)))"

definition handle_random :: "u64 \<Rightarrow> random_source \<Rightarrow> handler" where
  "handle_random now source s =
     (case read32 VmExitInstructionInfo (vs_vmcs s) of
        Inl _ \<Rightarrow> (HandlerError (Fatal ''Failed to read VM-exit instruction info''), s)
      | Inr raw \<Rightarrow>
          let info = rdrand_instruction_info_from raw
          in if needs_rdrand_exit (rng (vs_devices s)) then (ExitToUserspace ExitReason_Rdrand, s)
             else
               let (v, r) = generate (rng (vs_devices s));
                   s = s\<lparr>vs_devices := (vs_devices s)\<lparr>rng := r\<rparr>\<rparr>
               in case v of
                    None \<Rightarrow> (ExitToUserspace ExitReason_Rdrand, s)
                  | Some x \<Rightarrow>
                      let width = (case operand_size info of Size16 \<Rightarrow> 2 | Size32 \<Rightarrow> 4 | Size64 \<Rightarrow> 8);
                          s = emit_randomness_event \<lparr>rp_value = x, rp_pid = 0, rp_source = random_source_as_u8 source,
                                                     rp_width = width\<rparr> [] now s;
                          s = s\<lparr>vs_gprs := write_gpr_by_index (dest_reg info) x (operand_size info) (vs_gprs s)\<rparr>
                      in case set_cf_flag True s of
                           (Inl e, s) \<Rightarrow> (HandlerError e, s)
                         | (Inr _, s) \<Rightarrow> advance_then Continue s)"

definition handle_rdrand :: "u64 \<Rightarrow> handler" where
  "handle_rdrand now = handle_random now Source_Rdrand"

definition handle_rdseed :: "u64 \<Rightarrow> handler" where
  "handle_rdseed now = handle_random now Source_Rdseed"

section \<open>CPUID\<close>

type_synonym cpuid_regs = "u32 \<times> u32 \<times> u32 \<times> u32"

definition filter_leaf_7 :: "u32 \<Rightarrow> cpuid_regs \<Rightarrow> cpuid_regs" where
  "filter_leaf_7 subleaf = (\<lambda>(eax, ebx, ecx, edx).
     if subleaf = 0
     then (eax,
           fold (\<lambda>k x. x AND NOT (push_bit k 1)) [2, 4, 7, 11, 16, 17, 18, 19, 20, 21, 26, 27, 28, 30, 31] ebx, 0, 0)
     else (0, 0, 0, 0))"

definition leaf_d :: "u32 \<Rightarrow> cpuid_regs" where
  "leaf_d subleaf =
     (if subleaf = 0 then (7, 832, 832, 0) else if subleaf = 1 then (0, 0, 0, 0)
      else if subleaf = 2 then (256, 576, 0, 0) else (0, 0, 0, 0))"

definition filter_cpuid :: "u64 \<Rightarrow> u32 \<Rightarrow> u32 \<Rightarrow> cpuid_regs \<Rightarrow> cpuid_regs" where
  "filter_cpuid freq leaf subleaf host =
     (let (eax, ebx, ecx, edx) = host
      in if leaf = 0 then (if 0x16 < eax then 0x16 else eax, ebx, ecx, edx)
         else if leaf = 1 then
           (0x00050657, (ebx AND 0x0000FFFF) OR 0x00010000,
            (ecx AND NOT (push_bit 5 1) AND NOT (push_bit 24 1)) OR push_bit 31 1, edx AND NOT (push_bit 28 1))
         else if leaf = 4 then (if subleaf = 0 then eax AND NOT 0x3FFC000 else eax, ebx, ecx, edx)
         else if leaf = 6 then (0, 0, 0, 0)
         else if leaf = 7 then filter_leaf_7 subleaf host
         else if leaf = 0xD then leaf_d subleaf
         else if leaf = 0xB \<or> leaf = 0x1F then
           (if subleaf = 0 \<or> subleaf = 1 then (eax, 0, (ecx AND 0xFFFFFF00) OR subleaf, 0) else (0, 0, subleaf, 0))
         else if leaf = 0x80000000 then (if eax < 0x80000004 then 0x80000004 else eax, ebx, ecx, edx)
         else if leaf = 0x80000002 then (0x72646542, 0x206B636F, 0x43204D56, 0x20205550)
         else if leaf = 0x80000003 \<or> leaf = 0x80000004 then (0x20202020, 0x20202020, 0x20202020, 0)
         else if leaf = 0xA then (0, 0, 0, 0)
         else if leaf = 0x15 then (1, 1, ucast (freq AND 0xFFFFFFFF), 0)
         else if leaf = 0x80000008 then (eax, ebx, ecx AND 0xFFFFFF00, edx)
         else if leaf = 0x16 then (3000, 5800, 100, 0)
         else (0, 0, 0, 0))"

definition handle_cpuid :: "(u32 \<Rightarrow> u32 \<Rightarrow> cpuid_regs) \<Rightarrow> handler" where
  "handle_cpuid cpuid s =
     (let g = vs_gprs s; leaf = ucast (rax g) :: u32; subleaf = ucast (rcx g) :: u32;
          (eax, ebx, ecx, edx) = filter_cpuid (tsc_frequency s) leaf subleaf (cpuid leaf subleaf)
      in advance_then Continue (s\<lparr>vs_gprs := g\<lparr>rax := ucast eax, rbx := ucast ebx, rcx := ucast ecx, rdx := ucast edx\<rparr>\<rparr>))"

section \<open>Model-specific registers\<close>

definition FAKE_MICROCODE_VERSION :: u64 where "FAKE_MICROCODE_VERSION = 0x100000000"

definition misc_enable_for_guest :: "u64 \<Rightarrow> u64" where
  "misc_enable_for_guest host = (host OR (push_bit 11 1 OR push_bit 12 1)) AND NOT (push_bit 18 1)"

text \<open>The registers that read as zero.\<close>

definition zero_msrs :: "msr_number list" where
  "zero_msrs =
     [IA32_MCG_CAP, IA32_MCG_STATUS, IA32_SPEC_CTRL, IA32_PRED_CMD, IA32_TSC_ADJUST, IA32_TSC_DEADLINE,
      IA32_THERM_INTERRUPT, IA32_THERM_STATUS, IA32_PACKAGE_THERM_STATUS, IA32_PACKAGE_THERM_INTERRUPT,
      IA32_PPIN_CTL, IA32_PERF_CAPABILITIES, IA32_LBR_TOS, IA32_OFFCORE_RSP_0, IA32_OFFCORE_RSP_1,
      IA32_PEBS_LD_LAT_THRESHOLD, IA32_PEBS_FRONTEND, IA32_PERFEVTSEL0, IA32_PERFEVTSEL1, IA32_PERFEVTSEL2,
      IA32_PERFEVTSEL3, IA32_PERFEVTSEL4, IA32_PERFEVTSEL5, IA32_PERFEVTSEL6, IA32_PERFEVTSEL7,
      IA32_FIXED_CTR_CTRL, IA32_PMC0, IA32_PMC1, IA32_PMC2, IA32_PMC3, IA32_PMC4, IA32_PMC5, IA32_PMC6, IA32_PMC7,
      IA32_MPERF, IA32_APERF, MSR_ATOM_CORE_RATIOS, MSR_ATOM_CORE_VIDS, MSR_ATOM_CORE_TURBO_RATIOS,
      IA32_MISC_FEATURES_ENABLES, IA32_RTIT_CTL, MSR_PKG_ENERGY_STATUS, MSR_DRAM_ENERGY_STATUS,
      MSR_PP0_ENERGY_STATUS, MSR_PP1_ENERGY_STATUS, MSR_PKG_POWER_LIMIT, MSR_PKG_POWER_INFO, MSR_DRAM_POWER_LIMIT,
      MSR_DRAM_POWER_INFO, MSR_PP0_POWER_LIMIT, MSR_PP1_POWER_LIMIT, MSR_PKG_CST_CONFIG_CONTROL, MSR_POWER_CTL,
      MSR_PPERF, MSR_MISC_PWR_MGMT, IA32_PM_ENABLE, IA32_HWP_CAPABILITIES, IA32_HWP_INTERRUPT, IA32_HWP_REQUEST,
      IA32_HWP_STATUS, IA32_PERF_STATUS, IA32_PERF_CTL, IA32_ENERGY_PERF_BIAS, MSR_OC_MAILBOX, MSR_SMI_COUNT,
      MSR_AMD64_DE_CFG, IA32_MKTME_KEYID_PARTITIONING]"

text \<open>The value RDMSR returns; \<open>None\<close> for a register that user space has to handle.\<close>

definition msr_read_value :: "msr_number \<Rightarrow> vm_state \<Rightarrow> u64 option" where
  "msr_read_value msr s =
     (let d = vs_devices s; m = mtrr d
      in if msr = IA32_MISC_ENABLE then Some (misc_enable_for_guest (misc_enable (vs_host s)))
         else if msr = IA32_BIOS_SIGN_ID then Some FAKE_MICROCODE_VERSION
         else if msr \<in> set zero_msrs then Some 0
         else if msr = IA32_MTRRCAP then Some (push_bit 10 1 OR push_bit 8 1 OR of_nat MTRR_VAR_MAX)
         else if msr = IA32_MTRR_DEF_TYPE then Some (def_type m)
         else if IA32_MTRR_PHYSBASE0 \<le> msr \<and> msr \<le> IA32_MTRR_PHYSMASK9 then
           (let off = unat (msr - IA32_MTRR_PHYSBASE0); i = off div 2
            in if i < MTRR_VAR_MAX then Some (if even off then fst (mtrr_var m ! i) else snd (mtrr_var m ! i)) else Some 0)
         else if msr = IA32_MTRR_FIX64K_00000 then Some (fixed_64k m)
         else if msr = IA32_MTRR_FIX16K_80000 \<or> msr = IA32_MTRR_FIX16K_A0000 then
           Some (fixed_16k m ! unat (msr - IA32_MTRR_FIX16K_80000))
         else if IA32_MTRR_FIX4K_C0000 \<le> msr \<and> msr \<le> IA32_MTRR_FIX4K_F8000 then
           (let i = unat (msr - IA32_MTRR_FIX4K_C0000) in Some (if i < 8 then fixed_4k m ! i else 0))
         else if msr = IA32_PAT then Some (msr_pat (msr_state s))
         else if msr = IA32_APIC_BASE then Some (apic_base (apic d))
         else if msr = IA32_TSC_AUX then Some (msr_tsc_aux (msr_state s))
         else if msr = IA32_FEATURE_CONTROL then Some 1
         else if msr = IA32_PLATFORM_INFO then Some (platform_info (vs_host s))
         else if msr = MSR_RAPL_POWER_UNIT then Some 0x000A1003
         else None)"

definition handle_msr_read :: handler where
  "handle_msr_read s =
     (case msr_read_value (ucast (rcx (vs_gprs s))) s of
        None \<Rightarrow> advance_then (ExitToUserspace ExitReason_MsrRead) s
      | Some x \<Rightarrow> advance_then Continue (s\<lparr>vs_gprs := (vs_gprs s)\<lparr>rax := x AND 0xFFFFFFFF, rdx := drop_bit 32 x\<rparr>\<rparr>))"

text \<open>The registers whose writes are ignored.\<close>

definition ignored_msr_writes :: "msr_number list" where
  "ignored_msr_writes =
     [IA32_MISC_ENABLE, IA32_BIOS_SIGN_ID, IA32_MCG_CAP, IA32_MCG_STATUS, IA32_SPEC_CTRL, IA32_PRED_CMD,
      IA32_TSC_ADJUST, IA32_TSC_DEADLINE, IA32_MTRRCAP, IA32_FEATURE_CONTROL, IA32_PLATFORM_INFO,
      IA32_THERM_INTERRUPT, IA32_THERM_STATUS, IA32_PACKAGE_THERM_STATUS, IA32_PACKAGE_THERM_INTERRUPT,
      IA32_PPIN_CTL, IA32_PERF_CAPABILITIES, IA32_LBR_TOS, IA32_OFFCORE_RSP_0, IA32_OFFCORE_RSP_1,
      IA32_PEBS_LD_LAT_THRESHOLD, IA32_PEBS_FRONTEND, IA32_PERFEVTSEL0, IA32_PERFEVTSEL1, IA32_PERFEVTSEL2,
      IA32_PERFEVTSEL3, IA32_PERFEVTSEL4, IA32_PERFEVTSEL5, IA32_PERFEVTSEL6, IA32_PERFEVTSEL7,
      IA32_FIXED_CTR_CTRL, IA32_PMC0, IA32_PMC1, IA32_PMC2, IA32_PMC3, IA32_PMC4, IA32_PMC5, IA32_PMC6, IA32_PMC7,
      IA32_MPERF, IA32_APERF, MSR_ATOM_CORE_RATIOS, MSR_ATOM_CORE_VIDS, MSR_ATOM_CORE_TURBO_RATIOS,
      IA32_MISC_FEATURES_ENABLES, IA32_RTIT_CTL, MSR_RAPL_POWER_UNIT, MSR_PKG_POWER_LIMIT, MSR_PKG_ENERGY_STATUS,
      MSR_PKG_POWER_INFO, MSR_DRAM_POWER_LIMIT, MSR_DRAM_ENERGY_STATUS, MSR_DRAM_POWER_INFO, MSR_PP0_POWER_LIMIT,
      MSR_PP0_ENERGY_STATUS, MSR_PP1_POWER_LIMIT, MSR_PP1_ENERGY_STATUS, MSR_PKG_CST_CONFIG_CONTROL, MSR_POWER_CTL,
      MSR_PPERF, MSR_MISC_PWR_MGMT, IA32_PM_ENABLE, IA32_HWP_CAPABILITIES, IA32_HWP_INTERRUPT, IA32_HWP_REQUEST,
      IA32_HWP_STATUS, IA32_PERF_STATUS, IA32_PERF_CTL, IA32_ENERGY_PERF_BIAS, MSR_OC_MAILBOX]"

definition set_mtrr :: "(mtrr_state \<Rightarrow> mtrr_state) \<Rightarrow> vm_state \<Rightarrow> vm_state" where
  "set_mtrr f s = s\<lparr>vs_devices := (vs_devices s)\<lparr>mtrr := f (mtrr (vs_devices s))\<rparr>\<rparr>"

text \<open>The effect of WRMSR; \<open>None\<close> for a write that user space has to handle.\<close>

definition msr_write_effect :: "msr_number \<Rightarrow> u64 \<Rightarrow> vm_state \<Rightarrow> vm_state option" where
  "msr_write_effect msr x s =
     (if msr \<in> set ignored_msr_writes then Some s
      else if msr = IA32_MTRR_DEF_TYPE then Some (set_mtrr (\<lambda>m. m\<lparr>def_type := x\<rparr>) s)
      else if IA32_MTRR_PHYSBASE0 \<le> msr \<and> msr \<le> IA32_MTRR_PHYSMASK9 then
        (let off = unat (msr - IA32_MTRR_PHYSBASE0); i = off div 2
         in Some (if i < MTRR_VAR_MAX
                  then set_mtrr (\<lambda>m. m\<lparr>mtrr_var := (mtrr_var m)[i := (if even off then (x, snd (mtrr_var m ! i))
                                                                        else (fst (mtrr_var m ! i), x))]\<rparr>) s
                  else s))
      else if msr = IA32_MTRR_FIX64K_00000 then Some (set_mtrr (\<lambda>m. m\<lparr>fixed_64k := x\<rparr>) s)
      else if msr = IA32_MTRR_FIX16K_80000 \<or> msr = IA32_MTRR_FIX16K_A0000 then
        Some (set_mtrr (\<lambda>m. m\<lparr>fixed_16k := (fixed_16k m)[unat (msr - IA32_MTRR_FIX16K_80000) := x]\<rparr>) s)
      else if IA32_MTRR_FIX4K_C0000 \<le> msr \<and> msr \<le> IA32_MTRR_FIX4K_F8000 then
        (let i = unat (msr - IA32_MTRR_FIX4K_C0000)
         in Some (if i < 8 then set_mtrr (\<lambda>m. m\<lparr>fixed_4k := (fixed_4k m)[i := x]\<rparr>) s else s))
      else if msr = IA32_PAT then Some (s\<lparr>msr_state := (msr_state s)\<lparr>msr_pat := x\<rparr>\<rparr>)
      else if msr = IA32_APIC_BASE then (if apic_base (apic (vs_devices s)) \<noteq> x then None else Some s)
      else if msr = IA32_TSC_AUX then Some (s\<lparr>msr_state := (msr_state s)\<lparr>msr_tsc_aux := x\<rparr>\<rparr>)
      else None)"

definition handle_msr_write :: handler where
  "handle_msr_write s =
     (let g = vs_gprs s; value = push_bit 32 (rdx g AND 0xFFFFFFFF) OR (rax g AND 0xFFFFFFFF)
      in case msr_write_effect (ucast (rcx g)) value s of
           None \<Rightarrow> advance_then (ExitToUserspace ExitReason_MsrWrite) s
         | Some s' \<Rightarrow> advance_then Continue s')"

end
