(* ===== verification/Interrupts.thy ===== *)
theory Interrupts
  imports Exit_Handlers
begin

text \<open>
  Interrupt injection (\<open>bedrock-vmx/src/exits/interrupts.rs\<close>): the timer and the I/O
  channel raise vectors in the local APIC, and before every entry the highest pending
  vector is injected when the guest can take it. \<open>now\<close> is the host's time stamp
  counter.
\<close>

section \<open>Raising vectors\<close>

definition InjectSource_Timer :: u8 where "InjectSource_Timer = 0"

definition set_apic :: "(apic_state \<Rightarrow> apic_state) \<Rightarrow> vm_state \<Rightarrow> vm_state" where
  "set_apic f s = s\<lparr>vs_devices := (vs_devices s)\<lparr>apic := f (apic (vs_devices s))\<rparr>\<rparr>"

definition timer_due :: "vm_state \<Rightarrow> bool" where
  "timer_due s \<longleftrightarrow>
     (let a = apic (vs_devices s)
      in timer_deadline a \<noteq> 0 \<and> timer_deadline a \<le> emulated_tsc s
         \<and> svr a AND push_bit 8 1 \<noteq> 0 \<and> lvt_timer a AND push_bit 16 1 = 0)"

definition check_apic_timer :: "u64 \<Rightarrow> vm_state \<Rightarrow> vm_state" where
  "check_apic_timer now s =
     (if \<not> timer_due s then s
      else
        let now_tsc = emulated_tsc s;
            deadline = timer_deadline (apic (vs_devices s));
            s = (if deadline < now_tsc
                 then s\<lparr>vs_stats := (vs_stats s)\<lparr>apic_timer_late_inject := apic_timer_late_inject (vs_stats s) + 1\<rparr>\<rparr> else s);
            v = ucast (lvt_timer (apic (vs_devices s)) AND 0xFF) :: u8;
            s = set_apic (\<lambda>a. a\<lparr>irr := set_vector v (irr a),
                                timer_deadline :=
                                  (if lvt_timer a AND push_bit 17 1 \<noteq> 0
                                   then now_tsc + ucast (timer_initial a) * ucast (apic_timer_divisor (timer_divide a)) else 0)\<rparr>) s
        in snd (event_append EventKind_Inject
                  (inject_payload_bytes \<lparr>inj_vector = v, inj_source = InjectSource_Timer, inj_target_tsc = deadline\<rparr>) now s))"

definition io_channel_due :: "vm_state \<Rightarrow> bool" where
  "io_channel_due s \<longleftrightarrow>
     (let chan = io_channel s; entry = redtbl (ioapic (vs_devices s)) ! unat IO_CHANNEL_IRQ
      in page_gpa chan \<noteq> 0 \<and> request_len chan \<noteq> 0 \<and> \<not> request_delivered chan
         \<and> \<not> (request_target_tsc chan \<noteq> 0 \<and> emulated_tsc s < request_target_tsc chan)
         \<and> \<not> (drop_bit 16 entry AND 1 \<noteq> 0 \<or> entry AND 0xFF < 16))"

definition check_io_channel :: "u64 \<Rightarrow> vm_state \<Rightarrow> vm_state" where
  "check_io_channel now s =
     (if \<not> io_channel_due s then s
      else
        let s = s\<lparr>vs_devices := ioapic_deliver_irq IO_CHANNEL_IRQ (vs_devices s)\<rparr>;
            s = s\<lparr>io_channel := (io_channel s)\<lparr>request_delivered := True\<rparr>\<rparr>
        in snd (event_emit_io_channel
                  \<lparr>iop_phase = IoChannelPhase_Request, iop_target_tsc = request_target_tsc (io_channel s)\<rparr> now s))"

section \<open>The interrupt window\<close>

definition enable_interrupt_window_exiting :: "(vm_state, exit_error, unit) fallible" where
  "enable_interrupt_window_exiting s =
     (case read32 PrimaryProcBasedVmExecControls (vs_vmcs s) of
        Inl _ \<Rightarrow> (Inl VmcsReadError, s)
      | Inr controls \<Rightarrow>
          if controls AND cpu_based_INTR_WINDOW_EXITING \<noteq> 0 then (Inr (), s)
          else (case write32 PrimaryProcBasedVmExecControls (controls OR cpu_based_INTR_WINDOW_EXITING) (vs_vmcs s) of
                  (Inl _, v) \<Rightarrow> (Inl VmcsWriteError, s\<lparr>vs_vmcs := v\<rparr>)
                | (Inr _, v) \<Rightarrow> (Inr (), s\<lparr>vs_vmcs := v\<rparr>)))"

definition disable_interrupt_window_exiting :: "(vm_state, exit_error, unit) fallible" where
  "disable_interrupt_window_exiting s =
     (case read32 PrimaryProcBasedVmExecControls (vs_vmcs s) of
        Inl _ \<Rightarrow> (Inl VmcsReadError, s)
      | Inr controls \<Rightarrow>
          if controls AND cpu_based_INTR_WINDOW_EXITING = 0 then (Inr (), s)
          else (case write32 PrimaryProcBasedVmExecControls (controls AND NOT cpu_based_INTR_WINDOW_EXITING) (vs_vmcs s) of
                  (Inl _, v) \<Rightarrow> (Inl VmcsWriteError, s\<lparr>vs_vmcs := v\<rparr>)
                | (Inr _, v) \<Rightarrow> (Inr (), s\<lparr>vs_vmcs := v\<rparr>)))"

section \<open>Injection\<close>

definition reinject_vectored_event :: "(vm_state, exit_error, bool) fallible" where
  "reinject_vectored_event s =
     (case read32 IdtVectoringInfo (vs_vmcs s) of
        Inl _ \<Rightarrow> (Inl VmcsReadError, s)
      | Inr info \<Rightarrow>
          if info AND push_bit 31 1 = 0 then (Inr False, s)
          else (case write32 VmEntryInterruptionInfo info (vs_vmcs s) of
                  (Inl _, v) \<Rightarrow> (Inl VmcsWriteError, s\<lparr>vs_vmcs := v\<rparr>)
                | (Inr _, v) \<Rightarrow>
                    let s = s\<lparr>vs_vmcs := v\<rparr>
                    in if info AND push_bit 11 1 = 0 then (Inr True, s)
                       else (case read32 IdtVectoringErrorCode (vs_vmcs s) of
                               Inl _ \<Rightarrow> (Inl VmcsReadError, s)
                             | Inr ec \<Rightarrow>
                                 (case write32 VmEntryExceptionErrorCode ec (vs_vmcs s) of
                                    (Inl _, v) \<Rightarrow> (Inl VmcsWriteError, s\<lparr>vs_vmcs := v\<rparr>)
                                  | (Inr _, v) \<Rightarrow> (Inr True, s\<lparr>vs_vmcs := v\<rparr>)))))"

text \<open>The first half of \<open>inject_pending_interrupt\<close>: whether a new interrupt may be
  injected, after the timer and the channel have been checked.\<close>

definition inject_eligible :: "u64 \<Rightarrow> (vm_state, exit_error, bool) fallible" where
  "inject_eligible now =
     and_then reinject_vectored_event (\<lambda>reinjected s.
       if reinjected \<or> \<not> last_exit_deterministic s then (Inr False, s)
       else let pending = (case read32 VmEntryInterruptionInfo (vs_vmcs s) of Inl _ \<Rightarrow> 0 | Inr x \<Rightarrow> x)
            in if pending AND push_bit 31 1 \<noteq> 0 then (Inr False, s)
               else (Inr True, check_io_channel now (check_apic_timer now s)))"

text \<open>The second half, for the highest pending vector.\<close>

definition deliver_vector :: "u8 \<Rightarrow> (vm_state, exit_error, unit) fallible" where
  "deliver_vector v s =
     (case read_natural GuestRflags (vs_vmcs s) of
        Inl _ \<Rightarrow> (Inl VmcsReadError, s)
      | Inr rflags \<Rightarrow>
          if rflags AND push_bit 9 1 = 0 then enable_interrupt_window_exiting s
          else (case read32 GuestInterruptibilityState (vs_vmcs s) of
                  Inl _ \<Rightarrow> (Inl VmcsReadError, s)
                | Inr i \<Rightarrow>
                    if i AND 0x3 \<noteq> 0 then enable_interrupt_window_exiting s
                    else (case inject_exception (external_interrupt v) None s of
                            (Inl e, s) \<Rightarrow> (Inl e, s)
                          | (Inr _, s) \<Rightarrow>
                              disable_interrupt_window_exiting
                                (set_apic (\<lambda>a. a\<lparr>irr := clear_vector v (irr a), isr := set_vector v (isr a)\<rparr>) s))))"

definition inject_pending_interrupt :: "u64 \<Rightarrow> u64 \<Rightarrow> (vm_state, exit_error, unit) fallible" where
  "inject_pending_interrupt margin now =
     and_then (inject_eligible now) (\<lambda>eligible s.
       let s = arm_for_next_iteration margin s
       in if \<not> eligible then (Inr (), s)
          else case apic_pending_vector (apic (vs_devices s)) of
                 None \<Rightarrow> (Inr (), s)
               | Some v \<Rightarrow> deliver_vector v s)"

end
