(* ===== verification/Guest_Access.thy ===== *)
theory Guest_Access
  imports Interrupts Fork
begin

text \<open>
  The exit handlers that read guest memory: translation of guest virtual addresses
  (\<open>exits/ept.rs\<close>), the decoder of memory instructions (\<open>decoder.rs\<close>), emulation of the
  local and the I/O APIC (\<open>exits/apic.rs\<close>), EPT violations (\<open>exits/ept.rs\<close>) and the
  registration of the scratch page of precise exits (\<open>exits/pebs.rs\<close>).

  A context is the VM state together with the memory side of the VM and the host
  memory it lives in. The memory side keeps its own copies of the stale-entry counter
  and of the address of the I/O page, which the operations below keep equal to the
  ones in the VM state.
\<close>

section \<open>Contexts\<close>

record vm_ctx =
  ctx_state :: vm_state
  ctx_vm :: vm
  ctx_world :: world

type_synonym ctx_handler = "vm_ctx \<Rightarrow> exit_handler_result \<times> vm_ctx"

definition on_state :: "handler \<Rightarrow> ctx_handler" where
  "on_state h c = (let (r, s) = h (ctx_state c) in (r, c\<lparr>ctx_state := s\<rparr>))"

definition ctx_read :: "vm_ctx \<Rightarrow> u64 \<Rightarrow> nat \<Rightarrow> bytes option" where
  "ctx_read c gpa n =
     (case read_guest_memory (ctx_vm c) (hmem (ctx_world c)) gpa n of Inl _ \<Rightarrow> None | Inr bs \<Rightarrow> Some bs)"

definition ctx_write :: "u64 \<Rightarrow> bytes \<Rightarrow> vm_ctx \<Rightarrow> bool \<times> vm_ctx" where
  "ctx_write gpa bs c =
     (let (r, h) = write_guest_memory (ctx_vm c) gpa bs (hmem (ctx_world c))
      in (r = Inr (), c\<lparr>ctx_world := (ctx_world c)\<lparr>hmem := h\<rparr>\<rparr>))"

definition is_forked :: "vm_ctx \<Rightarrow> bool" where
  "is_forked c = (case ctx_vm c of RootVm _ \<Rightarrow> False | ForkedVm _ _ \<Rightarrow> True)"

fun stale_faults :: "vm \<Rightarrow> u64" where
  "stale_faults (RootVm r) = 0"
| "stale_faults (ForkedVm f p) = f_stale_tlb_faults f"

definition ctx_handle_cow_fault :: "bool \<Rightarrow> u64 \<Rightarrow> vm_ctx \<Rightarrow> exit_handler_result option \<times> vm_ctx" where
  "ctx_handle_cow_fault node_ok gpa c =
     (let (r, v, w) = vm_handle_cow_fault node_ok (ctx_vm c) gpa (ctx_world c);
          s = ctx_state c;
          stats = (vs_stats s)\<lparr>st_cow := (st_cow (vs_stats s))\<lparr>stale_tlb_faults :=
                    stale_tlb_faults (st_cow (vs_stats s)) + (stale_faults v - stale_faults (ctx_vm c))\<rparr>\<rparr>
      in (map_option (\<lambda>_. Continue) r, c\<lparr>ctx_state := s\<lparr>vs_stats := stats\<rparr>, ctx_vm := v, ctx_world := w\<rparr>))"

definition ctx_pre_cow_io_channel_page :: "bool \<Rightarrow> vm_ctx \<Rightarrow> vm_ctx" where
  "ctx_pre_cow_io_channel_page node_ok c =
     (case ctx_vm c of
        RootVm _ \<Rightarrow> c
      | ForkedVm f p \<Rightarrow>
          let (f, w) = pre_cow_io_channel_page node_ok (f\<lparr>f_io_page_gpa := page_gpa (io_channel (ctx_state c))\<rparr>) p (ctx_world c)
          in c\<lparr>ctx_vm := ForkedVm f p, ctx_world := w\<rparr>)"

section \<open>Guest virtual addresses\<close>

definition TABLE_MASK :: u64 where "TABLE_MASK = 0x000FFFFFFFFFF000"

definition read_entry :: "vm_ctx \<Rightarrow> u64 \<Rightarrow> u64 \<Rightarrow> u64 option" where
  "read_entry c table index =
     (case ctx_read c (table + index * 8) 8 of
        None \<Rightarrow> None
      | Some bs \<Rightarrow> let e = of_le bs :: u64 in if e AND 1 = 0 then None else Some e)"

definition translate_gva_to_gpa :: "vm_ctx \<Rightarrow> u64 \<Rightarrow> u64 option" where
  "translate_gva_to_gpa c gva =
     (case read_natural GuestCr3 (vs_vmcs (ctx_state c)) of
        Inl _ \<Rightarrow> None
      | Inr root \<Rightarrow>
     (case read_entry c (root AND TABLE_MASK) (drop_bit 39 gva AND 0x1FF) of
        None \<Rightarrow> None
      | Some pml4e \<Rightarrow>
     (case read_entry c (pml4e AND TABLE_MASK) (drop_bit 30 gva AND 0x1FF) of
        None \<Rightarrow> None
      | Some pdpte \<Rightarrow>
          if pdpte AND push_bit 7 1 \<noteq> 0 then Some ((pdpte AND 0x000FFFFFC0000000) OR (gva AND 0x3FFFFFFF)) else
     (case read_entry c (pdpte AND TABLE_MASK) (drop_bit 21 gva AND 0x1FF) of
        None \<Rightarrow> None
      | Some pde \<Rightarrow>
          if pde AND push_bit 7 1 \<noteq> 0 then Some ((pde AND 0x000FFFFFFFE00000) OR (gva AND 0x1FFFFF)) else
     (case read_entry c (pde AND TABLE_MASK) (drop_bit 12 gva AND 0x1FF) of
        None \<Rightarrow> None
      | Some pte \<Rightarrow> Some ((pte AND TABLE_MASK) OR (gva AND 0xFFF)))))))"

fun translate_pages :: "vm_ctx \<Rightarrow> u64 list \<Rightarrow> u64 list option" where
  "translate_pages c [] = Some []"
| "translate_pages c (gva # gvas) =
     (case translate_gva_to_gpa c gva of
        None \<Rightarrow> None
      | Some gpa \<Rightarrow> map_option ((#) (gpa AND NOT 0xFFF)) (translate_pages c gvas))"

text \<open>\<open>capacity\<close> is the length of the output slice.\<close>

definition translate_gva_range_to_gpas :: "vm_ctx \<Rightarrow> u64 \<Rightarrow> u64 \<Rightarrow> nat \<Rightarrow> u64 list option" where
  "translate_gva_range_to_gpas c gva len capacity =
     (if len = 0 then Some []
      else case checked_add gva (sat_sub len 1) of
             None \<Rightarrow> None
           | Some end_addr \<Rightarrow>
               let start_page = gva AND NOT 0xFFF; end_page = end_addr AND NOT 0xFFF;
                   num_pages = unat ((end_page - start_page) div 4096 + 1)
               in if capacity < num_pages then None
                  else translate_pages c (map (\<lambda>i. start_page + of_nat i * 4096) [0..<num_pages]))"

section \<open>Decoding\<close>

datatype memory_operation = Load | Store

record decoded_instruction =
  d_length :: u8
  d_operation :: memory_operation
  d_register :: u8
  d_operand_size :: u8

datatype decode_error = BufferTooShort | UnsupportedOpcode | UnsupportedAddressing

record rex_prefix =
  rex_w :: bool
  rex_r :: bool
  rex_x :: bool
  rex_b :: bool

definition rex_from_byte :: "u8 \<Rightarrow> rex_prefix option" where
  "rex_from_byte byte =
     (if byte AND 0xF0 = 0x40
      then Some \<lparr>rex_w = (byte AND 0x08 \<noteq> 0), rex_r = (byte AND 0x04 \<noteq> 0), rex_x = (byte AND 0x02 \<noteq> 0), rex_b = (byte AND 0x01 \<noteq> 0)\<rparr>
      else None)"

definition rex_none :: rex_prefix where
  "rex_none = \<lparr>rex_w = False, rex_r = False, rex_x = False, rex_b = False\<rparr>"

text \<open>The loop over the legacy prefixes: the position after them and whether the
  operand-size prefix was among them.\<close>

fun skip_prefixes :: "bytes \<Rightarrow> nat \<Rightarrow> bool \<Rightarrow> nat \<times> bool" where
  "skip_prefixes [] pos opsize = (pos, opsize)"
| "skip_prefixes (b # bs) pos opsize =
     (if b = 0x66 then skip_prefixes bs (pos + 1) True
      else if b \<in> {0x67, 0x26, 0x2E, 0x36, 0x3E, 0x64, 0x65, 0xF0, 0xF2, 0xF3} then skip_prefixes bs (pos + 1) opsize
      else (pos, opsize))"

definition modrm_displacement_length :: "u8 \<Rightarrow> u8 \<Rightarrow> bytes \<Rightarrow> decode_error + nat" where
  "modrm_displacement_length mod_bits rm remaining =
     (let has_sib = (rm = 4 \<and> mod_bits \<noteq> 3)
      in if has_sib \<and> remaining = [] then Inl BufferTooShort
         else
           let sib_disp = (has_sib \<and> mod_bits = 0 \<and> hd remaining AND 7 = 5);
               len = (if has_sib then 1 else 0)
           in if sib_disp \<and> length remaining < len + 4 then Inl BufferTooShort
              else
                let len = (if sib_disp then len + 4 else len);
                    disp = (if mod_bits = 0 \<and> rm = 5 \<and> \<not> has_sib then 4 else if mod_bits = 1 then 1 else if mod_bits = 2 then 4 else 0)
                in if length remaining < len + disp then Inl BufferTooShort else Inr (len + disp))"

text \<open>The tail every opcode shares: the ModR/M byte at \<open>pos\<close> and what follows it.\<close>

definition decode_modrm :: "bytes \<Rightarrow> nat \<Rightarrow> rex_prefix \<Rightarrow> memory_operation \<Rightarrow> u8 \<Rightarrow> decode_error + decoded_instruction" where
  "decode_modrm bs pos rex op opsize =
     (if length bs \<le> pos then Inl BufferTooShort
      else
        let modrm = bs ! pos; pos = pos + 1;
            reg = (drop_bit 3 modrm AND 7) OR (if rex_r rex then 8 else 0);
            mod_bits = drop_bit 6 modrm;
            rm = (modrm AND 7) OR (if rex_b rex then 8 else 0)
        in case modrm_displacement_length mod_bits (rm AND 7) (drop pos bs) of
             Inl e \<Rightarrow> Inl e
           | Inr modrm_len \<Rightarrow>
               if mod_bits = 3 then Inl UnsupportedAddressing
               else Inr \<lparr>d_length = of_nat (pos + modrm_len), d_operation = op, d_register = reg, d_operand_size = opsize\<rparr>)"

definition decode_instruction :: "bytes \<Rightarrow> decode_error + decoded_instruction" where
  "decode_instruction bs =
     (if bs = [] then Inl BufferTooShort
      else
        let (pos, has_operand_size_prefix) = skip_prefixes bs 0 False
        in if length bs \<le> pos then Inl BufferTooShort
           else
             let rex = rex_from_byte (bs ! pos);
                 pos = (if rex \<noteq> None then pos + 1 else pos);
                 rex = (case rex of Some r \<Rightarrow> r | None \<Rightarrow> rex_none)
             in if length bs \<le> pos then Inl BufferTooShort
                else
                  let opsize = (if rex_w rex then 8 else if has_operand_size_prefix then 2 else 4);
                      opcode = bs ! pos; pos = pos + 1
                  in if opcode = 0x8B then decode_modrm bs pos rex Load opsize
                     else if opcode = 0x89 then decode_modrm bs pos rex Store opsize
                     else if opcode = 0x8A then decode_modrm bs pos rex Load 1
                     else if opcode = 0x88 then decode_modrm bs pos rex Store 1
                     else if opcode = 0x0F then
                       (if length bs \<le> pos then Inl BufferTooShort
                        else let opcode2 = bs ! pos; pos = pos + 1
                             in if opcode2 = 0xB6 then decode_modrm bs pos rex Load 1
                                else if opcode2 = 0xB7 then decode_modrm bs pos rex Load 2
                                else Inl UnsupportedOpcode)
                     else Inl UnsupportedOpcode)"

section \<open>The local and the I/O APIC\<close>

definition set_rip :: "u64 \<Rightarrow> string \<Rightarrow> ctx_handler" where
  "set_rip rip what c =
     (let s = ctx_state c
      in case write_natural GuestRip rip (vs_vmcs s) of
           (Inl _, v) \<Rightarrow> (HandlerError (Fatal what), c\<lparr>ctx_state := s\<lparr>vs_vmcs := v\<rparr>\<rparr>)
         | (Inr _, v) \<Rightarrow> (Continue, c\<lparr>ctx_state := s\<lparr>vs_vmcs := v\<rparr>\<rparr>))"

text \<open>Fetching and decoding the instruction at the guest's instruction pointer; the first
  failure is \<open>Inl\<close> of which step it was.\<close>

datatype fetch_error = RipUnreadable | RipUnmapped | InstrUnreadable | Undecodable

definition fetch_instruction :: "vm_ctx \<Rightarrow> fetch_error + u64 \<times> decoded_instruction" where
  "fetch_instruction c =
     (case read_natural GuestRip (vs_vmcs (ctx_state c)) of
        Inl _ \<Rightarrow> Inl RipUnreadable
      | Inr rip \<Rightarrow>
          (case translate_gva_to_gpa c rip of
             None \<Rightarrow> Inl RipUnmapped
           | Some gpa \<Rightarrow>
               (case ctx_read c gpa 15 of
                  None \<Rightarrow> Inl InstrUnreadable
                | Some bs \<Rightarrow> (case decode_instruction bs of Inl _ \<Rightarrow> Inl Undecodable | Inr d \<Rightarrow> Inr (rip, d)))))"

definition apic_effect :: "u32 \<Rightarrow> ept_violation_qualification \<Rightarrow> u8 \<Rightarrow> vm_state \<Rightarrow> vm_state" where
  "apic_effect off q reg s =
     (if q_read q then s\<lparr>vs_gprs := set_gpr_value reg (ucast (read_apic_register (apic (vs_devices s)) off)) (vs_gprs s)\<rparr>
      else if q_write q then set_apic (write_apic_register off (ucast (get_gpr_value (vs_gprs s) reg)) (emulated_tsc s)) s
      else s)"

definition handle_apic_access :: "u64 \<Rightarrow> ept_violation_qualification \<Rightarrow> ctx_handler" where
  "handle_apic_access gpa q c =
     (case fetch_instruction c of
        Inl RipUnreadable \<Rightarrow> (HandlerError VmcsReadError, c)
      | Inl _ \<Rightarrow> (ExitToUserspace ExitReason_EptViolation, c)
      | Inr (rip, d) \<Rightarrow>
          set_rip (rip + ucast (d_length d)) ''Failed to advance RIP for APIC access''
            (c\<lparr>ctx_state := apic_effect (ucast (gpa - APIC_BASE)) q (d_register d) (ctx_state c)\<rparr>))"

definition ioapic_effect :: "u32 \<Rightarrow> ept_violation_qualification \<Rightarrow> u8 \<Rightarrow> vm_state \<Rightarrow> vm_state" where
  "ioapic_effect off q reg s =
     (let io = ioapic (vs_devices s)
      in if q_read q then
           s\<lparr>vs_gprs := set_gpr_value reg
               (ucast (if off = 0x00 then ioregsel io else if off = 0x10 then read_ioapic_register io else 0)) (vs_gprs s)\<rparr>
         else if q_write q then
           (let x = ucast (get_gpr_value (vs_gprs s) reg)
            in if off = 0x00 then s\<lparr>vs_devices := (vs_devices s)\<lparr>ioapic := io\<lparr>ioregsel := x\<rparr>\<rparr>\<rparr>
               else if off = 0x10 then s\<lparr>vs_devices := (vs_devices s)\<lparr>ioapic := write_ioapic_register x io\<rparr>\<rparr>
               else s)
         else s)"

definition handle_ioapic_access :: "u64 \<Rightarrow> ept_violation_qualification \<Rightarrow> ctx_handler" where
  "handle_ioapic_access gpa q c =
     (case fetch_instruction c of
        Inl RipUnreadable \<Rightarrow> (HandlerError VmcsReadError, c)
      | Inl RipUnmapped \<Rightarrow> (HandlerError (Fatal ''Failed to translate I/O APIC instruction address''), c)
      | Inl InstrUnreadable \<Rightarrow> (HandlerError (Fatal ''Failed to read I/O APIC instruction''), c)
      | Inl Undecodable \<Rightarrow> (HandlerError (Fatal ''Failed to decode I/O APIC instruction''), c)
      | Inr (rip, d) \<Rightarrow>
          set_rip (rip + ucast (d_length d)) ''Failed to advance RIP for I/O APIC access''
            (c\<lparr>ctx_state := ioapic_effect (ucast (gpa - IOAPIC_BASE)) q (d_register d) (ctx_state c)\<rparr>))"

section \<open>EPT violations\<close>

definition violation_address :: "vm_state \<Rightarrow> u64" where
  "violation_address s = (case read64 GuestPhysicalAddr (vs_vmcs s) of Inl _ \<Rightarrow> 0 | Inr x \<Rightarrow> x)"

definition handle_ept_violation :: "bool \<Rightarrow> ept_violation_qualification \<Rightarrow> ctx_handler" where
  "handle_ept_violation node_ok q c =
     (if is_pebs_induced q then on_state handle_pebs_precise_exit c
      else
        let gpa = violation_address (ctx_state c)
        in if in_range_u64 APIC_BASE (APIC_BASE + APIC_SIZE) gpa then handle_apic_access gpa q c
           else if in_range_u64 IOAPIC_BASE (IOAPIC_BASE + IOAPIC_SIZE) gpa then handle_ioapic_access gpa q c
           else if q_write q \<and> \<not> q_writable q then
             (case ctx_handle_cow_fault node_ok gpa c of
                (Some result, c) \<Rightarrow> (result, c)
              | (None, c) \<Rightarrow> (ExitToUserspace ExitReason_PoolExhausted, c))
           else (ExitToUserspace ExitReason_EptViolation, c))"

section \<open>Registering the scratch page of precise exits\<close>

definition register_pebs_page :: "u64 \<Rightarrow> vm_ctx \<Rightarrow> register_pebs_page_result \<times> vm_ctx" where
  "register_pebs_page page_va c =
     (let s = ctx_state c
      in if \<not> pebs_supported s then (PebsUnsupported, c)
         else if page_va AND 0xFFF \<noteq> 0 then (PebsMisaligned, c)
         else if vs_pebs s \<noteq> None then (PebsAlreadyRegistered, c)
         else case translate_gva_to_gpa c page_va of
                None \<Rightarrow> (PebsUntranslatable, c)
              | Some gpa \<Rightarrow>
                  let gpa_page = gpa AND NOT 0xFFF
                  in case ept_lookup (wtmem (ctx_world c)) (vm_ept (ctx_vm c)) gpa_page of
                       None \<Rightarrow> (PebsNotEptMapped, c)
                     | Some (host_phys, _) \<Rightarrow>
                         let kernel_va = GUEST_LINUX_PAGE_OFFSET + gpa_page;
                             (written, c) = ctx_write gpa_page (ds_management_area_bytes (build_ds_management_area kernel_va)) c
                         in if \<not> written then (PebsNotEptMapped, c)
                            else
                              let (r, t) = remap_4k (vm_ept (ctx_vm c)) gpa_page host_phys READ_EXECUTE WriteBack (wtmem (ctx_world c));
                                  c = c\<lparr>ctx_world := (ctx_world c)\<lparr>wtmem := t\<rparr>\<rparr>
                              in if r \<noteq> Inr () then (PebsNotEptMapped, c)
                                 else
                                   let v = vs_vmcs (ctx_state c);
                                       v = (case read64 GuestIa32PerfGlobalCtrl v of
                                              Inl _ \<Rightarrow> v
                                            | Inr prev \<Rightarrow> snd (write64 GuestIa32PerfGlobalCtrl (prev OR PERF_GLOBAL_CTRL_FIXED_CTR0) v));
                                       v = snd (write64 VmExitMsrLoadAddr (pebs_exit_msr_load_addr s) v);
                                       v = snd (write32 VmExitMsrLoadCount 1 v)
                                   in (PebsSuccess,
                                       c\<lparr>ctx_state := (ctx_state c)\<lparr>vs_vmcs := v, vs_pebs := Some (pebs_state_new gpa_page kernel_va)\<rparr>\<rparr>))"

end
