(* ===== verification/Vmcall.thy ===== *)
theory Vmcall
  imports Guest_Access
begin

text \<open>
  The hypercalls (\<open>bedrock-vmx/src/hypercalls.rs\<close>, \<open>exits/vmcall.rs\<close>): the loops that
  copy between guest memory and the VM state, and the dispatch on the number in RAX.

  \<open>hash\<close> and \<open>pad\<close> are as for exit records; \<open>now\<close> is the host's time stamp counter;
  \<open>node_ok\<close> and \<open>push_ok\<close> are the outcomes of the kernel's allocations.
\<close>

section \<open>Numbers and error codes\<close>

abbreviation (input) HYPERCALL_SHUTDOWN :: u64 where "HYPERCALL_SHUTDOWN \<equiv> 0"
abbreviation (input) HYPERCALL_SNAPSHOT :: u64 where "HYPERCALL_SNAPSHOT \<equiv> 1"
abbreviation (input) HYPERCALL_REGISTER_FEEDBACK_BUFFER :: u64 where "HYPERCALL_REGISTER_FEEDBACK_BUFFER \<equiv> 2"
abbreviation (input) HYPERCALL_REGISTER_PEBS_PAGE :: u64 where "HYPERCALL_REGISTER_PEBS_PAGE \<equiv> 3"
abbreviation (input) HYPERCALL_IO_REGISTER_PAGE :: u64 where "HYPERCALL_IO_REGISTER_PAGE \<equiv> 4"
abbreviation (input) HYPERCALL_IO_GET_REQUEST :: u64 where "HYPERCALL_IO_GET_REQUEST \<equiv> 5"
abbreviation (input) HYPERCALL_IO_PUT_RESPONSE :: u64 where "HYPERCALL_IO_PUT_RESPONSE \<equiv> 6"
abbreviation (input) HYPERCALL_READY :: u64 where "HYPERCALL_READY \<equiv> 7"
abbreviation (input) HYPERCALL_SERIAL_REGISTER_PAGE :: u64 where "HYPERCALL_SERIAL_REGISTER_PAGE \<equiv> 8"
abbreviation (input) HYPERCALL_SERIAL_WRITE :: u64 where "HYPERCALL_SERIAL_WRITE \<equiv> 9"
abbreviation (input) HYPERCALL_FILE_FETCH :: u64 where "HYPERCALL_FILE_FETCH \<equiv> 10"
abbreviation (input) HYPERCALL_GET_RANDOM :: u64 where "HYPERCALL_GET_RANDOM \<equiv> 11"
abbreviation (input) HYPERCALL_FILE_STORE :: u64 where "HYPERCALL_FILE_STORE \<equiv> 12"

definition FB_ERR_BAD_SIZE :: u64 where "FB_ERR_BAD_SIZE = - 1"
definition FB_ERR_BAD_ID_LEN :: u64 where "FB_ERR_BAD_ID_LEN = - 1 - 1"
definition FB_ERR_ID_NOT_RESIDENT :: u64 where "FB_ERR_ID_NOT_RESIDENT = - 1 - 2"
definition FB_ERR_BUFFER_NOT_RESIDENT :: u64 where "FB_ERR_BUFFER_NOT_RESIDENT = - 1 - 3"
definition FB_ERR_NO_SLOTS :: u64 where "FB_ERR_NO_SLOTS = - 1 - 4"

definition MAX_FEEDBACK_BUFFER_SIZE :: u64 where
  "MAX_FEEDBACK_BUFFER_SIZE = of_nat FEEDBACK_BUFFER_MAX_PAGES * 4096"

definition IO_COPY_CHUNK :: nat where "IO_COPY_CHUNK = 256"

section \<open>Copy loops\<close>

function copy_request_to_guest :: "u64 \<Rightarrow> nat \<Rightarrow> nat \<Rightarrow> vm_ctx \<Rightarrow> bool \<times> vm_ctx" where
  "copy_request_to_guest gpa len off c =
     (if len \<le> off then (True, c)
      else let n = min (len - off) IO_COPY_CHUNK;
               (written, c) = ctx_write (gpa + of_nat off) (subslice off n (request_buf (io_channel (ctx_state c)))) c
           in if written then copy_request_to_guest gpa len (off + n) c else (False, c))"
  by pat_completeness auto
termination by (relation "measure (\<lambda>(_, len, off, _). len - off)") (auto simp: IO_COPY_CHUNK_def)

text \<open>A loop that reads chunks of guest memory at \<open>gpa\<close>; \<open>put\<close> stores a chunk at its offset in
  the VM state.\<close>

function copy_from_guest :: "(nat \<Rightarrow> bytes \<Rightarrow> vm_state \<Rightarrow> vm_state) \<Rightarrow> u64 \<Rightarrow> nat \<Rightarrow> nat \<Rightarrow> vm_ctx \<Rightarrow> bool \<times> vm_ctx" where
  "copy_from_guest put gpa len off c =
     (if len \<le> off then (True, c)
      else let n = min (len - off) IO_COPY_CHUNK
           in case ctx_read c (gpa + of_nat off) n of
                None \<Rightarrow> (False, c)
              | Some bs \<Rightarrow> copy_from_guest put gpa len (off + n) (c\<lparr>ctx_state := put off bs (ctx_state c)\<rparr>))"
  by pat_completeness auto
termination by (relation "measure (\<lambda>(_, _, len, off, _). len - off)") (auto simp: IO_COPY_CHUNK_def)

definition copy_response_from_guest :: "u64 \<Rightarrow> nat \<Rightarrow> vm_ctx \<Rightarrow> bool \<times> vm_ctx" where
  "copy_response_from_guest gpa len =
     copy_from_guest (\<lambda>off bs s. s\<lparr>io_channel := (io_channel s)\<lparr>response_buf := patch off bs (response_buf (io_channel s))\<rparr>\<rparr>)
       gpa len 0"

definition copy_serial_console_from_guest :: "u64 \<Rightarrow> nat \<Rightarrow> vm_ctx \<Rightarrow> bool \<times> vm_ctx" where
  "copy_serial_console_from_guest gpa len =
     copy_from_guest (\<lambda>off bs s. s\<lparr>serial_console := (serial_console s)
         \<lparr>console_pending_buf := patch off bs (console_pending_buf (serial_console s))\<rparr>\<rparr>)
       gpa len 0"

text \<open>The number of bytes from \<open>gva\<close> on that lie in its page, at most \<open>left\<close>.\<close>

definition in_page :: "u64 \<Rightarrow> nat \<Rightarrow> nat" where
  "in_page gva left = min (4096 - unat (gva AND 0xFFF)) left"

lemma in_page_pos: "0 < left \<Longrightarrow> 0 < in_page gva left"
proof -
  have "unat (gva AND 0xFFF) < 4096" unfolding unat_page_offset by simp
  then show "0 < left \<Longrightarrow> 0 < in_page gva left" by (simp add: in_page_def)
qed

function read_guest_id :: "vm_ctx \<Rightarrow> u64 \<Rightarrow> nat \<Rightarrow> nat \<Rightarrow> bytes option" where
  "read_guest_id c gva len off =
     (if len \<le> off then Some []
      else let cur = gva + of_nat off; n = in_page cur (len - off)
           in case translate_gva_to_gpa c cur of
                None \<Rightarrow> None
              | Some gpa \<Rightarrow>
                  (case ctx_read c gpa n of
                     None \<Rightarrow> None
                   | Some bs \<Rightarrow> map_option ((@) bs) (read_guest_id c gva len (off + n))))"
  by pat_completeness auto
termination by (relation "measure (\<lambda>(_, _, len, off). len - off)") (auto simp: in_page_pos diff_less_mono2)

datatype write_guest = WG_Pool | WG_Fault

function cow_guest_range :: "bool \<Rightarrow> u64 \<Rightarrow> nat \<Rightarrow> nat \<Rightarrow> vm_ctx \<Rightarrow> write_guest option \<times> vm_ctx" where
  "cow_guest_range node_ok gva len off c =
     (if len \<le> off then (None, c)
      else let cur = gva + of_nat off; n = in_page cur (len - off)
           in case translate_gva_to_gpa c cur of
                None \<Rightarrow> (Some WG_Fault, c)
              | Some gpa \<Rightarrow>
                  (case ctx_handle_cow_fault node_ok gpa c of
                     (None, c) \<Rightarrow> (Some WG_Pool, c)
                   | (Some _, c) \<Rightarrow> cow_guest_range node_ok gva len (off + n) c))"
  by pat_completeness auto
termination by (relation "measure (\<lambda>(_, _, len, off, _). len - off)") (auto simp: in_page_pos diff_less_mono2)

definition ensure_guest_writable :: "bool \<Rightarrow> u64 \<Rightarrow> nat \<Rightarrow> vm_ctx \<Rightarrow> write_guest option \<times> vm_ctx" where
  "ensure_guest_writable node_ok gva len c = (if \<not> is_forked c then (None, c) else cow_guest_range node_ok gva len 0 c)"

function write_guest_bytes :: "u64 \<Rightarrow> bytes \<Rightarrow> nat \<Rightarrow> vm_ctx \<Rightarrow> bool \<times> vm_ctx" where
  "write_guest_bytes gva src off c =
     (if length src \<le> off then (True, c)
      else let cur = gva + of_nat off; n = in_page cur (length src - off)
           in case translate_gva_to_gpa c cur of
                None \<Rightarrow> (False, c)
              | Some gpa \<Rightarrow>
                  let (written, c) = ctx_write gpa (subslice off n src) c
                  in if written then write_guest_bytes gva src (off + n) c else (False, c))"
  by pat_completeness auto
termination by (relation "measure (\<lambda>(_, src, off, _). length src - off)") (auto simp: in_page_pos diff_less_mono2)

section \<open>Hypercalls\<close>

definition set_rax :: "u64 \<Rightarrow> vm_ctx \<Rightarrow> vm_ctx" where
  "set_rax x c = c\<lparr>ctx_state := (ctx_state c)\<lparr>vs_gprs := (vs_gprs (ctx_state c))\<lparr>rax := x\<rparr>\<rparr>\<rparr>"

definition return_with :: "u64 \<Rightarrow> exit_handler_result \<Rightarrow> ctx_handler" where
  "return_with x result c = on_state (advance_then result) (set_rax x c)"

definition register_feedback_buffer :: "bool \<Rightarrow> ctx_handler" where
  "register_feedback_buffer push_ok c =
     (let g = vs_gprs (ctx_state c); gva = rbx g; len = rcx g; id_gva = rdx g; id_len = unat (rsi g)
      in if len = 0 \<or> MAX_FEEDBACK_BUFFER_SIZE < len then return_with FB_ERR_BAD_SIZE Continue c
         else if id_len = 0 \<or> FEEDBACK_BUFFER_ID_MAX_LEN < id_len then return_with FB_ERR_BAD_ID_LEN Continue c
         else case read_guest_id c id_gva id_len 0 of
                None \<Rightarrow> return_with FB_ERR_ID_NOT_RESIDENT Continue c
              | Some ident \<Rightarrow>
                  (case translate_gva_range_to_gpas c gva len FEEDBACK_BUFFER_MAX_PAGES of
                     None \<Rightarrow> return_with FB_ERR_BUFFER_NOT_RESIDENT Continue c
                   | Some gpas \<Rightarrow>
                       if \<not> push_ok then return_with FB_ERR_NO_SLOTS Continue c
                       else
                         let s = ctx_state c;
                             info = \<lparr>fbi_gva = gva, fbi_size = len, fbi_num_pages = length gpas,
                                     fbi_gpas = gpas @ replicate (FEEDBACK_BUFFER_MAX_PAGES - length gpas) 0,
                                     fbi_id = ident @ replicate (FEEDBACK_BUFFER_ID_MAX_LEN - id_len) 0, fbi_id_len = of_nat id_len\<rparr>;
                             idx = length (feedback_buffers s)
                         in return_with (of_nat idx) (ExitToUserspace ExitReason_VmcallFeedbackBuffer)
                              (c\<lparr>ctx_state := s\<lparr>feedback_buffers := feedback_buffers s @ [info]\<rparr>\<rparr>)))"

definition io_register_page :: "bool \<Rightarrow> ctx_handler" where
  "io_register_page node_ok c =
     (let s = ctx_state c; page_va = rbx (vs_gprs s); result = ExitToUserspace ExitReason_VmcallIoRegisterPage
      in if page_va AND 0xFFF \<noteq> 0 then return_with (- 1) result c
         else case translate_gva_to_gpa c page_va of
                None \<Rightarrow> return_with (- 1) result c
              | Some gpa \<Rightarrow>
                  return_with 0 result
                    (ctx_pre_cow_io_channel_page node_ok
                       (c\<lparr>ctx_state := s\<lparr>io_channel := (io_channel s)\<lparr>page_gpa := gpa, request_delivered := False, response_len := 0\<rparr>\<rparr>\<rparr>)))"

definition io_get_request :: ctx_handler where
  "io_get_request c =
     (let chan = io_channel (ctx_state c)
      in if page_gpa chan = 0 then return_with (- 1) Continue c
         else if request_len chan = 0 then return_with 0 Continue c
         else case copy_request_to_guest (page_gpa chan) (request_len chan) 0 c of
                (False, c) \<Rightarrow> return_with (- 1) Continue c
              | (True, c) \<Rightarrow>
                  return_with (of_nat (request_len chan)) Continue
                    (c\<lparr>ctx_state := (ctx_state c)\<lparr>io_channel := consume_request (io_channel (ctx_state c))\<rparr>\<rparr>))"

definition io_put_response :: "u64 \<Rightarrow> ctx_handler" where
  "io_put_response now c =
     (let len = min (unat (rbx (vs_gprs (ctx_state c)))) IO_CHANNEL_BUF_SIZE;
          gpa = page_gpa (io_channel (ctx_state c));
          (copied, c) = (if gpa = 0 then (False, c) else copy_response_from_guest gpa len c);
          c = (if copied then c\<lparr>ctx_state := (ctx_state c)\<lparr>io_channel := (io_channel (ctx_state c))\<lparr>response_len := len\<rparr>\<rparr>\<rparr> else c)
      in case on_state (advance_then (ExitToUserspace ExitReason_VmcallIoResponse)) (set_rax (if copied then 0 else - 1) c) of
           (HandlerError e, c) \<Rightarrow> (HandlerError e, c)
         | (r, c) \<Rightarrow>
             (r, if copied
                 then c\<lparr>ctx_state := snd (event_emit_io_channel \<lparr>iop_phase = IoChannelPhase_Response, iop_target_tsc = 0\<rparr> now (ctx_state c))\<rparr>
                 else c))"

definition serial_register_page :: ctx_handler where
  "serial_register_page c =
     (let s = ctx_state c; page_va = rbx (vs_gprs s)
      in if page_va AND 0xFFF \<noteq> 0 then return_with (- 1) Continue c
         else case translate_gva_to_gpa c page_va of
                None \<Rightarrow> return_with (- 1) Continue c
              | Some gpa \<Rightarrow>
                  return_with 0 Continue (c\<lparr>ctx_state := s\<lparr>serial_console := (serial_console s)\<lparr>console_page_gpa := gpa\<rparr>\<rparr>\<rparr>))"

definition serial_write :: "u64 \<Rightarrow> ctx_handler" where
  "serial_write now c =
     (let len = min (unat (rbx (vs_gprs (ctx_state c)))) SERIAL_CONSOLE_PAGE_SIZE;
          gpa = console_page_gpa (serial_console (ctx_state c));
          (copied, c) = (if gpa = 0 then (False, c) else copy_serial_console_from_guest gpa len c)
      in case on_state (advance_then Continue) (set_rax (if copied then 0 else - 1) c) of
           (HandlerError e, c) \<Rightarrow> (HandlerError e, c)
         | (r, c) \<Rightarrow>
             (r, if copied then c\<lparr>ctx_state := snd (event_emit_console len now (snd (event_flush_serial_line (ctx_state c))))\<rparr> else c))"

text \<open>The bytes of the seeded generator, eight at a time.\<close>

function seeded_bytes :: "nat \<Rightarrow> random_state \<Rightarrow> bytes \<times> random_state" where
  "seeded_bytes left r =
     (if left = 0 then ([], r)
      else let (v, r) = next_seeded_u64 r; n = min left 8; (bs, r) = seeded_bytes (left - n) r
           in (take n (to_le 8 v) @ bs, r))"
  by pat_completeness auto
termination by (relation "measure fst") auto

definition set_rng :: "(random_state \<Rightarrow> random_state) \<Rightarrow> vm_ctx \<Rightarrow> vm_ctx" where
  "set_rng f c = c\<lparr>ctx_state := (ctx_state c)\<lparr>vs_devices := (vs_devices (ctx_state c))\<lparr>rng := f (rng (vs_devices (ctx_state c)))\<rparr>\<rparr>\<rparr>"

definition emit_get_random_event :: "u64 \<Rightarrow> u32 \<Rightarrow> bytes \<Rightarrow> vm_ctx \<Rightarrow> vm_ctx" where
  "emit_get_random_event now p bs c =
     c\<lparr>ctx_state := emit_randomness_event \<lparr>rp_value = 0, rp_pid = p, rp_source = random_source_as_u8 Source_GetRandom, rp_width = 0\<rparr>
                      bs now (ctx_state c)\<rparr>"

definition get_random :: "bool \<Rightarrow> u64 \<Rightarrow> ctx_handler" where
  "get_random node_ok now c =
     (let g = vs_gprs (ctx_state c); r = rng (vs_devices (ctx_state c)); cap = min (unat (rcx g)) RANDOM_REPLY_MAX
      in case rng_mode r of
           SeededRng \<Rightarrow>
             (case ensure_guest_writable node_ok (rbx g) cap c of
                (Some WG_Pool, c) \<Rightarrow> (ExitToUserspace ExitReason_PoolExhausted, c)
              | (Some WG_Fault, c) \<Rightarrow> return_with (- 1) Continue c
              | (None, c) \<Rightarrow>
                  let (bs, r) = seeded_bytes cap r
                  in case write_guest_bytes (rbx g) bs 0 (set_rng (\<lambda>_. r) c) of
                       (False, c) \<Rightarrow> return_with (- 1) Continue c
                     | (True, c) \<Rightarrow> return_with (of_nat cap) Continue (emit_get_random_event now (ucast (rdx g)) bs c))
         | ExitToUserspaceMode \<Rightarrow>
             if needs_get_random_exit r
             then (ExitToUserspace ExitReason_VmcallGetRandom, set_rng (begin_request (rbx g) (of_nat cap) (ucast (rdx g))) c)
             else
               let n = min (unat (reply_len r)) (unat (req_len r)); bs = take n (reply r)
               in case ensure_guest_writable node_ok (buf_gva r) n c of
                    (Some WG_Pool, c) \<Rightarrow> (ExitToUserspace ExitReason_PoolExhausted, c)
                  | (Some WG_Fault, c) \<Rightarrow> return_with (- 1) Continue (set_rng clear_request c)
                  | (None, c) \<Rightarrow>
                      (case write_guest_bytes (buf_gva r) bs 0 c of
                         (False, c) \<Rightarrow> return_with (- 1) Continue (set_rng clear_request c)
                       | (True, c) \<Rightarrow> return_with (of_nat n) Continue (set_rng clear_request (emit_get_random_event now (req_pid r) bs c))))"

definition handle_vmcall :: "(bytes \<Rightarrow> u64) \<Rightarrow> bytes \<Rightarrow> bool \<Rightarrow> bool \<Rightarrow> u64 \<Rightarrow> ctx_handler" where
  "handle_vmcall hash pad node_ok push_ok now c =
     (let s = ctx_state c; nr = rax (vs_gprs s)
      in if nr = HYPERCALL_SHUTDOWN then
           on_state (advance_then (ExitToUserspace ExitReason_VmcallShutdown))
             (c\<lparr>ctx_state := snd (event_flush_serial_line (capture_exit_at_shutdown hash pad now s))\<rparr>)
         else if nr = HYPERCALL_SNAPSHOT then
           on_state (advance_then (ExitToUserspace ExitReason_VmcallSnapshot)) (c\<lparr>ctx_state := capture_exit_at_snapshot hash pad now s\<rparr>)
         else if nr = HYPERCALL_READY then on_state (advance_then (ExitToUserspace ExitReason_VmcallReady)) c
         else if nr = HYPERCALL_REGISTER_FEEDBACK_BUFFER then register_feedback_buffer push_ok c
         else if nr = HYPERCALL_REGISTER_PEBS_PAGE then
           (let (r, c) = register_pebs_page (rbx (vs_gprs s)) c
            in return_with (register_pebs_page_code r) (ExitToUserspace ExitReason_VmcallPebsPage) c)
         else if nr = HYPERCALL_FILE_FETCH then return_with 0 (ExitToUserspace ExitReason_VmcallFileFetch) c
         else if nr = HYPERCALL_FILE_STORE then return_with 0 (ExitToUserspace ExitReason_VmcallFileStore) c
         else if nr = HYPERCALL_IO_REGISTER_PAGE then io_register_page node_ok c
         else if nr = HYPERCALL_IO_GET_REQUEST then io_get_request c
         else if nr = HYPERCALL_IO_PUT_RESPONSE then io_put_response now c
         else if nr = HYPERCALL_SERIAL_REGISTER_PAGE then serial_register_page c
         else if nr = HYPERCALL_SERIAL_WRITE then serial_write now c
         else if nr = HYPERCALL_GET_RANDOM then get_random node_ok now c
         else (ExitToUserspace ExitReason_Vmcall, c))"

end
