(* ===== verification/Dispatch.thy ===== *)
theory Dispatch
  imports Vmcall
begin

text \<open>
  The exit dispatcher (\<open>handle_exit\<close> of \<open>bedrock-vmx/src/exits/mod.rs\<close>): it classifies the
  exit as deterministic or not, advances the emulated time on deterministic exits, runs
  the handler, keeps the statistics and the single-step trap up to date, and decides
  whether the guest is resumed.
\<close>

section \<open>The environment of an exit\<close>

text \<open>What the handlers take from outside the VM: the kernel's hash and the padding of exit
  records, the readings of the host's time stamp counter (on entry, by the handler for the host
  time of the events it emits, after the handler, and for the exit record), the outcomes of
  allocations, the host's CPUID and capabilities, and the margin of precise exits.\<close>

record exit_env =
  e_hash :: "bytes \<Rightarrow> u64"
  e_pad :: bytes
  e_start :: u64
  e_now :: u64
  e_stop :: u64
  e_late :: u64
  e_node_ok :: bool
  e_push_ok :: bool
  e_cpuid :: "u32 \<Rightarrow> u32 \<Rightarrow> cpuid_regs"
  e_caps :: vmx_capabilities
  e_margin :: u64

section \<open>Classification\<close>

definition on_target :: "u64 \<Rightarrow> u64 option \<Rightarrow> bool" where
  "on_target count t \<longleftrightarrow> t = Some count"

definition non_deterministic_exit :: "exit_reason \<Rightarrow> u64 \<Rightarrow> vm_state \<Rightarrow> bool" where
  "non_deterministic_exit reason qual s =
     (if reason \<in> {ExitReason_ExternalInterrupt, ExitReason_VmxPreemptionTimer, ExitReason_ExceptionNmi} then True
      else if reason = ExitReason_EptViolation then
        (let q = ept_violation_qualification_from qual
         in if asynchronous q \<and> q_write q then True
            else let gpa = violation_address s
                 in \<not> (in_range_u64 APIC_BASE (APIC_BASE + APIC_SIZE) gpa
                       \<or> in_range_u64 IOAPIC_BASE (IOAPIC_BASE + IOAPIC_SIZE) gpa))
      else if reason = ExitReason_MonitorTrapFlag then
        (let count = last_instruction_count s;
             on_boundary = (on_target count (next_timer_exit_count s) \<or> on_target count (next_io_channel_exit_count s)
                            \<or> on_target count (stop_at_count s))
         in \<not> (on_boundary \<or> in_single_step s))
      else False)"

definition begin_exit :: "bool \<Rightarrow> vm_state \<Rightarrow> vm_state" where
  "begin_exit non_det s =
     (let s = s\<lparr>last_exit_deterministic := \<not> non_det\<rparr>
      in if non_det then s else s\<lparr>emulated_tsc := current_tsc s\<rparr>)"

section \<open>Handlers\<close>

text \<open>The handler of an exit reason. \<open>Inl\<close> is a result that \<open>handle_exit\<close> returns at once.\<close>

definition preemption_timer :: "vm_ctx \<Rightarrow> (exit_handler_result + exit_handler_result) \<times> vm_ctx" where
  "preemption_timer c =
     (let s = ctx_state c
      in case write32 VmxPreemptionTimerValue 0x100000 (vs_vmcs s) of
           (Inl _, v) \<Rightarrow> (Inl (HandlerError (Fatal ''Failed to reset preemption timer'')), c\<lparr>ctx_state := s\<lparr>vs_vmcs := v\<rparr>\<rparr>)
         | (Inr _, v) \<Rightarrow> (Inr (ExitToUserspace ExitReason_VmxPreemptionTimer), c\<lparr>ctx_state := s\<lparr>vs_vmcs := v\<rparr>\<rparr>))"

definition or_return :: "(vm_state, exit_error, unit) fallible \<Rightarrow> vm_ctx \<Rightarrow> (exit_handler_result + exit_handler_result) \<times> vm_ctx" where
  "or_return f c =
     (case f (ctx_state c) of
        (Inl e, s) \<Rightarrow> (Inl (HandlerError e), c\<lparr>ctx_state := s\<rparr>)
      | (Inr _, s) \<Rightarrow> (Inr Continue, c\<lparr>ctx_state := s\<rparr>))"

definition dispatch :: "exit_env \<Rightarrow> exit_reason \<Rightarrow> u64 \<Rightarrow> vm_ctx \<Rightarrow> (exit_handler_result + exit_handler_result) \<times> vm_ctx" where
  "dispatch e reason qual c =
     (let go = (\<lambda>h. let (r, c) = h c in (Inr r, c))
      in if reason = ExitReason_Cpuid then go (on_state (handle_cpuid (e_cpuid e)))
         else if reason = ExitReason_MsrRead then go (on_state handle_msr_read)
         else if reason = ExitReason_MsrWrite then go (on_state handle_msr_write)
         else if reason = ExitReason_CrAccess then go (on_state (handle_cr_access (e_caps e) (cr_access_qualification_from qual)))
         else if reason = ExitReason_IoInstruction then go (on_state (handle_io (e_now e) (io_qualification_from qual)))
         else if reason = ExitReason_EptViolation then go (handle_ept_violation (e_node_ok e) (ept_violation_qualification_from qual))
         else if reason = ExitReason_ExceptionNmi then go (on_state handle_exception_nmi)
         else if reason = ExitReason_Xsetbv then go (on_state handle_xsetbv)
         else if reason = ExitReason_Rdtsc then go (on_state handle_rdtsc)
         else if reason = ExitReason_Rdtscp then go (on_state handle_rdtscp)
         else if reason = ExitReason_Rdpmc then go (on_state handle_rdpmc)
         else if reason = ExitReason_Rdrand then go (on_state (handle_rdrand (e_now e)))
         else if reason = ExitReason_Rdseed then go (on_state (handle_rdseed (e_now e)))
         else if reason = ExitReason_MonitorTrapFlag then (Inr Continue, c)
         else if reason = ExitReason_Hlt \<or> reason = ExitReason_Mwait then go (on_state handle_idle)
         else if reason = ExitReason_Monitor then or_return advance_rip c
         else if reason = ExitReason_TripleFault then (Inr (HandlerError TripleFault), c)
         else if reason = ExitReason_InvalidGuestState then (Inr (HandlerError InvalidGuestState), c)
         else if reason = ExitReason_Vmcall then
           go (handle_vmcall (e_hash e) (e_pad e) (e_node_ok e) (e_push_ok e) (e_now e))
         else if reason = ExitReason_VmxPreemptionTimer then preemption_timer c
         else if reason = ExitReason_ExternalInterrupt then (Inr Continue, c)
         else if reason = ExitReason_InterruptWindow then or_return disable_interrupt_window_exiting c
         else (Inr (ExitToUserspace reason), c))"

section \<open>The dispatcher\<close>

definition record_exit :: "exit_env \<Rightarrow> exit_reason \<Rightarrow> bool \<Rightarrow> vm_state \<Rightarrow> vm_state" where
  "record_exit e reason non_det s =
     (let cycles = sat_sub (e_stop e) (e_start e); stats = vs_stats s
      in s\<lparr>vs_stats := (if reason = ExitReason_MonitorTrapFlag \<and> non_det
                        then stats\<lparr>pebs_margin_steps := pebs_margin_steps stats + 1\<rparr>
                        else all_exit_stats_record reason cycles stats)\<rparr>)"

definition stop_reached :: "bool \<Rightarrow> vm_state \<Rightarrow> bool" where
  "stop_reached non_det s = (\<not> non_det \<and> (case stop_at_tsc s of None \<Rightarrow> False | Some t \<Rightarrow> t \<le> emulated_tsc s))"

text \<open>From the statistics on: the trap, the requested stop, the exit record and the full
  event buffer.\<close>

definition finish_exit :: "exit_env \<Rightarrow> exit_reason \<Rightarrow> u64 \<Rightarrow> bool \<Rightarrow> exit_handler_result \<Rightarrow> handler" where
  "finish_exit e reason qual non_det result s =
     (case update_mtf_state (e_margin e) (record_exit e reason non_det s) of
        (Inl err, s) \<Rightarrow> (HandlerError err, s)
      | (Inr _, s) \<Rightarrow>
          if stop_reached non_det s
          then (ExitToUserspace ExitReason_StopTscReached, capture_exit_at_shutdown (e_hash e) (e_pad e) (e_late e) s)
          else
            let s = (if exit_capture_enabled s then capture_exit (e_hash e) (e_pad e) (e_late e) reason qual (\<not> non_det) s else s)
            in if event_buffer_full s \<and> result = Continue then (ExitToUserspace ExitReason_EventBufferFull, s) else (result, s))"

definition handle_exit :: "exit_env \<Rightarrow> ctx_handler" where
  "handle_exit e c =
     (case read_exit_reason (ctx_state c) of
        Inl err \<Rightarrow> (HandlerError err, c)
      | Inr reason \<Rightarrow>
          (case read_exit_qualification (ctx_state c) of
             Inl err \<Rightarrow> (HandlerError err, c)
           | Inr qual \<Rightarrow>
               let non_det = non_deterministic_exit reason qual (ctx_state c);
                   c = c\<lparr>ctx_state := begin_exit non_det (ctx_state c)\<rparr>
               in case dispatch e reason qual c of
                    (Inl r, c) \<Rightarrow> (r, c)
                  | (Inr r, c) \<Rightarrow> on_state (finish_exit e reason qual non_det r) c))"

end
