(* ===== verification/Dispatch_Laws.thy ===== *)
theory Dispatch_Laws
  imports Dispatch Fork_Props Precise_Laws
begin

text \<open>
  Exits that the guest must not notice. An exit at a moment that depends on the host (an
  interrupt of the host, the end of a time slice, a copy-on-write fault, the counter
  before a deadline, a step towards it) leaves everything the guest can observe as it
  was. A requested stop replaces the result of the exit on which it is noticed.
\<close>

section \<open>What the guest can observe\<close>

text \<open>The fields of the control structure that an exit may change without the guest noticing.\<close>

definition host_controls :: "u32 set" where
  "host_controls = {PrimaryProcBasedVmExecControls, VmxPreemptionTimerValue}"

definition guest_fields :: "vmcs \<Rightarrow> u32 \<Rightarrow> u64 option" where
  "guest_fields v f = (if f \<in> host_controls then None else vmcs_fields v f)"

text \<open>The emulated clock, the registers, the devices and channels and the guest's part of
  the control structure.\<close>

definition guest_view :: "vm_state \<Rightarrow>
    (u64 \<times> u64 \<times> u64 \<times> gprs \<times> device_states \<times> guest_msr_state) \<times> (u64 \<times> u64 \<times> u64 \<times> bytes)
    \<times> io_channel_state \<times> serial_console_state \<times> feedback_buffer_info list \<times> (u32 \<Rightarrow> u64 option)" where
  "guest_view s =
     ((emulated_tsc s, tsc_offset s, last_instruction_count s, vs_gprs s, vs_devices s, msr_state s),
      (guest_cr2 s, xcr0_mask s, kernel_gs_base s, guest_xsave s),
      io_channel s, serial_console s, feedback_buffers s, guest_fields (vs_vmcs s))"

text \<open>Writing a control of the host.\<close>

lemma guest_fields_write32 [simp]:
  "f \<in> host_controls \<Longrightarrow> guest_fields (snd (write32 f x v)) = guest_fields v"
  by (auto simp: guest_fields_def write32_def vmwrite_def fun_eq_iff split: option.split)

lemma guest_fields_written:
  "write32 f x v = (r, v') \<Longrightarrow> f \<in> host_controls \<Longrightarrow> guest_fields v' = guest_fields v"
  using guest_fields_write32 [of f x v] by simp

subsection \<open>The steps of the dispatcher\<close>

lemma view_event_write: "guest_view (snd (event_write k f tsc rt h t s)) = guest_view s"
  by (auto simp: event_write_def guest_view_def Let_def split: option.split)

lemma view_emit_exit_event: "guest_view (emit_exit_event p d now s) = guest_view s"
proof -
  have "guest_view (s\<lparr>pending_exit_loc := l\<rparr>) = guest_view s" for s l by (simp add: guest_view_def)
  then show ?thesis
    using view_event_write by (auto simp: emit_exit_event_def Let_def case_prod_beta)
qed

lemma view_write_exit_record: "guest_view (write_exit_record hash pad now reason q fl s) = guest_view s"
proof -
  have "guest_view (s\<lparr>last_pebs_skid := 0, last_pebs_inst_delta := 0, last_pebs_tsc_offset_delta := 0,
      last_pebs_iters_since_arm := 0, last_pebs_arm_delta := 0\<rparr>) = guest_view s" by (simp add: guest_view_def)
  then show ?thesis by (simp add: write_exit_record_def Let_def view_emit_exit_event)
qed

lemma view_captures:
  "guest_view (capture_exit hash pad now reason q d s) = guest_view s"
  "guest_view (capture_exit_at_shutdown hash pad now s) = guest_view s"
proof -
  have f: "guest_view (s\<lparr>last_checkpoint_idx := i\<rparr>) = guest_view s" "guest_view (s\<lparr>exit_captured := b\<rparr>) = guest_view s" for s i b
    by (simp_all add: guest_view_def)
  show "guest_view (capture_exit hash pad now reason q d s) = guest_view s"
    by (simp add: capture_exit_def Let_def case_prod_beta view_write_exit_record f)
  show "guest_view (capture_exit_at_shutdown hash pad now s) = guest_view s"
    by (simp add: capture_exit_at_shutdown_def view_write_exit_record f)
qed

lemma view_update_mtf_state: "guest_view (snd (update_mtf_state m s)) = guest_view s"
proof -
  have "PrimaryProcBasedVmExecControls \<in> host_controls" by (simp add: host_controls_def)
  note w = guest_fields_written [OF _ this]
  show ?thesis
    unfolding update_mtf_state_def Let_def by (auto simp: guest_view_def w split: sum.split prod.split)
qed

lemma view_record_exit: "guest_view (record_exit e reason d s) = guest_view s"
  by (simp add: record_exit_def Let_def guest_view_def)

lemma view_finish_exit: "guest_view (snd (finish_exit e reason q d r s)) = guest_view s"
proof -
  obtain x s1 where u: "update_mtf_state (e_margin e) (record_exit e reason d s) = (x, s1)" by fastforce
  then have "guest_view s1 = guest_view s"
    using view_update_mtf_state [of "e_margin e" "record_exit e reason d s"] by (simp add: view_record_exit)
  then show ?thesis by (auto simp: finish_exit_def u Let_def view_captures split: sum.split)
qed

lemma view_pebs_exit: "guest_view (snd (handle_pebs_precise_exit s)) = guest_view s"
  by (simp add: handle_pebs_precise_exit_def guest_view_def Let_def split: option.split)

subsection \<open>Copy-on-write faults\<close>

text \<open>Same view and same memory, with the memory invariant kept.\<close>

definition unnoticed :: "vm_ctx \<Rightarrow> vm_ctx \<Rightarrow> bool" where
  "unnoticed c c' \<longleftrightarrow>
     guest_view (ctx_state c') = guest_view (ctx_state c) \<and> world_inv (ctx_world c') (ctx_vm c') \<and>
     (\<forall>x n. 0 < n \<longrightarrow> unat x + n \<le> 2 ^ 48 \<longrightarrow> ctx_read c' x n = ctx_read c x n)"

lemma unnoticed_state:
  "world_inv (ctx_world c) (ctx_vm c) \<Longrightarrow> guest_view s = guest_view (ctx_state c) \<Longrightarrow> unnoticed c (c\<lparr>ctx_state := s\<rparr>)"
  by (simp add: unnoticed_def ctx_read_def)

lemma unnoticed_trans: "unnoticed c c1 \<Longrightarrow> unnoticed c1 c2 \<Longrightarrow> unnoticed c c2"
  by (simp add: unnoticed_def)

lemma unnoticed_on_state:
  "unnoticed c c1 \<Longrightarrow> guest_view (snd (h (ctx_state c1))) = guest_view (ctx_state c1) \<Longrightarrow> unnoticed c (snd (on_state h c1))"
  using unnoticed_trans [of c c1] unnoticed_state [of c1] by (simp add: on_state_def case_prod_beta unnoticed_def)

lemma unnoticed_cow_fault:
  assumes inv: "world_inv (ctx_world c) (ctx_vm c)" and phys: "guest_phys gpa"
  shows "unnoticed c (snd (ctx_handle_cow_fault node_ok gpa c))"
proof -
  obtain r v w where run: "vm_handle_cow_fault node_ok (ctx_vm c) gpa (ctx_world c) = (r, v, w)" by (metis prod_cases3)
  have "world_inv w v \<and> (\<forall>x n. 0 < n \<longrightarrow> unat x + n \<le> 2 ^ 48 \<longrightarrow>
      read_guest_memory v (hmem w) x n = read_guest_memory (ctx_vm c) (hmem (ctx_world c)) x n)"
  proof (cases "ctx_vm c")
    case (RootVm r)
    then show ?thesis using run inv by (auto simp: vm_handle_cow_fault_def)
  next
    case (ForkedVm f p)
    then obtain f' where h: "handle_cow_fault node_ok f p gpa (ctx_world c) = (r, f', w)" and v: "v = ForkedVm f' p"
      using run by (auto simp: vm_handle_cow_fault_def split: prod.splits)
    have t: "world_inv w v"
      "\<And>x. reachable_gpa x \<Longrightarrow> page_view v (hmem w) x = page_view (ctx_vm c) (hmem (ctx_world c)) x"
      using handle_cow_fault_transparent [OF inv [unfolded ForkedVm] phys h] by (simp_all add: cow_transparent_def v ForkedVm)
    have "read_guest_memory v (hmem w) x n = read_guest_memory (ctx_vm c) (hmem (ctx_world c)) x n"
      if r: "0 < n" "unat x + n \<le> 2 ^ 48" for x n
    proof -
      have r': "unat x + n \<le> 0x1000000000000" using r(2) by simp
      show ?thesis
        using flat_read_cong [OF t(2) r'] by (simp add: read_guest_memory_def forked_read_flat [OF r(1) r'] v ForkedVm del: forked_read.simps)
    qed
    then show ?thesis using t(1) by blast
  qed
  then show ?thesis
    by (simp add: unnoticed_def ctx_handle_cow_fault_def run Let_def ctx_read_def guest_view_def)
qed

lemma unnoticed_ept_violation:
  assumes inv: "world_inv (ctx_world c) (ctx_vm c)" and phys: "guest_phys (violation_address (ctx_state c))"
    and nd: "is_pebs_induced q \<or> \<not> (in_range_u64 APIC_BASE (APIC_BASE + APIC_SIZE) (violation_address (ctx_state c))
                \<or> in_range_u64 IOAPIC_BASE (IOAPIC_BASE + IOAPIC_SIZE) (violation_address (ctx_state c)))"
  shows "unnoticed c (snd (handle_ept_violation node_ok q c))"
proof -
  have refl: "unnoticed c c" using inv by (simp add: unnoticed_def)
  have cow: "unnoticed c (snd (case ctx_handle_cow_fault node_ok (violation_address (ctx_state c)) c of
      (Some result, c) \<Rightarrow> (result, c) | (None, c) \<Rightarrow> (ExitToUserspace ExitReason_PoolExhausted, c)))"
    using unnoticed_cow_fault [OF inv phys, of node_ok] by (auto split: prod.split option.split)
  show ?thesis
    unfolding handle_ept_violation_def Let_def
    using nd cow refl unnoticed_on_state [of c c handle_pebs_precise_exit] view_pebs_exit by auto
qed

subsection \<open>Exits at a moment of the host's choosing\<close>

lemma non_deterministic_cases:
  assumes "non_deterministic_exit reason qual s"
  obtains "reason = ExitReason_ExternalInterrupt" | "reason = ExitReason_VmxPreemptionTimer"
    | "reason = ExitReason_ExceptionNmi" | "reason = ExitReason_MonitorTrapFlag"
    | "reason = ExitReason_EptViolation"
      "is_pebs_induced (ept_violation_qualification_from qual)
       \<or> \<not> (in_range_u64 APIC_BASE (APIC_BASE + APIC_SIZE) (violation_address s)
            \<or> in_range_u64 IOAPIC_BASE (IOAPIC_BASE + IOAPIC_SIZE) (violation_address s))"
  using assms unfolding non_deterministic_exit_def Let_def is_pebs_induced_def
  by (auto split: if_splits)

lemma view_exception: "\<not> intercept_pf s \<Longrightarrow> snd (handle_exception_nmi s) = s"
  by (simp add: handle_exception_nmi_def Let_def split: sum.split)

lemma unnoticed_preemption_timer:
  assumes "world_inv (ctx_world c) (ctx_vm c)"
  shows "unnoticed c (snd (preemption_timer c))"
proof -
  have "VmxPreemptionTimerValue \<in> host_controls" by (simp add: host_controls_def)
  note w = guest_fields_written [OF _ this]
  show ?thesis
    using unnoticed_state [OF assms]
    by (auto simp: preemption_timer_def Let_def guest_view_def w split: prod.split sum.split)
qed

lemma unnoticed_dispatch:
  assumes inv: "world_inv (ctx_world c) (ctx_vm c)" and phys: "guest_phys (violation_address (ctx_state c))"
    and nd: "non_deterministic_exit reason qual (ctx_state c)"
    and pf: "reason = ExitReason_ExceptionNmi \<Longrightarrow> \<not> intercept_pf (ctx_state c)"
  shows "unnoticed c (snd (dispatch e reason qual c))"
proof -
  have refl: "unnoticed c c" using inv by (simp add: unnoticed_def)
  show ?thesis
    using nd
  proof (cases rule: non_deterministic_cases)
    case 2
    then show ?thesis using unnoticed_preemption_timer [OF inv] by (simp add: dispatch_def)
  next
    case 3
    then have "snd (on_state handle_exception_nmi c) = c" using pf view_exception [of "ctx_state c"]
      by (simp add: on_state_def case_prod_beta)
    then show ?thesis using 3 refl by (simp add: dispatch_def case_prod_beta)
  next
    case 5
    then show ?thesis
      using unnoticed_ept_violation [OF inv phys 5(2), of "e_node_ok e"] by (simp add: dispatch_def case_prod_beta)
  qed (use refl in \<open>simp_all add: dispatch_def\<close>)
qed

lemma non_deterministic_begin:
  "non_deterministic_exit reason qual (s\<lparr>last_exit_deterministic := b\<rparr>) = non_deterministic_exit reason qual s"
proof -
  have f: "current_tsc (s\<lparr>last_exit_deterministic := b\<rparr>) = current_tsc s"
    "violation_address (s\<lparr>last_exit_deterministic := b\<rparr>) = violation_address s"
    "next_io_channel_target_tsc (s\<lparr>last_exit_deterministic := b\<rparr>) = next_io_channel_target_tsc s"
    "next_timer_exit_count (s\<lparr>last_exit_deterministic := b\<rparr>) = next_timer_exit_count s"
    "stop_at_count (s\<lparr>last_exit_deterministic := b\<rparr>) = stop_at_count s"
    by (simp_all add: current_tsc_def violation_address_def next_io_channel_target_tsc_def next_timer_exit_count_def
        stop_at_count_def Let_def)
  then show ?thesis
    unfolding non_deterministic_exit_def Let_def in_single_step_def next_io_channel_exit_count_def f by simp
qed

text \<open>C36. An exit at a moment that depends on the host is not noticed by the guest: it
  leaves the emulated clock, the registers, the devices, the channels, every guest
  field of the control structure and every byte of guest memory as they were,
  whatever the host's clock reads and whichever allocations fail. (An intercepted
  page fault is the guest's own and is passed on to it.)\<close>

theorem nondet_exit_invisible:
  assumes reason: "read_exit_reason (ctx_state c) = Inr reason" and qual: "read_exit_qualification (ctx_state c) = Inr qual"
    and nd: "non_deterministic_exit reason qual (ctx_state c)"
    and pf: "reason = ExitReason_ExceptionNmi \<Longrightarrow> \<not> intercept_pf (ctx_state c)"
    and inv: "world_inv (ctx_world c) (ctx_vm c)" and phys: "guest_phys (violation_address (ctx_state c))"
    and run: "handle_exit e c = (r, c')"
  shows "guest_view (ctx_state c') = guest_view (ctx_state c) \<and> world_inv (ctx_world c') (ctx_vm c') \<and>
    (\<forall>x n. 0 < n \<longrightarrow> unat x + n \<le> 2 ^ 48 \<longrightarrow> ctx_read c' x n = ctx_read c x n)"
proof -
  let ?s = "(ctx_state c)\<lparr>last_exit_deterministic := False\<rparr>"
  let ?c = "c\<lparr>ctx_state := ?s\<rparr>"
  have b: "begin_exit True (ctx_state c) = ?s" by (simp add: begin_exit_def)
  have 1: "unnoticed c ?c" by (rule unnoticed_state [OF inv]) (simp add: guest_view_def)
  have 2: "unnoticed ?c (snd (dispatch e reason qual ?c))"
    by (rule unnoticed_dispatch)
      (use inv phys nd pf in \<open>simp_all add: non_deterministic_begin\<close>, simp add: violation_address_def)
  obtain x c1 where d: "dispatch e reason qual ?c = (x, c1)" by fastforce
  have u: "unnoticed c c1" using unnoticed_trans [OF 1 2] d by simp
  have "unnoticed c c'"
  proof (cases x)
    case (Inl y)
    then show ?thesis using run u by (simp add: handle_exit_def reason qual nd b d Let_def)
  next
    case (Inr y)
    then have "c' = snd (on_state (finish_exit e reason qual True y) c1)"
      using run by (simp add: handle_exit_def reason qual nd b d Let_def)
    then show ?thesis using unnoticed_on_state [OF u, of "finish_exit e reason qual True y"] view_finish_exit by simp
  qed
  then show ?thesis by (simp add: unnoticed_def)
qed

definition w_exit_vmcs :: "u64 \<Rightarrow> u64 \<Rightarrow> u64 \<Rightarrow> vmcs" where
  "w_exit_vmcs reason qual gpa =
     \<lparr>vmcs_loaded = True, vmcs_fields = (\<lambda>_. Some 0)(VmExitReason \<mapsto> reason, ExitQualification \<mapsto> qual, GuestPhysicalAddr \<mapsto> gpa)\<rparr>"

definition w_env :: exit_env where
  "w_env = \<lparr>e_hash = (\<lambda>_. 0), e_pad = [], e_start = 100, e_now = 110, e_stop = 120, e_late = 130, e_node_ok = True,
     e_push_ok = True, e_cpuid = (\<lambda>_ _. (0, 0, 0, 0)), e_caps = w_caps, e_margin = 3\<rparr>"

lemma w_exit_state:
  "read_exit_reason (w_vm (w_exit_vmcs reason qual gpa)) = map_sum UnknownExitReason id (exit_reason_try_from (ucast reason))"
  "read_exit_qualification (w_vm (w_exit_vmcs reason qual gpa)) = Inr qual"
  "violation_address (w_vm (w_exit_vmcs reason qual gpa)) = gpa"
  by (simp_all add: read_exit_reason_def read_exit_qualification_def violation_address_def w_vm_def w_exit_vmcs_def
      read32_def read64_def read_natural_def vmread_def)

theorem nondet_exit_invisible_witness:
  "\<exists>c. is_forked c \<and> read_exit_reason (ctx_state c) = Inr ExitReason_EptViolation \<and>
     violation_address (ctx_state c) = 0x1004 \<and>
     emulated_tsc (ctx_state (snd (handle_exit w_env c))) = 0 \<and>
     ctx_read (snd (handle_exit w_env c)) 0x1ffe 2 = Some [254, 255]"
proof -
  obtain f w where fw: "world_inv w (ForkedVm f w_parent)" "f_cow f = cow_new" "hmem w = w_hmem" by (rule w_child)
  let ?s = "w_vm (w_exit_vmcs 48 2 0x1004)"
  let ?c = "\<lparr>ctx_state = ?s, ctx_vm = ForkedVm f w_parent, ctx_world = w\<rparr>"
  have reason: "read_exit_reason (ctx_state ?c) = Inr ExitReason_EptViolation" by (simp add: w_exit_state exit_reason_try_from_def)
  have nd: "non_deterministic_exit ExitReason_EptViolation 2 (ctx_state ?c)"
    by (simp add: non_deterministic_exit_def w_exit_state in_range_u64_def APIC_BASE_def APIC_SIZE_def IOAPIC_BASE_def
        IOAPIC_SIZE_def Let_def)
  have "page_view (ForkedVm f w_parent) w_hmem x = page_view w_parent w_hmem x" for x
    by (simp add: page_view_def read_page_Forked fw(2))
  then have "read_guest_memory (ForkedVm f w_parent) w_hmem 0x1ffe 2 = Inr [254, 255]"
    using read_guest_memory_flat_read [of "ForkedVm f w_parent" 2 "0x1ffe" w_hmem]
      read_guest_memory_flat_read [of w_parent 2 "0x1ffe" w_hmem] w_parent_mem(3,4)
    by (simp add: flat_read_def)
  then have "ctx_read ?c 0x1ffe 2 = Some [254, 255]" by (simp add: ctx_read_def fw(3))
  moreover have "emulated_tsc ?s = 0" by (simp add: w_vm_def)
  ultimately have "emulated_tsc (ctx_state (snd (handle_exit w_env ?c))) = 0 \<and> ctx_read (snd (handle_exit w_env ?c)) 0x1ffe 2 = Some [254, 255]"
    using nondet_exit_invisible [OF reason _ nd, of w_env "fst (handle_exit w_env ?c)" "snd (handle_exit w_env ?c)"] fw(1)
    by (simp add: w_exit_state guest_phys_def guest_view_def)
  then show ?thesis
    using reason by (intro exI [of _ ?c]) (simp add: is_forked_def w_exit_state)
qed

section \<open>The requested stop\<close>

lemma update_mtf_succeeds:
  assumes "vmcs_loaded (vs_vmcs s)" "vmcs_fields (vs_vmcs s) PrimaryProcBasedVmExecControls \<noteq> None"
  shows "\<exists>s'. update_mtf_state m s = (Inr (), s') \<and> stop_at_tsc s' = stop_at_tsc s \<and> emulated_tsc s' = emulated_tsc s"
  using assms
  by (auto simp: update_mtf_state_def Let_def read32_def write32_def vmread_def vmwrite_def split: option.split)

text \<open>C37. The result of the exit on which a requested stop is noticed is lost: when the
  clock has reached the stop, a triple fault or an invalid guest state is reported to
  user space as the stop, and so is not told apart from a guest that can go on.\<close>

theorem stop_hides_fatal_exit:
  assumes reason: "read_exit_reason (ctx_state c) = Inr reason" and qual: "read_exit_qualification (ctx_state c) = Inr qual"
    and fatal: "reason = ExitReason_TripleFault \<or> reason = ExitReason_InvalidGuestState"
    and stop: "stop_at_tsc (ctx_state c) = Some t" "t \<le> current_tsc (ctx_state c)"
    and ctrl: "vmcs_loaded (vs_vmcs (ctx_state c))"
      "vmcs_fields (vs_vmcs (ctx_state c)) PrimaryProcBasedVmExecControls \<noteq> None"
  shows "fst (handle_exit e c) = ExitToUserspace ExitReason_StopTscReached"
proof -
  let ?s = "begin_exit False (ctx_state c)"
  let ?r = "record_exit e reason False ?s"
  have nd: "non_deterministic_exit reason qual (ctx_state c) = False"
    using fatal by (auto simp: non_deterministic_exit_def)
  have d: "\<exists>x. dispatch e reason qual (c\<lparr>ctx_state := ?s\<rparr>) = (Inr x, c\<lparr>ctx_state := ?s\<rparr>)"
    using fatal by (auto simp: dispatch_def)
  have s: "vs_vmcs ?r = vs_vmcs (ctx_state c)" "stop_at_tsc ?r = Some t" "emulated_tsc ?r = current_tsc (ctx_state c)"
    by (simp_all add: begin_exit_def record_exit_def Let_def stop current_tsc_def)
  obtain s' where u: "update_mtf_state (e_margin e) ?r = (Inr (), s')" "stop_at_tsc s' = Some t"
    "emulated_tsc s' = current_tsc (ctx_state c)"
    using update_mtf_succeeds [of ?r "e_margin e"] ctrl unfolding s by auto
  obtain x where x: "dispatch e reason qual (c\<lparr>ctx_state := ?s\<rparr>) = (Inr x, c\<lparr>ctx_state := ?s\<rparr>)" using d by blast
  have "fst (finish_exit e reason qual False x ?s) = ExitToUserspace ExitReason_StopTscReached"
    by (simp add: finish_exit_def u stop_reached_def stop(2))
  then show ?thesis by (simp add: handle_exit_def reason qual nd x Let_def on_state_def case_prod_beta)
qed

theorem stop_hides_fatal_exit_witness:
  "\<exists>c. read_exit_reason (ctx_state c) = Inr ExitReason_TripleFault \<and>
     fst (handle_exit w_env c) = ExitToUserspace ExitReason_StopTscReached"
proof -
  let ?s = "(w_vm (w_exit_vmcs 2 0 0))\<lparr>stop_at_tsc := Some 5000, last_instruction_count := 5000\<rparr>"
  let ?c = "\<lparr>ctx_state = ?s, ctx_vm = RootVm (fst w_root), ctx_world = w_world\<rparr>"
  have r: "read_exit_reason ?s = Inr ExitReason_TripleFault" "read_exit_qualification ?s = Inr 0"
    using w_exit_state [of 2 0 0] by (simp_all add: read_exit_reason_def read_exit_qualification_def exit_reason_try_from_def)
  have "fst (handle_exit w_env ?c) = ExitToUserspace ExitReason_StopTscReached"
    using stop_hides_fatal_exit [of ?c ExitReason_TripleFault 0 5000 w_env] r
    by (simp add: current_tsc_def w_vm_def w_exit_vmcs_def)
  then show ?thesis using r by (intro exI [of _ ?c]) simp
qed

end
