(* ===== verification/Decoder_Laws.thy ===== *)
theory Decoder_Laws
  imports Guest_Access
begin

text \<open>
  The decoder of memory instructions (\<open>decoder.rs\<close>): what it returns is a register number,
  an operand size and a length within their ranges, and the length covers exactly the
  bytes the decoder has looked at.
\<close>

section \<open>Bytes the decoder looks at\<close>

definition agree :: "nat \<Rightarrow> bytes \<Rightarrow> bytes \<Rightarrow> bool" where
  "agree n bs bs' \<longleftrightarrow> n \<le> length bs \<and> n \<le> length bs' \<and> (\<forall>i < n. bs' ! i = bs ! i)"

lemma agree_mono: "agree n bs bs' \<Longrightarrow> m \<le> n \<Longrightarrow> agree m bs bs'"
  by (auto simp: agree_def)

lemma agree_nth: "agree n bs bs' \<Longrightarrow> i < n \<Longrightarrow> bs' ! i = bs ! i"
  by (simp add: agree_def)

lemma agree_drop: "agree (k + n) bs bs' \<Longrightarrow> agree n (drop k bs) (drop k bs')"
  by (auto simp: agree_def)

lemma agree_Cons: "agree (Suc n) (b # bs) bs' \<Longrightarrow> \<exists>bs2. bs' = b # bs2 \<and> agree n bs bs2"
  by (cases bs') (auto simp: agree_def nth_Cons split: nat.splits)

lemma agree_take: "n \<le> length bs \<Longrightarrow> agree n bs (take n bs @ rest)"
  by (auto simp: agree_def nth_append)

section \<open>Prefixes\<close>

lemma skip_prefixes_pos: "skip_prefixes bs pos o1 = (p, o2) \<Longrightarrow> pos \<le> p \<and> p \<le> pos + length bs"
  by (induction bs pos o1 rule: skip_prefixes.induct) (force split: if_splits)+

lemma skip_prefixes_agree:
  assumes "skip_prefixes bs pos o1 = (p, o2)" "p < pos + length bs" "agree (p - pos + 1) bs bs'"
  shows "skip_prefixes bs' pos o1 = (p, o2)"
  using assms
proof (induction bs pos o1 arbitrary: bs' rule: skip_prefixes.induct)
  case (2 b bs pos o1)
  obtain bs2 where bs': "bs' = b # bs2" and a: "agree (p - pos) bs bs2"
    using agree_Cons [of "p - pos" b bs bs'] 2(5) by auto
  show ?case
  proof (cases "b \<in> {0x66, 0x67, 0x26, 0x2E, 0x36, 0x3E, 0x64, 0x65, 0xF0, 0xF2, 0xF3}")
    case True
    define o3 where "o3 = (b = 0x66 \<or> o1)"
    have s: "skip_prefixes (b # xs) pos o1 = skip_prefixes xs (pos + 1) o3" for xs
      using True by (auto simp: o3_def)
    have run: "skip_prefixes bs (pos + 1) o3 = (p, o2)" using 2(3) s by simp
    then have le: "pos + 1 \<le> p" using skip_prefixes_pos by blast
    then have a': "agree (p - (pos + 1) + 1) bs bs2" using a by (simp add: Suc_diff_Suc Suc_le_eq)
    have lt: "p < pos + 1 + length bs" using 2(4) by simp
    have "skip_prefixes bs2 (pos + 1) o3 = (p, o2)"
    proof (cases "b = 0x66")
      case t: True
      then show ?thesis using 2(1) [OF t _ lt a'] run by (simp add: o3_def)
    next
      case f: False
      then show ?thesis using 2(2) [OF f _ _ lt a'] run True by (simp add: o3_def)
    qed
    then show ?thesis by (simp only: bs' s)
  next
    case False
    then show ?thesis using 2(3) by (auto simp: bs')
  qed
qed simp

section \<open>The ModR/M byte\<close>

lemma modrm_displacement_agree:
  assumes "modrm_displacement_length m r bs = Inr k"
  shows "k \<le> length bs" and "agree k bs bs' \<Longrightarrow> modrm_displacement_length m r bs' = Inr k"
proof -
  show "k \<le> length bs"
    using assms by (auto simp: modrm_displacement_length_def Let_def split: if_splits)
  assume a: "agree k bs bs'"
  show "modrm_displacement_length m r bs' = Inr k"
  proof (cases "r = 4 \<and> m \<noteq> 3")
    case True
    then have "0 < k" "bs \<noteq> []" using assms by (auto simp: modrm_displacement_length_def Let_def split: if_splits)
    moreover from this(1) have ne: "bs' \<noteq> []" using a by (auto simp: agree_def)
    ultimately have h: "hd bs' = hd bs" "bs' \<noteq> []" "bs \<noteq> []"
      using agree_nth [OF a, of 0] by (simp_all add: hd_conv_nth)
    then show ?thesis
      using assms a True h(3)
      by (auto simp: modrm_displacement_length_def Let_def agree_def split: if_splits)
  next
    case False
    then show ?thesis
      using assms a by (auto simp: modrm_displacement_length_def Let_def agree_def split: if_splits)
  qed
qed

lemma low_bits: "(x AND 7) OR (if b then 8 else 0) < (16 :: u8)"
proof -
  have "unat (x AND 7) \<le> 7" using word_and_le1 [of x 7] by (simp add: word_le_nat_alt)
  then have "unat (x AND 7) \<in> {0, 1, 2, 3, 4, 5, 6, 7}" by auto
  then have "x AND 7 \<in> {0, 1, 2, 3, 4, 5, 6, 7}" by (simp add: word_unat_eq_iff)
  then show ?thesis by (elim insertE emptyE) simp_all
qed

lemma decode_modrm_sound:
  assumes "decode_modrm bs pos rex op sz = Inr d" and "length bs \<le> 255"
  shows "d_register d < 16 \<and> d_operand_size d = sz \<and> d_operation d = op \<and> pos < unat (d_length d) \<and> unat (d_length d) \<le> length bs \<and>
    (\<forall>bs'. agree (unat (d_length d)) bs bs' \<longrightarrow> decode_modrm bs' pos rex op sz = Inr d)"
proof -
  let ?mod = "\<lambda>xs. drop_bit 6 (xs ! pos :: u8)" and ?rm = "\<lambda>xs. ((xs ! pos :: u8) AND 7 OR (if rex_b rex then 8 else 0)) AND 7"
  obtain k where k: "modrm_displacement_length (?mod bs) (?rm bs) (drop (Suc pos) bs) = Inr k"
    and lt: "pos < length bs" and m: "?mod bs \<noteq> 3"
    and d: "d = \<lparr>d_length = of_nat (Suc pos + k), d_operation = op,
        d_register = (drop_bit 3 (bs ! pos) AND 7) OR (if rex_r rex then 8 else 0), d_operand_size = sz\<rparr>"
    using assms(1) by (auto simp: decode_modrm_def Let_def not_le split: if_splits sum.splits)
  have "k \<le> length bs - Suc pos" using modrm_displacement_agree(1) [OF k] by simp
  then have n: "Suc pos + k \<le> length bs" using lt by linarith
  have "unat (of_nat (Suc pos + k) :: u8) = Suc pos + k" by (rule unat_of_nat_id) (use n assms(2) in simp)
  then have len: "unat (d_length d) = Suc pos + k" by (simp only: d decoded_instruction.simps)
  have "decode_modrm bs' pos rex op sz = Inr d" if a: "agree (Suc pos + k) bs bs'" for bs'
  proof -
    have e: "bs' ! pos = bs ! pos" "pos < length bs'" using a by (auto simp: agree_def)
    have "modrm_displacement_length (?mod bs) (?rm bs) (drop (Suc pos) bs') = Inr k"
      by (rule modrm_displacement_agree(2) [OF k agree_drop [OF a]])
    then show ?thesis using e m by (simp add: decode_modrm_def Let_def d)
  qed
  moreover have "d_register d < 16" by (simp only: d decoded_instruction.simps low_bits)
  ultimately show ?thesis using n by (simp add: len) (simp add: d)
qed

section \<open>The decoder\<close>

text \<open>The path a successful decoding takes: the end \<open>p\<close> of the legacy prefixes, the REX
  prefix, and the opcode at \<open>q\<close>, which has one byte or two.\<close>

definition opcode_at :: "bytes \<Rightarrow> nat \<Rightarrow> bool \<Rightarrow> rex_prefix \<Rightarrow> decode_error + decoded_instruction" where
  "opcode_at bs q opsize_prefix rex =
     (let opsize = (if rex_w rex then 8 else if opsize_prefix then 2 else 4); opcode = bs ! q; q = q + 1
      in if opcode = 0x8B then decode_modrm bs q rex Load opsize
         else if opcode = 0x89 then decode_modrm bs q rex Store opsize
         else if opcode = 0x8A then decode_modrm bs q rex Load 1
         else if opcode = 0x88 then decode_modrm bs q rex Store 1
         else if opcode = 0x0F then
           (if length bs \<le> q then Inl BufferTooShort
            else let opcode2 = bs ! q; q = q + 1
                 in if opcode2 = 0xB6 then decode_modrm bs q rex Load 1
                    else if opcode2 = 0xB7 then decode_modrm bs q rex Load 2
                    else Inl UnsupportedOpcode)
         else Inl UnsupportedOpcode)"

lemma opcode_at_sound:
  assumes "opcode_at bs q o1 rex = Inr d" and "length bs \<le> 255"
  shows "d_register d < 16 \<and> d_operand_size d \<in> {1, 2, 4, 8} \<and> Suc q < unat (d_length d) \<and> unat (d_length d) \<le> length bs \<and>
    (\<forall>bs'. agree (unat (d_length d)) bs bs' \<longrightarrow> opcode_at bs' q o1 rex = Inr d)"
proof (cases "bs ! q = 0x0F")
  case True
  obtain sz where lt: "Suc q < length bs" and two: "bs ! Suc q = 0xB6 \<and> sz = 1 \<or> bs ! Suc q = 0xB7 \<and> sz = 2"
    and m: "decode_modrm bs (Suc (Suc q)) rex Load sz = Inr d"
    using assms(1) True by (auto simp: opcode_at_def Let_def split: if_splits)
  note sound = decode_modrm_sound [OF m assms(2)]
  have "opcode_at bs' q o1 rex = Inr d" if a: "agree (unat (d_length d)) bs bs'" for bs'
  proof -
    have e: "bs' ! q = 0x0F" "bs' ! Suc q = bs ! Suc q" "Suc q < length bs'"
      using agree_nth [OF a] sound True a by (auto simp: agree_def)
    have "decode_modrm bs' (Suc (Suc q)) rex Load sz = Inr d" using sound a by blast
    then show ?thesis using e two by (auto simp: opcode_at_def Let_def)
  qed
  then show ?thesis using sound two by auto
next
  case False
  obtain op sz where sz: "sz \<in> {1, 2, 4, 8}" and m: "decode_modrm bs (Suc q) rex op sz = Inr d"
    and same: "\<And>bs'. bs' ! q = bs ! q \<Longrightarrow> opcode_at bs' q o1 rex = decode_modrm bs' (Suc q) rex op sz"
    using assms(1) False unfolding opcode_at_def Let_def by (auto split: if_splits)
  note sound = decode_modrm_sound [OF m assms(2)]
  have "opcode_at bs' q o1 rex = Inr d" if a: "agree (unat (d_length d)) bs bs'" for bs'
    using same [OF agree_nth [OF a, of q]] sound a by auto
  then show ?thesis using sound sz by auto
qed

lemma decode_instruction_path:
  "decode_instruction bs =
     (let (p, o1) = skip_prefixes bs 0 False
      in if length bs \<le> p then Inl BufferTooShort
         else let q = (if rex_from_byte (bs ! p) \<noteq> None then p + 1 else p);
                  rex = (case rex_from_byte (bs ! p) of Some r \<Rightarrow> r | None \<Rightarrow> rex_none)
              in if length bs \<le> q then Inl BufferTooShort else opcode_at bs q o1 rex)"
  by (cases "bs = []") (simp_all add: decode_instruction_def opcode_at_def Let_def case_prod_beta)

text \<open>C38. The decoder returns values in their ranges: a register number below 16, an
  operand size of 1, 2, 4 or 8 bytes and a length of at least two bytes that stays inside
  the fetched bytes. The length is exact in that the bytes it covers determine the
  result: whatever follows them, the decoder returns the same instruction.\<close>

theorem decode_instruction_typed:
  assumes run: "decode_instruction bs = Inr d" and len: "length bs \<le> 255"
  shows "d_register d < 16 \<and> d_operand_size d \<in> {1, 2, 4, 8} \<and> 2 \<le> unat (d_length d) \<and> unat (d_length d) \<le> length bs \<and>
    (\<forall>rest. decode_instruction (take (unat (d_length d)) bs @ rest) = Inr d)"
proof -
  obtain p o1 where sk: "skip_prefixes bs 0 False = (p, o1)" by fastforce
  define q where "q = (if rex_from_byte (bs ! p) \<noteq> None then p + 1 else p)"
  define rex where "rex = (case rex_from_byte (bs ! p) of Some r \<Rightarrow> r | None \<Rightarrow> rex_none)"
  have p: "p < length bs" and q: "q < length bs" and o: "opcode_at bs q o1 rex = Inr d"
    using run unfolding decode_instruction_path sk q_def rex_def by (auto simp: Let_def not_le split: if_splits)
  note sound = opcode_at_sound [OF o len]
  have pq: "p \<le> q" by (simp add: q_def)
  have "decode_instruction (take (unat (d_length d)) bs @ rest) = Inr d" for rest
  proof -
    let ?bs = "take (unat (d_length d)) bs @ rest"
    have a: "agree (unat (d_length d)) bs ?bs" using agree_take sound by blast
    have e: "?bs ! p = bs ! p" "\<not> length ?bs \<le> p" "\<not> length ?bs \<le> q"
      using agree_nth [OF a, of p] a sound pq by (auto simp: agree_def)
    have "skip_prefixes ?bs 0 False = (p, o1)"
      using skip_prefixes_agree [OF sk] p agree_mono [OF a, of "p + 1"] sound pq by simp
    moreover have "opcode_at ?bs q o1 rex = Inr d" using sound a by blast
    ultimately show ?thesis
      unfolding decode_instruction_path Let_def prod.case using e by (simp add: q_def rex_def)
  qed
  then show ?thesis using sound by auto
qed

theorem decode_instruction_typed_witness:
  "decode_instruction [0x41, 0x8B, 0x47, 0x20, 0x90, 0x90]
     = Inr \<lparr>d_length = 4, d_operation = Load, d_register = 0, d_operand_size = 4\<rparr> \<and>
   decode_instruction [0x41, 0x8B, 0x47, 0x20, 0xCC]
     = Inr \<lparr>d_length = 4, d_operation = Load, d_register = 0, d_operand_size = 4\<rparr>"
proof -
  let ?d = "\<lparr>d_length = 4, d_operation = Load, d_register = 0, d_operand_size = 4\<rparr>"
  have r: "decode_instruction [0x41, 0x8B, 0x47, 0x20, 0x90, 0x90] = Inr ?d" by code_simp
  show ?thesis using r decode_instruction_typed [OF r] by simp
qed

end
