(* ===== verification/Run.thy ===== *)
theory Run
  imports Dispatch
begin

text \<open>
  The run loop (\<open>bedrock-vmx/src/traits/vm_run.rs\<close>), the instruction counter
  (\<open>bedrock/instruction_counter.rs\<close>) and the completion of exit records
  (\<open>finalize_exit_record\<close> of \<open>vm/root.rs\<close> and \<open>vm/forked.rs\<close>).

  The guest and the processor are outside the model: an iteration of the loop carries,
  as a function, what happens between VM entry and VM exit, together with the readings
  of the host's clock and the other outcomes of that iteration. The loop runs over a
  list of iterations; when the list ends before the loop does, the guest is still
  running.
\<close>

section \<open>The instruction counter\<close>

datatype instruction_counter_error = Unavailable | ProgramFailed | RestoreFailed

definition PERFEVTSEL0_INST_RETIRED_ANY_P :: u64 where
  "PERFEVTSEL0_INST_RETIRED_ANY_P = push_bit 16 1 OR push_bit 17 1 OR push_bit 22 1 OR 0xC0"

definition PERF_GLOBAL_CTRL_PMC0 :: u64 where "PERF_GLOBAL_CTRL_PMC0 = 1"

text \<open>The page with the list entry is its physical address and the data of the entry.\<close>

record instruction_counter =
  msr_entry_page :: "(u64 \<times> u64) option"
  saved_perfevtsel0 :: u64
  guest_perf_global_ctrl :: u64
  host_perf_global_ctrl :: u64
  ic_armed :: bool

definition instruction_counter_new :: "u64 option \<Rightarrow> instruction_counter" where
  "instruction_counter_new page =
     \<lparr>msr_entry_page = map_option (\<lambda>p. (p, 0)) page, saved_perfevtsel0 = 0, guest_perf_global_ctrl = 0,
      host_perf_global_ctrl = 0, ic_armed = False\<rparr>"

definition ic_read :: "instruction_counter \<Rightarrow> u64" where
  "ic_read ic = (case msr_entry_page ic of Some (_, d) \<Rightarrow> d | None \<Rightarrow> 0)"

definition perf_global_ctrl_values :: "instruction_counter \<Rightarrow> (u64 \<times> u64) option" where
  "perf_global_ctrl_values ic = (if ic_armed ic then Some (guest_perf_global_ctrl ic, host_perf_global_ctrl ic) else None)"

definition msr_save_load_entry_phys :: "instruction_counter \<Rightarrow> u64 option" where
  "msr_save_load_entry_phys ic = map_option fst (msr_entry_page ic)"

text \<open>\<open>rd_ok\<close> and \<open>wr_ok\<close> tell which registers can be read and written without a fault.\<close>

definition ic_prepare ::
  "(msr_number \<Rightarrow> bool) \<Rightarrow> (msr_number \<Rightarrow> bool) \<Rightarrow> msr_file \<Rightarrow> instruction_counter
   \<Rightarrow> (instruction_counter_error + unit) \<times> instruction_counter \<times> msr_file" where
  "ic_prepare rd_ok wr_ok hw ic =
     (if msr_entry_page ic = None then (Inr (), ic, hw)
      else if \<not> rd_ok IA32_PERF_GLOBAL_CTRL then (Inl Unavailable, ic, hw)
      else
        let host = hw IA32_PERF_GLOBAL_CTRL AND NOT PERF_GLOBAL_CTRL_PMC0;
            ic = ic\<lparr>host_perf_global_ctrl := host, guest_perf_global_ctrl := host OR PERF_GLOBAL_CTRL_PMC0\<rparr>
        in if \<not> rd_ok IA32_PERFEVTSEL0 then (Inl Unavailable, ic, hw)
           else
             let ic = ic\<lparr>saved_perfevtsel0 := hw IA32_PERFEVTSEL0\<rparr>
             in if \<not> wr_ok IA32_PERFEVTSEL0 then (Inl ProgramFailed, ic, hw)
                else (Inr (), ic\<lparr>ic_armed := True\<rparr>, hw(IA32_PERFEVTSEL0 := PERFEVTSEL0_INST_RETIRED_ANY_P)))"

definition ic_finish ::
  "(msr_number \<Rightarrow> bool) \<Rightarrow> msr_file \<Rightarrow> instruction_counter
   \<Rightarrow> (instruction_counter_error + unit) \<times> instruction_counter \<times> msr_file" where
  "ic_finish wr_ok hw ic =
     (if \<not> ic_armed ic then (Inr (), ic, hw)
      else if \<not> wr_ok IA32_PERFEVTSEL0 then (Inl RestoreFailed, ic, hw)
      else (Inr (), ic\<lparr>ic_armed := False\<rparr>, hw(IA32_PERFEVTSEL0 := saved_perfevtsel0 ic)))"

section \<open>State, environment and errors\<close>

datatype vm_run_error =
    RunInstructionCounter instruction_counter_error
  | RunVmEntry
  | RunExitHandler exit_error
  | RunVmcsLoad string
  | RunVmcsClear string
  | WriteHostRsp vmcs_access_error
  | ReadHostCr3
  | WriteHostCr3 vmcs_access_error
  | WriteHostFsBase vmcs_access_error
  | WriteHostGsBase vmcs_access_error
  | WriteHostTrBase vmcs_access_error
  | WriteHostGdtrBase vmcs_access_error
  | RunInveptFailed

text \<open>The VM, the model-specific registers of the processor it runs on, its instruction
  counter and the guest registers of the context that the entry code switches.\<close>

record run_state =
  rs_ctx :: vm_ctx
  rs_msrs :: msr_file
  rs_counter :: instruction_counter
  rs_regs :: gprs

text \<open>What the host provides to one call of \<open>run\<close>.\<close>

record run_env =
  re_cpu :: u32
  re_load_ok :: bool
  re_invept_ok :: bool
  re_clear_ok :: bool
  re_cr3 :: "u64 option"
  re_tr_base :: u64
  re_gdtr_base :: u64
  re_host_rsp :: u64
  re_rd_ok :: "msr_number \<Rightarrow> bool"
  re_wr_ok :: "msr_number \<Rightarrow> bool"
  re_margin :: u64

text \<open>One iteration: what the guest and the processor do between entry and exit (and
  whether the entry succeeded), the readings of the clock, the environment of the exit
  and whether the scheduler wants the processor.\<close>

record iteration =
  it_guest :: "run_state \<Rightarrow> bool \<times> run_state"
  it_loop_start :: u64
  it_inject :: u64
  it_pre_entry :: u64
  it_post_exit :: u64
  it_pre_irq :: u64
  it_post_irq :: u64
  it_pre_handler :: u64
  it_loop_end :: u64
  it_pmc0 :: u64
  it_exit :: exit_env
  it_need_resched :: bool

definition upd_state :: "(vm_state \<Rightarrow> vm_state) \<Rightarrow> run_state \<Rightarrow> run_state" where
  "upd_state f rs = rs\<lparr>rs_ctx := (rs_ctx rs)\<lparr>ctx_state := f (ctx_state (rs_ctx rs))\<rparr>\<rparr>"

definition upd_stats :: "(all_exit_stats \<Rightarrow> all_exit_stats) \<Rightarrow> run_state \<Rightarrow> run_state" where
  "upd_stats f = upd_state (\<lambda>s. s\<lparr>vs_stats := f (vs_stats s)\<rparr>)"

section \<open>Registers\<close>

text \<open>The stack pointer is in the control structure and stays out of both copies.\<close>

definition sync_gprs_to_vmx_ctx :: "run_state \<Rightarrow> run_state" where
  "sync_gprs_to_vmx_ctx rs = rs\<lparr>rs_regs := (vs_gprs (ctx_state (rs_ctx rs)))\<lparr>rsp := rsp (rs_regs rs)\<rparr>\<rparr>"

definition sync_gprs_from_vmx_ctx :: "run_state \<Rightarrow> run_state" where
  "sync_gprs_from_vmx_ctx rs = upd_state (\<lambda>s. s\<lparr>vs_gprs := (rs_regs rs)\<lparr>rsp := rsp (vs_gprs s)\<rparr>\<rparr>) rs"

section \<open>Completing exit records\<close>

definition memory_hash_input :: "vm_ctx \<Rightarrow> bytes" where
  "memory_hash_input c =
     (case ctx_vm c of
        RootVm r \<Rightarrow>
          let g = r_memory r
          in concat (map (\<lambda>i. read_frame (hmem (ctx_world c)) (gm_frame g (i div PAGE_SIZE)) (i mod PAGE_SIZE) 1) [0..<gm_size g])
      | ForkedVm f p \<Rightarrow>
          concat (map (\<lambda>(gpa, fr). to_le 8 gpa @ read_frame (hmem (ctx_world c)) fr 0 PAGE_SIZE) (cow_map (f_cow f))))"

definition finalize_exit_record :: "(bytes \<Rightarrow> u64) \<Rightarrow> vm_ctx \<Rightarrow> vm_ctx" where
  "finalize_exit_record hash c =
     (let s = ctx_state c
      in if pending_exit_loc s = None then c
         else
           let memory_hash = (if skip_memory_hash s \<or> exit_trigger s = Trigger_Disabled then 0 else hash (memory_hash_input c));
               pages = (case ctx_vm c of RootVm _ \<Rightarrow> 0 | ForkedVm f _ \<Rightarrow> of_nat (cow_count (f_cow f)))
           in c\<lparr>ctx_state := finalize_exit_memory_hash memory_hash pages s\<rparr>)"

section \<open>One iteration\<close>

datatype loop_outcome = Next | Break "vm_run_error + exit_reason" | Return vm_run_error

text \<open>The MSRs of precise exits before the entry, when the counter is armed.\<close>

definition before_entry :: "u64 \<Rightarrow> run_state \<Rightarrow> bool \<times> run_state" where
  "before_entry pmc0 rs =
     (let s = ctx_state (rs_ctx rs);
          hw = (rs_msrs rs)(IA32_KERNEL_GS_BASE := kernel_gs_base s);
          armed = (case vs_pebs s of None \<Rightarrow> False | Some p \<Rightarrow> armed_action p \<noteq> None);
          rs = rs\<lparr>rs_msrs := hw\<rparr>
      in if armed
         then (True, case pebs_pre_vm_entry (Some \<circ> hw) pmc0 s of None \<Rightarrow> rs | Some s \<Rightarrow> upd_state (\<lambda>_. s) rs)
         else (False, rs))"

text \<open>After the exit: the host's counter registers and \<open>KERNEL_GS_BASE\<close>.\<close>

definition after_exit :: "u64 \<Rightarrow> bool \<Rightarrow> run_state \<Rightarrow> run_state" where
  "after_exit host_kernel_gs_base armed rs =
     (let rs = (if armed
                then case pebs_post_vm_exit (msr_save_load_entry_phys (rs_counter rs)) (ctx_state (rs_ctx rs)) of
                       None \<Rightarrow> rs
                     | Some (writes, s) \<Rightarrow>
                         (upd_state (\<lambda>_. s) rs)\<lparr>rs_msrs := fold (\<lambda>(m, x) hw. hw(m := x)) writes (rs_msrs rs)\<rparr>
                else rs);
          rs = upd_state (\<lambda>s. s\<lparr>kernel_gs_base := rs_msrs rs IA32_KERNEL_GS_BASE\<rparr>) rs
      in rs\<lparr>rs_msrs := (rs_msrs rs)(IA32_KERNEL_GS_BASE := host_kernel_gs_base)\<rparr>)"

definition handle_iteration_exit :: "iteration \<Rightarrow> run_state \<Rightarrow> loop_outcome \<times> run_state" where
  "handle_iteration_exit it rs =
     (let (r, c) = handle_exit (it_exit it) (rs_ctx rs);
          total = (\<lambda>c. upd_stats (\<lambda>st. st\<lparr>total_run_cycles := total_run_cycles st + sat_sub (it_loop_end it) (it_loop_start it)\<rparr>)
                        (rs\<lparr>rs_ctx := c\<rparr>))
      in case r of
           Continue \<Rightarrow>
             (if it_need_resched it then Break (Inr ExitReason_NeedResched) else Next,
              total (finalize_exit_record (e_hash (it_exit it)) c))
         | ExitToUserspace reason \<Rightarrow> (Break (Inr reason), total (finalize_exit_record (e_hash (it_exit it)) c))
         | HandlerError e \<Rightarrow> (Break (Inl (RunExitHandler e)), total c))"

definition run_iteration :: "u64 \<Rightarrow> u64 \<Rightarrow> iteration \<Rightarrow> run_state \<Rightarrow> loop_outcome \<times> run_state" where
  "run_iteration margin host_kernel_gs_base it rs =
     (let rs = sync_gprs_to_vmx_ctx rs
      in case inject_pending_interrupt margin (it_inject it) (ctx_state (rs_ctx rs)) of
           (Inl e, s) \<Rightarrow> (Return (RunExitHandler e), upd_state (\<lambda>_. s) rs)
         | (Inr _, s) \<Rightarrow>
             let rs = upd_stats (\<lambda>st. st\<lparr>vmentry_overhead_cycles :=
                        vmentry_overhead_cycles st + sat_sub (it_pre_entry it) (it_loop_start it)\<rparr>) (upd_state (\<lambda>_. s) rs);
                 (armed, rs) = before_entry (it_pmc0 it) rs;
                 (entered, rs) = it_guest it rs;
                 rs = after_exit host_kernel_gs_base armed rs;
                 rs = upd_stats (\<lambda>st. st\<lparr>guest_cycles := guest_cycles st + sat_sub (it_post_exit it) (it_pre_entry it)\<rparr>) rs;
                 rs = upd_state (\<lambda>s. s\<lparr>last_instruction_count := ic_read (rs_counter rs)\<rparr>) rs;
                 irq = sat_sub (it_post_irq it) (it_pre_irq it);
                 rs = upd_stats (\<lambda>st. st\<lparr>irq_window_cycles := irq_window_cycles st + irq\<rparr>) rs
             in if \<not> entered then (Return RunVmEntry, rs)
                else
                  handle_iteration_exit it
                    (upd_stats (\<lambda>st. st\<lparr>vmexit_overhead_cycles :=
                        vmexit_overhead_cycles st + sat_sub (sat_sub (it_pre_handler it) (it_post_exit it)) irq\<rparr>)
                      (sync_gprs_from_vmx_ctx rs)))"

text \<open>The loop; \<open>None\<close> when the iterations end before it does.\<close>

fun run_iterations :: "u64 \<Rightarrow> u64 \<Rightarrow> iteration list \<Rightarrow> run_state \<Rightarrow> loop_outcome option \<times> run_state" where
  "run_iterations margin gs [] rs = (None, rs)"
| "run_iterations margin gs (it # its) rs =
     (case run_iteration margin gs it rs of
        (Next, rs) \<Rightarrow> run_iterations margin gs its rs
      | (out, rs) \<Rightarrow> (Some out, rs))"

section \<open>The run loop\<close>

definition write_host :: "(vmcs_access_error \<Rightarrow> vm_run_error) \<Rightarrow> u32 \<Rightarrow> u64 \<Rightarrow> (run_state, vm_run_error, unit) fallible" where
  "write_host err field x rs =
     (case write_natural field x (vs_vmcs (ctx_state (rs_ctx rs))) of
        (Inl e, v) \<Rightarrow> (Inl (err e), upd_state (\<lambda>s. s\<lparr>vs_vmcs := v\<rparr>) rs)
      | (Inr _, v) \<Rightarrow> (Inr (), upd_state (\<lambda>s. s\<lparr>vs_vmcs := v\<rparr>) rs))"

definition write_host_state :: "run_env \<Rightarrow> (run_state, vm_run_error, unit) fallible" where
  "write_host_state e rs =
     (case re_cr3 e of
        None \<Rightarrow> (Inl ReadHostCr3, rs)
      | Some root \<Rightarrow>
          for_each [(WriteHostCr3, HostCr3, root), (WriteHostFsBase, HostFsBase, rs_msrs rs IA32_FS_BASE),
                    (WriteHostGsBase, HostGsBase, rs_msrs rs IA32_GS_BASE), (WriteHostTrBase, HostTrBase, re_tr_base e),
                    (WriteHostGdtrBase, HostGdtrBase, re_gdtr_base e), (WriteHostRsp, HostRsp, re_host_rsp e)]
            (\<lambda>(err, field, x). write_host err field x) rs)"

definition write_counter_fields :: "instruction_counter \<Rightarrow> vm_state \<Rightarrow> vm_state" where
  "write_counter_fields ic s =
     (let v = vs_vmcs s;
          v = (case msr_save_load_entry_phys ic of
                 None \<Rightarrow> v
               | Some phys \<Rightarrow>
                   let v = snd (write64 VmExitMsrStoreAddr phys v); v = snd (write32 VmExitMsrStoreCount 1 v);
                       v = snd (write64 VmEntryMsrLoadAddr phys v)
                   in snd (write32 VmEntryMsrLoadCount 1 v));
          v = (case perf_global_ctrl_values ic of
                 None \<Rightarrow> v
               | Some (guest_val, host_val) \<Rightarrow>
                   let guest_val = (if vs_pebs s \<noteq> None then guest_val OR PERF_GLOBAL_CTRL_FIXED_CTR0 else guest_val);
                       v = snd (write64 GuestIa32PerfGlobalCtrl guest_val v);
                       v = snd (write64 HostIa32PerfGlobalCtrl host_val v);
                       v = (case read32 VmEntryControls v of
                              Inl _ \<Rightarrow> v
                            | Inr x \<Rightarrow> snd (write32 VmEntryControls (x OR vm_entry_LOAD_IA32_PERF_GLOBAL_CTRL) v))
                   in case read32 PrimaryVmExitControls v of
                        Inl _ \<Rightarrow> v
                      | Inr x \<Rightarrow> snd (write32 PrimaryVmExitControls (x OR vm_exit_LOAD_IA32_PERF_GLOBAL_CTRL) v))
      in s\<lparr>vs_vmcs := v\<rparr>)"

text \<open>After the loop, on every path that leaves it by \<open>break\<close>.\<close>

definition finish_loop :: "run_env \<Rightarrow> vm_run_error + exit_reason \<Rightarrow> run_state \<Rightarrow> (vm_run_error + exit_reason) \<times> run_state" where
  "finish_loop e result rs =
     (let (r, ic, hw) = ic_finish (re_wr_ok e) (rs_msrs rs) (rs_counter rs);
          rs = upd_state (\<lambda>s. s\<lparr>last_exit_qualification := natural_or_zero ExitQualification s,
                                last_guest_physical_addr := violation_address s\<rparr>) (rs\<lparr>rs_msrs := hw, rs_counter := ic\<rparr>)
      in case r of Inl err \<Rightarrow> (Inl (RunInstructionCounter err), rs) | Inr _ \<Rightarrow> (result, rs))"

definition run_loop :: "run_env \<Rightarrow> iteration list \<Rightarrow> u64 \<Rightarrow> run_state \<Rightarrow> (vm_run_error + exit_reason) option \<times> run_state" where
  "run_loop e its host_kernel_gs_base rs =
     (case write_host_state e rs of
        (Inl err, rs) \<Rightarrow> (Some (Inl err), rs)
      | (Inr _, rs) \<Rightarrow>
          (case ic_prepare (re_rd_ok e) (re_wr_ok e) (rs_msrs rs) (rs_counter rs) of
             (Inl err, ic, hw) \<Rightarrow> (Some (Inl (RunInstructionCounter err)), rs\<lparr>rs_counter := ic, rs_msrs := hw\<rparr>)
           | (Inr _, ic, hw) \<Rightarrow>
               (case run_iterations (re_margin e) host_kernel_gs_base its
                       (upd_state (write_counter_fields ic) (rs\<lparr>rs_counter := ic, rs_msrs := hw\<rparr>)) of
                  (None, rs) \<Rightarrow> (None, rs)
                | (Some Next, rs) \<Rightarrow> (None, rs)
                | (Some (Return err), rs) \<Rightarrow> (Some (Inl err), rs)
                | (Some (Break result), rs) \<Rightarrow> (let (r, rs) = finish_loop e result rs in (Some r, rs)))))"

section \<open>Running a VM\<close>

text \<open>Up to the loop. \<open>Inl\<close> is a return that leaves the rest of \<open>run\<close> undone.\<close>

definition enter_run :: "run_env \<Rightarrow> (run_state, vm_run_error, unit) fallible" where
  "enter_run e rs =
     (let s = ctx_state (rs_ctx rs);
          rs = rs\<lparr>rs_msrs := syscall_msrs_load (msr_syscall (msr_state s)) (rs_msrs rs)\<rparr>
      in case vmcs_load (re_load_ok e) (vs_vmcs s) of
           (Inl err, v) \<Rightarrow> (Inl (RunVmcsLoad err), upd_state (\<lambda>s. s\<lparr>vs_vmcs := v\<rparr>) rs)
         | (Inr _, v) \<Rightarrow>
             let rs = upd_state (\<lambda>s. s\<lparr>vs_vmcs := v\<rparr>) rs; moved = (last_cpu s \<noteq> Some (re_cpu e))
             in if moved \<and> \<not> re_invept_ok e then (Inl RunInveptFailed, rs)
                else
                  let rs = (if moved then upd_state (\<lambda>s. s\<lparr>last_cpu := Some (re_cpu e)\<rparr>) rs else rs);
                      rs = upd_state apply_intercept_pf rs
                  in case update_mtf_state (re_margin e) (ctx_state (rs_ctx rs)) of
                       (Inl err, s) \<Rightarrow> (Inl (RunExitHandler err), upd_state (\<lambda>_. s) rs)
                     | (Inr _, s) \<Rightarrow> (Inr (), upd_state (\<lambda>_. s) rs))"

text \<open>After the loop: VMCLEAR and the switch back to the host's registers.\<close>

definition leave_run :: "run_env \<Rightarrow> u64 \<Rightarrow> vm_run_error + exit_reason \<Rightarrow> run_state \<Rightarrow> (vm_run_error + exit_reason) \<times> run_state" where
  "leave_run e host_kernel_gs_base result rs =
     (let (cleared, v) = vmcs_clear (re_clear_ok e) (vs_vmcs (ctx_state (rs_ctx rs)));
          rs = upd_state (\<lambda>s. s\<lparr>vs_vmcs := v, vs_launched := False,
                 msr_state := (msr_state s)\<lparr>msr_syscall := syscall_msrs_capture (Some \<circ> rs_msrs rs)\<rparr>\<rparr>) rs;
          hw = syscall_msrs_load (host_syscall_msrs (vs_host (ctx_state (rs_ctx rs)))) (rs_msrs rs);
          rs = rs\<lparr>rs_msrs := hw(IA32_KERNEL_GS_BASE := host_kernel_gs_base)\<rparr>
      in case cleared of Inl err \<Rightarrow> (Inl (RunVmcsClear err), rs) | Inr _ \<Rightarrow> (result, rs))"

text \<open>\<open>None\<close> when the guest is still running after the given iterations.\<close>

definition run :: "run_env \<Rightarrow> iteration list \<Rightarrow> run_state \<Rightarrow> (vm_run_error + exit_reason) option \<times> run_state" where
  "run e its rs =
     (let host_kernel_gs_base = rs_msrs rs IA32_KERNEL_GS_BASE
      in case enter_run e rs of
           (Inl err, rs) \<Rightarrow> (Some (Inl err), rs)
         | (Inr _, rs) \<Rightarrow>
             (case run_loop e its host_kernel_gs_base rs of
                (None, rs) \<Rightarrow> (None, rs)
              | (Some result, rs) \<Rightarrow> (let (r, rs) = leave_run e host_kernel_gs_base result rs in (Some r, rs))))"

end
