(* ===== verification/Run_Laws.thy ===== *)
theory Run_Laws
  imports Run Dispatch_Laws
begin

text \<open>
  The registers that \<open>run\<close> switches by hand between host and guest: what holds of them
  when \<open>run\<close> returns, whatever the guest has done.
\<close>

section \<open>The system call registers\<close>

lemma syscall_msrs_load_capture: "syscall_msrs_capture (Some \<circ> syscall_msrs_load m hw) = m"
  by (simp add: syscall_msrs_capture_def syscall_msrs_load_def or_zero_def)

lemma capture_kernel_gs [simp]:
  "syscall_msrs_capture (Some \<circ> hw(IA32_KERNEL_GS_BASE := x)) = syscall_msrs_capture (Some \<circ> hw)"
  by (simp add: syscall_msrs_capture_def)

lemma capture_loaded:
  "syscall_msrs_capture (Some \<circ> (syscall_msrs_load m hw)(IA32_KERNEL_GS_BASE := x)) = m"
  unfolding capture_kernel_gs by (rule syscall_msrs_load_capture)

lemma upd_state_simps [simp]:
  "rs_msrs (upd_state f rs) = rs_msrs rs" "ctx_state (rs_ctx (upd_state f rs)) = f (ctx_state (rs_ctx rs))"
  "rs_counter (upd_state f rs) = rs_counter rs"
  by (simp_all add: upd_state_def)

lemma leave_run_host:
  assumes "leave_run e gs result rs = (r, rs')"
  shows "rs_msrs rs' IA32_KERNEL_GS_BASE = gs"
    and "syscall_msrs_capture (Some \<circ> rs_msrs rs') = host_syscall_msrs (vs_host (ctx_state (rs_ctx rs')))"
    and "\<not> vs_launched (ctx_state (rs_ctx rs'))"
  using assms
  by (auto simp: leave_run_def Let_def syscall_msrs_load_capture simp del: comp_apply split: sum.splits prod.splits)

text \<open>C39. When \<open>run\<close> returns after it has entered the loop, the registers it switches by
  hand are the host's again, whatever the guest wrote to them and however the loop
  ended: \<open>KERNEL_GS_BASE\<close> has the value it had before, the system call registers have the
  values of the VM's host state, and the next entry launches the control structure
  anew.\<close>

theorem run_restores_host:
  assumes run: "run e its rs = (Some r, rs')" and entered: "fst (enter_run e rs) = Inr ()"
  shows "rs_msrs rs' IA32_KERNEL_GS_BASE = rs_msrs rs IA32_KERNEL_GS_BASE \<and>
    syscall_msrs_capture (Some \<circ> rs_msrs rs') = host_syscall_msrs (vs_host (ctx_state (rs_ctx rs'))) \<and>
    \<not> vs_launched (ctx_state (rs_ctx rs'))"
proof -
  obtain rs1 where e: "enter_run e rs = (Inr (), rs1)" using entered by (metis prod.collapse)
  obtain result rs2 where l: "run_loop e its (rs_msrs rs IA32_KERNEL_GS_BASE) rs1 = (Some result, rs2)"
    using run by (auto simp: run_def e Let_def split: prod.splits option.splits)
  have "leave_run e (rs_msrs rs IA32_KERNEL_GS_BASE) result rs2 = (r, rs')"
    using run by (simp add: run_def e l Let_def split: prod.splits)
  then show ?thesis using leave_run_host by blast
qed

text \<open>A run in which the processor refuses the entry, on a host whose \<open>LSTAR\<close> differs from the guest's.\<close>

definition w_run_state :: "bool \<Rightarrow> run_state" where
  "w_run_state loaded =
     \<lparr>rs_ctx = \<lparr>ctx_state = (w_vm (w_vmcs\<lparr>vmcs_loaded := loaded\<rparr>))
                  \<lparr>msr_state := guest_msr_state_new\<lparr>msr_syscall := \<lparr>star = 1, lstar = 2, cstar = 3, fmask = 4\<rparr>\<rparr>\<rparr>,
                ctx_vm = RootVm (fst w_root), ctx_world = w_world\<rparr>,
      rs_msrs = (\<lambda>_. 0)(IA32_KERNEL_GS_BASE := 0x1234, IA32_LSTAR := 0x5678),
      rs_counter = instruction_counter_new (Some 0x9000), rs_regs = gprs_default\<rparr>"

definition w_run_env :: "bool \<Rightarrow> run_env" where
  "w_run_env load_ok =
     \<lparr>re_cpu = 0, re_load_ok = load_ok, re_invept_ok = True, re_clear_ok = True, re_cr3 = Some 0x1000, re_tr_base = 0,
      re_gdtr_base = 0, re_host_rsp = 0, re_rd_ok = (\<lambda>_. True), re_wr_ok = (\<lambda>_. True), re_margin = 3\<rparr>"

definition w_refused :: iteration where
  "w_refused =
     \<lparr>it_guest = (\<lambda>rs. (False, rs\<lparr>rs_msrs := (\<lambda>_. 7)\<rparr>)), it_loop_start = 0, it_inject = 0, it_pre_entry = 0, it_post_exit = 0,
      it_pre_irq = 0, it_post_irq = 0, it_pre_handler = 0, it_loop_end = 0, it_pmc0 = 0, it_exit = w_env, it_need_resched = False\<rparr>"

lemma w_refused_returns: "\<exists>x rs'. run_iteration m gs w_refused rs = (Return x, rs')"
  by (simp add: run_iteration_def w_refused_def Let_def split: prod.split sum.split)

lemma w_refused_loop: "\<exists>x rs2. run_loop e [w_refused] gs rs = (Some x, rs2)"
proof -
  obtain h rs1 where h: "write_host_state e rs = (h, rs1)" by fastforce
  obtain p ic hw where p: "ic_prepare (re_rd_ok e) (re_wr_ok e) (rs_msrs rs1) (rs_counter rs1) = (p, ic, hw)" by (metis prod_cases3)
  let ?rs = "upd_state (write_counter_fields ic) (rs1\<lparr>rs_counter := ic, rs_msrs := hw\<rparr>)"
  obtain x rs2 where it: "run_iteration (re_margin e) gs w_refused ?rs = (Return x, rs2)" using w_refused_returns by blast
  have "run_iterations (re_margin e) gs [w_refused] ?rs = (Some (Return x), rs2)" by (simp add: it)
  then show ?thesis
    by (cases h; cases p) (simp_all add: run_loop_def h p del: run_iterations.simps)
qed

theorem run_restores_host_witness:
  "\<exists>r rs'. run (w_run_env True) [w_refused] (w_run_state False) = (Some r, rs') \<and>
     rs_msrs rs' IA32_KERNEL_GS_BASE = 0x1234"
proof -
  let ?e = "w_run_env True" and ?rs = "w_run_state False"
  obtain rs1 where e: "enter_run ?e ?rs = (Inr (), rs1)"
    by (simp add: enter_run_def w_run_env_def w_run_state_def vmcs_load_def Let_def update_mtf_state_def mtf_wanted_def
        in_single_step_def w_vm_def apply_intercept_pf_def upd_state_def)
  obtain x rs2 where l: "run_loop ?e [w_refused] (rs_msrs ?rs IA32_KERNEL_GS_BASE) rs1 = (Some x, rs2)"
    using w_refused_loop by blast
  obtain r rs' where "leave_run ?e (rs_msrs ?rs IA32_KERNEL_GS_BASE) x rs2 = (r, rs')" by fastforce
  then have r: "run ?e [w_refused] ?rs = (Some r, rs')" by (simp add: run_def e l Let_def)
  show ?thesis using run_restores_host [OF r] e r by (simp add: w_run_state_def)
qed

text \<open>C40. The early returns of \<open>run\<close> come after the guest's system call registers have been
  loaded and before the host's are put back: when the control structure cannot be
  loaded, \<open>run\<close> reports that and leaves the guest's \<open>LSTAR\<close> and its companions in the
  processor, where the next system call of the host would use them.\<close>

theorem failed_load_leaves_guest_msrs:
  assumes "\<not> re_load_ok e"
  shows "\<exists>rs'. run e its rs = (Some (Inl (RunVmcsLoad ''VMPTRLD failed'')), rs') \<and>
    syscall_msrs_capture (Some \<circ> rs_msrs rs') = msr_syscall (msr_state (ctx_state (rs_ctx rs)))"
  using assms
  by (simp add: run_def enter_run_def vmcs_load_def Let_def syscall_msrs_load_capture del: comp_apply)

theorem failed_load_leaves_guest_msrs_witness:
  "\<exists>rs'. run (w_run_env False) [] (w_run_state False) = (Some (Inl (RunVmcsLoad ''VMPTRLD failed'')), rs') \<and>
     lstar (syscall_msrs_capture (Some \<circ> rs_msrs rs')) = 2 \<and> rs_msrs (w_run_state False) IA32_LSTAR = 0x5678"
  using failed_load_leaves_guest_msrs [of "w_run_env False" "[]" "w_run_state False"]
  by (auto simp: w_run_env_def w_run_state_def)

end
