(* ===== verification/Spec2Isabelle.thy ===== *)
theory Spec2Isabelle
  imports Fork_Props Vpid Lifecycle_Laws Exit_Types Device_Laws Event_Laws Vm_State_Laws Vmx_Init Precise_Laws Dispatch_Laws Decoder_Laws Run_Laws
begin

text \<open>
  \<^bold>\<open>Verification of the bedrock hypervisor.\<close> Bedrock is a type-2 hypervisor for
  deterministic execution of one-processor Linux guests: a kernel module runs
  root VMs and copy-on-write forks of them, and makes the time, the interrupts and
  the randomness that a guest sees a function of the instructions it has retired.

  Memory. \<open>Page_Alloc\<close> models the page pool and the frame allocator of
  \<open>crates/bedrock/page.rs\<close> and \<open>factory.rs\<close>; \<open>Ept\<close> the extended page tables of
  \<open>crates/bedrock-ept\<close> as a store of 512-entry tables; \<open>Cow\<close> the copy-on-write
  page map of \<open>bedrock-vmx/src/cow.rs\<close>; \<open>Fork\<close> the root and forked VMs of
  \<open>bedrock-vmx/src/vm\<close>. \<open>Ept_Laws\<close> gives the page table operations as updates of
  the translation function and \<open>Ept_Supply\<close> the number of frames they need;
  \<open>Fork_Laws\<close> and \<open>Fork_Props\<close> show that a fork starts with the memory of its
  parent, that no step of a fork is visible to its ancestors, and that the
  copy-on-write handler makes progress.

  Identifiers and lifetimes. \<open>Vpid\<close> models the bitmap of virtual processor
  identifiers, as sequential code and as atomic steps of concurrent callers;
  \<open>Lifecycle\<close> and \<open>Lifecycle_Laws\<close> the registry of VMs, reference and child
  counts, the phases of creating, forking, running and releasing a VM.

  Devices. \<open>Rtc\<close>, \<open>Devices\<close> and \<open>Device_Laws\<close> hold the emulated clock, APIC, I/O APIC,
  serial port, memory type registers and randomness device (\<open>bedrock-vmx/src/devices\<close>,
  \<open>exits/apic.rs\<close>): the clock registers give back the emulated time, the APIC registers
  refine sets of vectors, and the bytes that are hashed determine the device state.

  Channels. \<open>Io_Channel\<close> models the deterministic I/O channel and its wire format
  (\<open>vm_state.rs\<close>, \<open>vm_file/handlers.rs\<close>, \<open>bedrock-vm/src/io_channel.rs\<close>) and shows it to be
  a bounded queue; \<open>Events\<close> and \<open>Event_Laws\<close> the event stream (\<open>events/types.rs\<close>,
  \<open>vm_state.rs\<close>, \<open>bedrock-vm/src/events.rs\<close>) and that the reader gets what was accepted.

  The processor. \<open>Vmx_Regs\<close> names control-structure fields, MSRs and control bits; \<open>Vmcs\<close>
  and \<open>Vmcs_Laws\<close> model VMREAD and VMWRITE on a field map, the set-up of the control
  structure, host state and guest registers (\<open>traits/vmcs.rs\<close>, \<open>traits/registers.rs\<close>,
  \<open>host.rs\<close>); \<open>Vmx_Init\<close> entering and leaving VMX operation on all processors.

  The VM state. \<open>Exit_Types\<close> holds exit reasons, qualifications and injection words,
  \<open>Exit_Stats\<close> the counters, \<open>Pebs\<close> the arming of the counter for precise exits, \<open>Vm_State\<close>
  the record \<open>VmState\<close>, its creation and its copy for a fork, and exit records. \<open>Vm_State_Laws\<close>
  shows which MSRs pass through and that a fork continues its parent. \<open>Precise\<close> and
  \<open>Precise_Laws\<close> choose the next deadline, arm the counter and the single-step trap, and
  show that no pending deadline is left unguarded, and when one is.

  Exits. \<open>Exit_Handlers\<close> has the handlers that need no guest memory, \<open>Interrupts\<close> the
  injection before an entry, \<open>Guest_Access\<close> page-table walks, the instruction decoder, MMIO
  and EPT violations, \<open>Vmcall\<close> the hypercalls, \<open>Dispatch\<close> the dispatcher \<open>handle_exit\<close>
  (\<open>exits/*.rs\<close>, \<open>decoder.rs\<close>). A handler maps the VM state, or the state with the VM's memory
  (\<open>vm_ctx\<close>), to a result and the state after it. \<open>Dispatch_Laws\<close> shows that exits at a
  moment of the host's choosing change nothing the guest can observe, and that a requested
  stop hides a fatal exit; \<open>Decoder_Laws\<close> that decoded instructions are well formed.

  Running. \<open>Run\<close> models the instruction counter and \<open>run\<close> and \<open>run_loop\<close> of
  \<open>traits/vm_run.rs\<close> over a list of iterations, each of which carries what the guest and the
  processor do between entry and exit. \<open>Run_Laws\<close> shows which registers are the host's
  again when \<open>run\<close> returns, and on which path they are not.

  Conventions and bounds. Machine integers are words of their width, and wrap around.
  Outcomes of code outside the repository (page allocation, file descriptors, VMX
  instructions, the host's clock, CPUID, the kernel's hash) are arguments of the
  definitions. Loops over buffers end by a measure on the remaining length; the only
  loop that need not end is the run loop, which is bounded by the list of iterations: its
  result is \<open>None\<close> when the list ends first, so no statement about its result assumes a
  bound. Statements about guest memory range over addresses below \<open>2 ^ 48\<close>, the reach of a
  four-level walk. One reading of the host's clock stands for all readings that a single
  handler makes for the events it emits.

  Not modelled. Entry and exit assembly and the C wrappers of the kernel module, which are
  parameters; the invalidation of translations by VPID, locks and log output, which the
  model state does not show; the dump after a triple fault; the remaining ioctls, which
  copy structures to and from user space; and the user-space side: VM library, boot image,
  file transfer, branching laboratory, assertions, command line, tests and the programs
  that run inside the guest.
\<close>

end
